theory Spec2Isabelle
  imports Complex_Main
begin

section \<open>Python values\<close>

text \<open>
  Numbers. The client of \<^verbatim>\<open>get_qb_client\<close> is built without \<^verbatim>\<open>use_decimal\<close>, so
  the numbers of a remote record are what the JSON parser makes of them: a Python
  \<^verbatim>\<open>float\<close> (an IEEE 754 binary64 value) for a literal with a decimal point, an
  \<^verbatim>\<open>int\<close> for one without. The literals of the importer (\<^verbatim>\<open>Decimal("0.05")\<close>) are
  \<^verbatim>\<open>Decimal\<close> values. Each of these values is a rational number, and an amount is
  modelled as the rational it denotes; comparison with zero is exact on all of them.
  Dates and identifiers of the remote service are opaque strings. An attribute that may
  be \<^verbatim>\<open>None\<close> has an option type.
\<close>

type_synonym amount = rat

text \<open>
  The one arithmetic operation of the importer on remote numbers is the subtraction of
  the header totals, a subtraction of floats: the exact difference, rounded to the
  nearest binary64 value, ties to the even significand. For a positive \<open>x\<close>,
  \<open>exponent x\<close> is the integer \<open>k\<close> with \<open>pow2 k \<le> x < pow2 (k + 1)\<close>, and \<open>to_double x\<close>
  is the multiple of \<open>pow2 (k - 52)\<close> nearest to \<open>x\<close>. Overflow, subnormal numbers and
  NaN are left out: \<open>to_double\<close> is the rounding of IEEE 754 for zero and for the
  magnitudes from \<open>pow2 (- 1022)\<close> up to the largest finite double, which covers every
  amount of the accounting service. An \<^verbatim>\<open>int\<close> operand is converted to a float before
  the subtraction; below \<open>pow2 53\<close> in magnitude the conversion rounds nothing, and the
  difference of two such \<^verbatim>\<open>int\<close> values is exact in Python and here. What the store
  makes of the number it is handed (the columns are \<^verbatim>\<open>Numeric(12, 2)\<close>) is the store's
  business and is not modelled.
\<close>

definition pow2 :: "int \<Rightarrow> rat" where
  "pow2 k = (if 0 \<le> k then 2 ^ nat k else 1 / 2 ^ nat (- k))"

function bit_length :: "int \<Rightarrow> int" where
  "bit_length n = (if n \<le> 0 then 0 else 1 + bit_length (n div 2))"
  by pat_completeness auto
termination
  by (relation "measure nat") auto

declare bit_length.simps [simp del]

definition exponent :: "rat \<Rightarrow> int" where
  "exponent x =
     (case quotient_of x of (p, q) \<Rightarrow>
        (let k = bit_length p - bit_length q
         in if pow2 k \<le> x then k else k - 1))"

definition round_half_even :: "rat \<Rightarrow> int" where
  "round_half_even x =
     (let n = \<lfloor>x\<rfloor>; d = x - of_int n
      in if d < 1 / 2 then n else if 1 / 2 < d then n + 1 else if even n then n else n + 1)"

definition to_double :: "rat \<Rightarrow> amount" where
  "to_double x =
     (if x = 0 then 0
      else (let u = pow2 (exponent \<bar>x\<bar> - 52)
            in sgn x * of_int (round_half_even (\<bar>x\<bar> / u)) * u))"

text \<open>\<^verbatim>\<open>a - b\<close> on floats.\<close>

definition float_sub :: "amount \<Rightarrow> amount \<Rightarrow> amount" where
  "float_sub a b = to_double (a - b)"

text \<open>Truth value of a string attribute: \<^verbatim>\<open>None\<close> and the empty string are falsy.\<close>

definition truthy :: "string option \<Rightarrow> bool" where
  "truthy v = (case v of None \<Rightarrow> False | Some t \<Rightarrow> t \<noteq> [])"

text \<open>Rendering of an attribute inside an f-string.\<close>

definition fmt :: "string option \<Rightarrow> string" where
  "fmt v = (case v of None \<Rightarrow> ''None'' | Some t \<Rightarrow> t)"

text \<open>\<^verbatim>\<open>x or Decimal("0.0")\<close>: a missing or zero amount is zero.\<close>

definition or_zero :: "amount option \<Rightarrow> amount" where
  "or_zero v = (case v of None \<Rightarrow> 0 | Some a \<Rightarrow> (if a = 0 then 0 else a))"

datatype exn =
    ValueError string
  | Exception string
  | AttributeError string
  | DatabaseError string
  | OtherError string

section \<open>Records of the remote accounting service\<close>

record Ref =
  ref_value :: "string option"

record LinkedTxn =
  TxnType :: "string option"
  TxnId :: "string option"

record TxnTaxDetail =
  TotalTax :: amount

text \<open>
  The detail of an item-based line: \<^verbatim>\<open>ItemBasedExpenseLineDetail\<close> on a purchase order,
  \<^verbatim>\<open>SalesItemLineDetail\<close> on an invoice. The importer reads the same four attributes of
  both.
\<close>

record LineDetail =
  ItemRef :: "Ref option"
  TaxCodeRef :: "Ref option"
  Qty :: "amount option"
  UnitPrice :: "amount option"

record Line =
  DetailType :: "string option"
  Description :: "string option"
  ItemBasedExpenseLineDetail :: "LineDetail option"
  SalesItemLineDetail :: "LineDetail option"

record EmailAddress =
  Address :: "string option"

record PhoneNumber =
  FreeFormNumber :: "string option"

record QBSupplier =
  v_Id :: "string option"
  DisplayName :: "string option"
  PrimaryEmailAddr :: "EmailAddress option"
  PrimaryPhone :: "PhoneNumber option"

record QBItem =
  item_Id :: "string option"
  item_Name :: "string option"
  item_Type :: "string option"

record Attachable =
  FileName :: "string option"
  FileAccessUri :: "string option"

record QBPurchaseOrder =
  po_Id :: "string option"
  po_DocNumber :: "string option"
  po_TxnDate :: "string option"
  POStatus :: "string option"
  po_TotalAmt :: amount
  po_TxnTaxDetail :: "TxnTaxDetail option"
  po_PrivateNote :: "string option"
  po_Memo :: "string option"
  VendorRef :: "Ref option"
  po_Line :: "Line list"

record QBInvoice =
  inv_Id :: "string option"
  inv_DocNumber :: "string option"
  inv_TxnDate :: "string option"
  DueDate :: "string option"
  Balance :: amount
  inv_TotalAmt :: amount
  inv_TxnTaxDetail :: "TxnTaxDetail option"
  CustomerMemo :: "string option"
  inv_PrivateNote :: "string option"
  inv_LinkedTxn :: "LinkedTxn list"
  inv_Line :: "Line list"

section \<open>Rows of the local store (models.py)\<close>

text \<open>
  A column declared \<^verbatim>\<open>nullable=False\<close> without a default, and every primary key, has a
  plain type; every other column has an option type. The \<^verbatim>\<open>created_at\<close> timestamps are
  left out.
\<close>

record Project =
  p_id :: nat
  p_name :: string

record User =
  u_id :: nat
  u_email :: string
  hashed_password :: string

record Supplier =
  s_id :: nat
  s_name :: string
  s_email :: "string option"
  s_phone :: "string option"

record Material =
  m_id :: nat
  m_name :: string
  m_unit :: string

record LPO =
  l_id :: nat
  lpo_number :: string
  lpo_date :: "string option"
  l_status :: "string option"
  l_subtotal :: "amount option"
  l_tax_total :: "amount option"
  l_grand_total :: "amount option"
  message_to_supplier :: "string option"
  l_memo :: "string option"
  l_payment_mode :: "string option"
  l_supplier_id :: nat
  l_project_id :: nat
  l_created_by_id :: nat

record LPOItem =
  li_id :: nat
  li_description :: "string option"
  li_quantity :: amount
  li_rate :: amount
  li_tax_rate :: "amount option"
  li_lpo_id :: nat
  li_material_id :: nat

record LPOAttachment =
  la_id :: nat
  la_blob_url :: string
  la_file_name :: "string option"
  la_lpo_id :: "nat option"

record Invoice =
  i_id :: nat
  invoice_number :: string
  invoice_date :: "string option"
  invoice_due_date :: "string option"
  i_lpo_id :: "nat option"
  i_status :: "string option"
  i_subtotal :: "amount option"
  i_tax_total :: "amount option"
  i_grand_total :: "amount option"
  message_to_customer :: "string option"
  i_memo :: "string option"
  i_payment_mode :: "string option"
  i_supplier_id :: nat
  i_project_id :: nat
  i_created_by_id :: nat

record InvoiceItem =
  ii_id :: nat
  ii_description :: "string option"
  ii_quantity :: amount
  ii_rate :: amount
  ii_tax_rate :: "amount option"
  item_class :: "string option"
  customer_project :: "string option"
  ii_invoice_id :: nat
  ii_material_id :: nat

record InvoiceAttachment =
  ia_id :: nat
  ia_blob_url :: string
  ia_file_name :: "string option"
  ia_invoice_id :: "nat option"

record tables =
  suppliers :: "Supplier list"
  materials :: "Material list"
  projects :: "Project list"
  users :: "User list"
  lpos :: "LPO list"
  lpo_items :: "LPOItem list"
  lpo_attachments :: "LPOAttachment list"
  invoices :: "Invoice list"
  invoice_items :: "InvoiceItem list"
  invoice_attachments :: "InvoiceAttachment list"

definition empty_tables :: tables where
  "empty_tables = \<lparr>suppliers = [], materials = [], projects = [], users = [], lpos = [],
     lpo_items = [], lpo_attachments = [], invoices = [], invoice_items = [],
     invoice_attachments = []\<rparr>"

definition tables_append :: "tables \<Rightarrow> tables \<Rightarrow> tables" where
  "tables_append a b = \<lparr>suppliers = suppliers a @ suppliers b,
     materials = materials a @ materials b, projects = projects a @ projects b,
     users = users a @ users b, lpos = lpos a @ lpos b,
     lpo_items = lpo_items a @ lpo_items b,
     lpo_attachments = lpo_attachments a @ lpo_attachments b,
     invoices = invoices a @ invoices b,
     invoice_items = invoice_items a @ invoice_items b,
     invoice_attachments = invoice_attachments a @ invoice_attachments b\<rparr>"

section \<open>The session and the collaborators\<close>

text \<open>
  The SQLAlchemy session (\<^verbatim>\<open>autocommit=False, autoflush=False\<close>): \<open>committed\<close> is the
  store as of the last commit, \<open>flushed\<close> is what a query inside the open transaction
  sees, \<open>pending\<close> holds the objects added and not yet flushed (invisible to queries,
  since autoflush is off). An object is given, when it is constructed for the session,
  the identifier its row will carry; the importer reads an identifier only after the
  flush that inserts the row. \<open>calls\<close> is the trace of requests sent to the remote
  accounting service and to blob storage.
\<close>

datatype call =
    CompanyInfo_all
  | Invoice_query nat nat
  | PurchaseOrder_get "string option"
  | Supplier_get string
  | Item_get string
  | Attachable_where string "string option"
  | session_get string
  | upload_blob string string

record session =
  committed :: tables
  flushed :: tables
  pending :: tables
  calls :: "call list"

text \<open>
  What the collaborators answer. Each remote lookup either raises (\<open>Inl\<close> with the
  message) or returns a record. \<open>remote_invoices\<close> is the list of invoices of the
  queried date window, in the order the service delivers them; the service answers each
  page of the query from this list, which is what ends the pagination loop. \<open>db_error\<close>
  is the store's verdict on a flush: given the rows visible in the transaction and the
  rows to insert, the message of the error it raises, if any. Nothing is assumed about
  it, so that a flush or a commit may fail for any reason the store has.
\<close>

datatype http_error = RequestException string | UnexpectedError string

record env =
  connect :: "string + unit"
  remote_invoices :: "QBInvoice list"
  invoice_query_error :: "string option"
  po_get :: "string option \<Rightarrow> string + QBPurchaseOrder"
  vendor_get :: "string \<Rightarrow> string + QBSupplier"
  item_get :: "string \<Rightarrow> string + QBItem"
  attachable_query :: "string \<Rightarrow> string option \<Rightarrow> string + Attachable list"
  http_get :: "string \<Rightarrow> http_error + string"
  blob_client_ok :: "string \<Rightarrow> bool"
  blob_upload :: "string \<Rightarrow> string \<Rightarrow> string + string"
  db_error :: "tables \<Rightarrow> tables \<Rightarrow> string option"

record config =
  QB_CLIENT_ID :: "string option"
  QB_CLIENT_SECRET :: "string option"
  QB_ACCESS_TOKEN :: "string option"
  QB_REFRESH_TOKEN :: "string option"
  QB_REALM_ID :: "string option"
  AZURE_CONNECTION_STRING :: "string option"

definition all_qb_keys_present :: "config \<Rightarrow> bool" where
  "all_qb_keys_present cfg = list_all truthy
     [QB_CLIENT_ID cfg, QB_CLIENT_SECRET cfg, QB_ACCESS_TOKEN cfg, QB_REFRESH_TOKEN cfg,
      QB_REALM_ID cfg]"

definition called :: "call \<Rightarrow> session \<Rightarrow> session" where
  "called c s = s\<lparr>calls := calls s @ [c]\<rparr>"

text \<open>Sequencing of steps that may raise: the first exception ends the sequence.\<close>

definition then_do ::
  "(exn + 'a) \<times> session \<Rightarrow> ('a \<Rightarrow> session \<Rightarrow> (exn + 'b) \<times> session) \<Rightarrow> (exn + 'b) \<times> session"
where
  "then_do r f = (case r of (Inl e, s) \<Rightarrow> (Inl e, s) | (Inr x, s) \<Rightarrow> f x s)"

subsection \<open>Session operations\<close>

definition next_id :: "nat list \<Rightarrow> nat" where
  "next_id ids = Suc (fold max ids 0)"

definition flush :: "env \<Rightarrow> session \<Rightarrow> (exn + unit) \<times> session" where
  "flush e s =
     (case db_error e (flushed s) (pending s) of
        Some msg \<Rightarrow> (Inl (DatabaseError msg), s)
      | None \<Rightarrow> (Inr (), s\<lparr>flushed := tables_append (flushed s) (pending s),
                             pending := empty_tables\<rparr>))"

definition commit :: "env \<Rightarrow> session \<Rightarrow> (exn + unit) \<times> session" where
  "commit e s = then_do (flush e s) (\<lambda>_ s1. (Inr (), s1\<lparr>committed := flushed s1\<rparr>))"

definition rollback :: "session \<Rightarrow> session" where
  "rollback s = s\<lparr>flushed := committed s, pending := empty_tables\<rparr>"

text \<open>Closing the session discards whatever was not committed.\<close>

definition close :: "session \<Rightarrow> session" where
  "close s = rollback s"

definition all_rows :: "session \<Rightarrow> tables" where
  "all_rows s = tables_append (flushed s) (pending s)"

definition add_supplier :: "Supplier \<Rightarrow> session \<Rightarrow> session" where
  "add_supplier r s = s\<lparr>pending := (pending s)\<lparr>suppliers := suppliers (pending s) @ [r]\<rparr>\<rparr>"

definition add_material :: "Material \<Rightarrow> session \<Rightarrow> session" where
  "add_material r s = s\<lparr>pending := (pending s)\<lparr>materials := materials (pending s) @ [r]\<rparr>\<rparr>"

definition add_project :: "Project \<Rightarrow> session \<Rightarrow> session" where
  "add_project r s = s\<lparr>pending := (pending s)\<lparr>projects := projects (pending s) @ [r]\<rparr>\<rparr>"

definition add_user :: "User \<Rightarrow> session \<Rightarrow> session" where
  "add_user r s = s\<lparr>pending := (pending s)\<lparr>users := users (pending s) @ [r]\<rparr>\<rparr>"

definition add_lpo :: "LPO \<Rightarrow> session \<Rightarrow> session" where
  "add_lpo r s = s\<lparr>pending := (pending s)\<lparr>lpos := lpos (pending s) @ [r]\<rparr>\<rparr>"

definition add_lpo_item :: "LPOItem \<Rightarrow> session \<Rightarrow> session" where
  "add_lpo_item r s = s\<lparr>pending := (pending s)\<lparr>lpo_items := lpo_items (pending s) @ [r]\<rparr>\<rparr>"

definition add_lpo_attachment :: "LPOAttachment \<Rightarrow> session \<Rightarrow> session" where
  "add_lpo_attachment r s =
     s\<lparr>pending := (pending s)\<lparr>lpo_attachments := lpo_attachments (pending s) @ [r]\<rparr>\<rparr>"

definition add_invoice :: "Invoice \<Rightarrow> session \<Rightarrow> session" where
  "add_invoice r s = s\<lparr>pending := (pending s)\<lparr>invoices := invoices (pending s) @ [r]\<rparr>\<rparr>"

definition add_invoice_item :: "InvoiceItem \<Rightarrow> session \<Rightarrow> session" where
  "add_invoice_item r s =
     s\<lparr>pending := (pending s)\<lparr>invoice_items := invoice_items (pending s) @ [r]\<rparr>\<rparr>"

definition add_invoice_attachment :: "InvoiceAttachment \<Rightarrow> session \<Rightarrow> session" where
  "add_invoice_attachment r s =
     s\<lparr>pending := (pending s)\<lparr>invoice_attachments := invoice_attachments (pending s) @ [r]\<rparr>\<rparr>"

section \<open>quickbooks_client.py\<close>

definition get_qb_client :: "env \<Rightarrow> session \<Rightarrow> bool \<times> session" where
  "get_qb_client e s =
     (case connect e of Inl err \<Rightarrow> (False, called CompanyInfo_all s)
      | Inr _ \<Rightarrow> (True, called CompanyInfo_all s))"

text \<open>One page of the invoice query: \<^verbatim>\<open>STARTPOSITION\<close> counts from 1.\<close>

definition query_page :: "env \<Rightarrow> nat \<Rightarrow> nat \<Rightarrow> string + QBInvoice list" where
  "query_page e start_pos max_results =
     (case invoice_query_error e of
        Some err \<Rightarrow> Inl err
      | None \<Rightarrow> Inr (take max_results (drop (start_pos - 1) (remote_invoices e))))"

function fetch_pages ::
  "env \<Rightarrow> nat \<Rightarrow> QBInvoice list \<Rightarrow> session \<Rightarrow> (string + QBInvoice list) \<times> session"
where
  "fetch_pages e start_pos all_invoices s =
     (case query_page e start_pos 100 of
        Inl err \<Rightarrow> (Inl err, called (Invoice_query start_pos 100) s)
      | Inr invoices_batch \<Rightarrow>
          if invoices_batch = [] then (Inr all_invoices, called (Invoice_query start_pos 100) s)
          else fetch_pages e (start_pos + 100) (all_invoices @ invoices_batch)
                 (called (Invoice_query start_pos 100) s))"
  by pat_completeness auto
termination
proof (relation "measure (\<lambda>(e, start_pos, all_invoices, s).
         Suc (length (remote_invoices e)) - start_pos)")
  show "wf (measure (\<lambda>(e, start_pos, all_invoices, s).
         Suc (length (remote_invoices e)) - start_pos))"
    by simp
next
  fix e :: env and start_pos :: nat and all_invoices :: "QBInvoice list" and s :: session
    and invoices_batch :: "QBInvoice list"
  assume q: "query_page e start_pos 100 = Inr invoices_batch" and ne: "invoices_batch \<noteq> []"
  from q have "invoices_batch = take 100 (drop (start_pos - 1) (remote_invoices e))"
    by (auto simp: query_page_def split: option.splits)
  with ne have "start_pos - 1 < length (remote_invoices e)"
    by (cases "start_pos - 1 < length (remote_invoices e)") auto
  then show "((e, start_pos + 100, all_invoices @ invoices_batch,
               called (Invoice_query start_pos 100) s),
              (e, start_pos, all_invoices, s))
             \<in> measure (\<lambda>(e, start_pos, all_invoices, s).
                 Suc (length (remote_invoices e)) - start_pos)"
    by simp
qed

declare fetch_pages.simps [simp del]

text \<open>A limit of \<^verbatim>\<open>None\<close> or 0 is falsy: the full, paginated import.\<close>

definition get_invoices :: "env \<Rightarrow> nat option \<Rightarrow> session \<Rightarrow> QBInvoice list \<times> session" where
  "get_invoices e limit s =
     (case limit of
        Some (Suc n) \<Rightarrow>
          (case query_page e 1 (Suc n) of
             Inl err \<Rightarrow> ([], called (Invoice_query 1 (Suc n)) s)
           | Inr invs \<Rightarrow> (invs, called (Invoice_query 1 (Suc n)) s))
      | _ \<Rightarrow>
          (case fetch_pages e 1 [] s of
             (Inl err, s1) \<Rightarrow> ([], s1)
           | (Inr invs, s1) \<Rightarrow> (invs, s1)))"

fun get_lpo_loop ::
  "env \<Rightarrow> LinkedTxn list \<Rightarrow> session \<Rightarrow> QBPurchaseOrder option \<times> session"
where
  "get_lpo_loop e [] s = (None, s)"
| "get_lpo_loop e (txn # txns) s =
     (if TxnType txn = Some ''PurchaseOrder'' then
        (case po_get e (TxnId txn) of
           Inr lpo \<Rightarrow> (Some lpo, called (PurchaseOrder_get (TxnId txn)) s)
         | Inl err \<Rightarrow> (None, called (PurchaseOrder_get (TxnId txn)) s))
      else get_lpo_loop e txns s)"

definition get_lpo_for_invoice ::
  "env \<Rightarrow> QBInvoice \<Rightarrow> session \<Rightarrow> QBPurchaseOrder option \<times> session"
where
  "get_lpo_for_invoice e invoice s =
     (if inv_LinkedTxn invoice = [] then (None, s)
      else get_lpo_loop e (inv_LinkedTxn invoice) s)"

definition get_supplier :: "env \<Rightarrow> string \<Rightarrow> session \<Rightarrow> QBSupplier option \<times> session" where
  "get_supplier e supplier_id s =
     (case vendor_get e supplier_id of
        Inr supplier \<Rightarrow> (Some supplier, called (Supplier_get supplier_id) s)
      | Inl err \<Rightarrow> (None, called (Supplier_get supplier_id) s))"

definition get_material :: "env \<Rightarrow> string \<Rightarrow> session \<Rightarrow> QBItem option \<times> session" where
  "get_material e item_id s =
     (case item_get e item_id of
        Inr item \<Rightarrow> (Some item, called (Item_get item_id) s)
      | Inl err \<Rightarrow> (None, called (Item_get item_id) s))"

definition get_attachments ::
  "env \<Rightarrow> string \<Rightarrow> string option \<Rightarrow> session \<Rightarrow> Attachable list \<times> session"
where
  "get_attachments e object_type object_id s =
     (case attachable_query e object_type object_id of
        Inr attachments \<Rightarrow> (attachments, called (Attachable_where object_type object_id) s)
      | Inl err \<Rightarrow> ([], called (Attachable_where object_type object_id) s))"

text \<open>
  Only a \<^verbatim>\<open>requests.exceptions.RequestException\<close> is caught; any other exception of the
  download leaves the function.
\<close>

definition download_attachment ::
  "env \<Rightarrow> Attachable \<Rightarrow> session \<Rightarrow> (exn + string option) \<times> session"
where
  "download_attachment e attachment s =
     (case FileAccessUri attachment of
        None \<Rightarrow> (Inr None, s)
      | Some download_url \<Rightarrow>
          if download_url = [] then (Inr None, s)
          else (case http_get e download_url of
                  Inr content \<Rightarrow> (Inr (Some content), called (session_get download_url) s)
                | Inl (RequestException err) \<Rightarrow> (Inr None, called (session_get download_url) s)
                | Inl (UnexpectedError err) \<Rightarrow>
                    (Inl (OtherError err), called (session_get download_url) s)))"

section \<open>import_script.py: helpers\<close>

definition get_azure_blob_service_client :: "config \<Rightarrow> env \<Rightarrow> bool" where
  "get_azure_blob_service_client cfg e =
     (if \<not> truthy (AZURE_CONNECTION_STRING cfg) then False
      else blob_client_ok e (fmt (AZURE_CONNECTION_STRING cfg)))"

text \<open>
  The content type is computed from the file name and the blob name from a fresh UUID;
  neither changes what the function returns, which is the URL the blob service answers.
\<close>

definition upload_attachment_to_azure ::
  "env \<Rightarrow> bool \<Rightarrow> string \<Rightarrow> string \<Rightarrow> session \<Rightarrow> string option \<times> session"
where
  "upload_attachment_to_azure e blob_service_client file_name file_content s =
     (if \<not> blob_service_client then (None, s)
      else (case blob_upload e file_name file_content of
              Inr url \<Rightarrow> (Some url, called (upload_blob file_name file_content) s)
            | Inl err \<Rightarrow> (None, called (upload_blob file_name file_content) s)))"

definition get_or_create_supplier ::
  "env \<Rightarrow> QBSupplier \<Rightarrow> session \<Rightarrow> (exn + Supplier) \<times> session"
where
  "get_or_create_supplier e qb_supplier s =
     (if \<not> truthy (DisplayName qb_supplier) then
        (Inl (ValueError (''QB Supplier ID '' @ fmt (v_Id qb_supplier) @ '' has no DisplayName.'')), s)
      else
        (let supplier_name = fmt (DisplayName qb_supplier) in
         case find (\<lambda>r. s_name r = supplier_name) (suppliers (flushed s)) of
           Some db_supplier \<Rightarrow> (Inr db_supplier, s)
         | None \<Rightarrow>
             (let new_supplier =
                    \<lparr>s_id = next_id (map s_id (suppliers (all_rows s))),
                     s_name = supplier_name,
                     s_email = (case PrimaryEmailAddr qb_supplier of
                                  Some a \<Rightarrow> Address a | None \<Rightarrow> None),
                     s_phone = (case PrimaryPhone qb_supplier of
                                  Some ph \<Rightarrow> FreeFormNumber ph | None \<Rightarrow> None)\<rparr>
              in then_do (flush e (add_supplier new_supplier s))
                   (\<lambda>_ s1. (Inr new_supplier, s1)))))"

definition get_or_create_material ::
  "env \<Rightarrow> QBItem \<Rightarrow> session \<Rightarrow> (exn + Material) \<times> session"
where
  "get_or_create_material e qb_item s =
     (if \<not> truthy (item_Name qb_item) then
        (Inl (ValueError (''QB Item ID '' @ fmt (item_Id qb_item) @ '' has no Name.'')), s)
      else
        (let material_name = fmt (item_Name qb_item) in
         case find (\<lambda>r. m_name r = material_name) (materials (flushed s)) of
           Some db_material \<Rightarrow> (Inr db_material, s)
         | None \<Rightarrow>
             (let unit = (if item_Type qb_item = Some ''Service'' then ''service''
                          else if item_Type qb_item = Some ''Inventory'' then ''each''
                          else ''nos'');
                  new_material =
                    \<lparr>m_id = next_id (map m_id (materials (all_rows s))),
                     m_name = material_name,
                     m_unit = unit\<rparr>
              in then_do (flush e (add_material new_material s))
                   (\<lambda>_ s1. (Inr new_material, s1)))))"

definition get_default_project :: "env \<Rightarrow> session \<Rightarrow> (exn + Project) \<times> session" where
  "get_default_project e s =
     (let project_name = ''Default Imported Project'' in
      case find (\<lambda>r. p_name r = project_name) (projects (flushed s)) of
        Some db_project \<Rightarrow> (Inr db_project, s)
      | None \<Rightarrow>
          (let db_project = \<lparr>p_id = next_id (map p_id (projects (all_rows s))),
                             p_name = project_name\<rparr>
           in then_do (flush e (add_project db_project s)) (\<lambda>_ s1. (Inr db_project, s1))))"

definition get_default_user :: "env \<Rightarrow> session \<Rightarrow> (exn + User) \<times> session" where
  "get_default_user e s =
     (let admin_email = ''import_admin@yourcompany.com'' in
      case find (\<lambda>r. u_email r = admin_email) (users (flushed s)) of
        Some db_user \<Rightarrow> (Inr db_user, s)
      | None \<Rightarrow>
          (let db_user = \<lparr>u_id = next_id (map u_id (users (all_rows s))),
                          u_email = admin_email,
                          hashed_password = ''!!!SET-A-DUMMY-PASSWORD-HERE!!!''\<rparr>
           in then_do (flush e (add_user db_user s)) (\<lambda>_ s1. (Inr db_user, s1))))"

text \<open>
  The flat rate of a line: 5 percent when a tax code reference is present and its value
  is not \<^verbatim>\<open>'NON'\<close>, else zero.
\<close>

definition line_tax_rate :: "LineDetail \<Rightarrow> amount" where
  "line_tax_rate detail =
     (case TaxCodeRef detail of
        None \<Rightarrow> 0
      | Some r \<Rightarrow> (if ref_value r \<noteq> Some ''NON'' then 5 / 100 else 0))"

text \<open>\<^verbatim>\<open>not detail.ItemRef or not detail.ItemRef.value\<close>\<close>

definition no_item_ref :: "LineDetail \<Rightarrow> bool" where
  "no_item_ref detail =
     (case ItemRef detail of None \<Rightarrow> True | Some r \<Rightarrow> \<not> truthy (ref_value r))"

definition item_ref_value :: "LineDetail \<Rightarrow> string" where
  "item_ref_value detail = (case ItemRef detail of None \<Rightarrow> [] | Some r \<Rightarrow> fmt (ref_value r))"

text \<open>The body of the loop of \<^verbatim>\<open>process_lpo_items\<close>, for one line.\<close>

definition process_lpo_line ::
  "env \<Rightarrow> Line \<Rightarrow> LPO \<Rightarrow> session \<Rightarrow> (exn + unit) \<times> session"
where
  "process_lpo_line e line db_lpo s =
     (if DetailType line = Some ''ItemBasedExpenseLineDetail'' then
        (case ItemBasedExpenseLineDetail line of
           None \<Rightarrow> (Inl (AttributeError ''ItemRef''), s)
         | Some detail \<Rightarrow>
             if no_item_ref detail then (Inr (), s)
             else
               (case get_material e (item_ref_value detail) s of
                  (None, s1) \<Rightarrow> (Inr (), s1)
                | (Some qb_item, s1) \<Rightarrow>
                    then_do (get_or_create_material e qb_item s1)
                      (\<lambda>db_material s2.
                         (Inr (), add_lpo_item
                            \<lparr>li_id = next_id (map li_id (lpo_items (all_rows s2))),
                             li_description = Description line,
                             li_quantity = or_zero (Qty detail),
                             li_rate = or_zero (UnitPrice detail),
                             li_tax_rate = Some (line_tax_rate detail),
                             li_lpo_id = l_id db_lpo,
                             li_material_id = m_id db_material\<rparr> s2))))
      else (Inr (), s))"

fun process_lpo_lines ::
  "env \<Rightarrow> Line list \<Rightarrow> LPO \<Rightarrow> session \<Rightarrow> (exn + unit) \<times> session"
where
  "process_lpo_lines e [] db_lpo s = (Inr (), s)"
| "process_lpo_lines e (line # lines) db_lpo s =
     (case process_lpo_line e line db_lpo s of
        (Inl ex, s1) \<Rightarrow> (Inl ex, s1)
      | (Inr _, s1) \<Rightarrow> process_lpo_lines e lines db_lpo s1)"

definition process_lpo_items ::
  "env \<Rightarrow> QBPurchaseOrder \<Rightarrow> LPO \<Rightarrow> session \<Rightarrow> (exn + unit) \<times> session"
where
  "process_lpo_items e qb_lpo db_lpo s =
     (if po_Line qb_lpo = [] then (Inr (), s)
      else process_lpo_lines e (po_Line qb_lpo) db_lpo s)"

text \<open>The body of the loop of \<^verbatim>\<open>process_invoice_items\<close>, for one line.\<close>

definition process_invoice_line ::
  "env \<Rightarrow> Line \<Rightarrow> Invoice \<Rightarrow> session \<Rightarrow> (exn + unit) \<times> session"
where
  "process_invoice_line e line db_invoice s =
     (if DetailType line = Some ''SalesItemLineDetail'' then
        (case SalesItemLineDetail line of
           None \<Rightarrow> (Inl (AttributeError ''ItemRef''), s)
         | Some detail \<Rightarrow>
             if no_item_ref detail then (Inr (), s)
             else
               (case get_material e (item_ref_value detail) s of
                  (None, s1) \<Rightarrow> (Inr (), s1)
                | (Some qb_item, s1) \<Rightarrow>
                    then_do (get_or_create_material e qb_item s1)
                      (\<lambda>db_material s2.
                         (Inr (), add_invoice_item
                            \<lparr>ii_id = next_id (map ii_id (invoice_items (all_rows s2))),
                             ii_description = Description line,
                             ii_quantity = or_zero (Qty detail),
                             ii_rate = or_zero (UnitPrice detail),
                             ii_tax_rate = Some (line_tax_rate detail),
                             item_class = None,
                             customer_project = None,
                             ii_invoice_id = i_id db_invoice,
                             ii_material_id = m_id db_material\<rparr> s2))))
      else (Inr (), s))"

fun process_invoice_lines ::
  "env \<Rightarrow> Line list \<Rightarrow> Invoice \<Rightarrow> session \<Rightarrow> (exn + unit) \<times> session"
where
  "process_invoice_lines e [] db_invoice s = (Inr (), s)"
| "process_invoice_lines e (line # lines) db_invoice s =
     (case process_invoice_line e line db_invoice s of
        (Inl ex, s1) \<Rightarrow> (Inl ex, s1)
      | (Inr _, s1) \<Rightarrow> process_invoice_lines e lines db_invoice s1)"

definition process_invoice_items ::
  "env \<Rightarrow> QBInvoice \<Rightarrow> Invoice \<Rightarrow> session \<Rightarrow> (exn + unit) \<times> session"
where
  "process_invoice_items e qb_invoice db_invoice s =
     (if inv_Line qb_invoice = [] then (Inr (), s)
      else process_invoice_lines e (inv_Line qb_invoice) db_invoice s)"

text \<open>
  The body of the loop of \<^verbatim>\<open>process_attachments\<close>, for one attachment. \<open>db_object\<close> is the
  identifier of the owning row.
\<close>

definition process_attachment ::
  "env \<Rightarrow> bool \<Rightarrow> string \<Rightarrow> nat \<Rightarrow> Attachable \<Rightarrow> session \<Rightarrow> (exn + unit) \<times> session"
where
  "process_attachment e blob_service_client qb_object_type db_object att s =
     (if \<not> truthy (FileName att) then (Inr (), s)
      else
        then_do (download_attachment e att s)
          (\<lambda>file_content s1.
             if \<not> truthy file_content then (Inr (), s1)
             else
               (case upload_attachment_to_azure e blob_service_client (fmt (FileName att))
                       (fmt file_content) s1 of
                  (blob_url, s2) \<Rightarrow>
                    if \<not> truthy blob_url then (Inr (), s2)
                    else if qb_object_type = ''PurchaseOrder'' then
                      (Inr (), add_lpo_attachment
                         \<lparr>la_id = next_id (map la_id (lpo_attachments (all_rows s2))),
                          la_blob_url = fmt blob_url,
                          la_file_name = FileName att,
                          la_lpo_id = Some db_object\<rparr> s2)
                    else if qb_object_type = ''Invoice'' then
                      (Inr (), add_invoice_attachment
                         \<lparr>ia_id = next_id (map ia_id (invoice_attachments (all_rows s2))),
                          ia_blob_url = fmt blob_url,
                          ia_file_name = FileName att,
                          ia_invoice_id = Some db_object\<rparr> s2)
                    else (Inr (), s2))))"

fun process_attachment_list ::
  "env \<Rightarrow> bool \<Rightarrow> string \<Rightarrow> nat \<Rightarrow> Attachable list \<Rightarrow> session \<Rightarrow> (exn + unit) \<times> session"
where
  "process_attachment_list e blob_service_client qb_object_type db_object [] s = (Inr (), s)"
| "process_attachment_list e blob_service_client qb_object_type db_object (att # atts) s =
     (case process_attachment e blob_service_client qb_object_type db_object att s of
        (Inl ex, s1) \<Rightarrow> (Inl ex, s1)
      | (Inr _, s1) \<Rightarrow>
          process_attachment_list e blob_service_client qb_object_type db_object atts s1)"

definition process_attachments ::
  "env \<Rightarrow> bool \<Rightarrow> string \<Rightarrow> string option \<Rightarrow> nat \<Rightarrow> session \<Rightarrow> (exn + unit) \<times> session"
where
  "process_attachments e blob_service_client qb_object_type qb_object_id db_object s =
     (case get_attachments e qb_object_type qb_object_id s of
        (qb_attachments, s1) \<Rightarrow>
          process_attachment_list e blob_service_client qb_object_type db_object
            qb_attachments s1)"

section \<open>import_script.py: the orchestrator\<close>

text \<open>
  What the loop body records for an invoice: the counter it increments, with the reason
  of the warning it logs for a skip (\<open>AlreadyExists\<close> is "Already exists in database") or
  the exception of the error it logs for a failure.
\<close>

datatype skip_reason = NoDocNumber | AlreadyExists | NoLinkedLPO | LPOHasNoDocNumber

datatype outcome = Succeeded | Skipped skip_reason | Failed exn

text \<open>\<^verbatim>\<open>TotalTax if TxnTaxDetail else 0\<close>\<close>

definition tax_of :: "TxnTaxDetail option \<Rightarrow> amount" where
  "tax_of d = (case d of Some t \<Rightarrow> TotalTax t | None \<Rightarrow> 0)"

text \<open>
  Step 4 of the loop body: find the purchase order by its number, or create it with its
  supplier, items and attachments, and flush.
\<close>

definition process_lpo ::
  "env \<Rightarrow> bool \<Rightarrow> Project \<Rightarrow> User \<Rightarrow> QBPurchaseOrder \<Rightarrow> string \<Rightarrow> session
     \<Rightarrow> (exn + LPO) \<times> session"
where
  "process_lpo e blob_service_client default_project default_user qb_lpo lpo_number' s =
     (case find (\<lambda>r. lpo_number r = lpo_number') (lpos (flushed s)) of
        Some db_lpo \<Rightarrow> (Inr db_lpo, s)
      | None \<Rightarrow>
          if (case VendorRef qb_lpo of None \<Rightarrow> True | Some r \<Rightarrow> \<not> truthy (ref_value r)) then
            (Inl (Exception (''LPO '' @ lpo_number' @ '' has no Supplier (VendorRef).'')), s)
          else
            (let vendor_id = (case VendorRef qb_lpo of None \<Rightarrow> [] | Some r \<Rightarrow> fmt (ref_value r)) in
             case get_supplier e vendor_id s of
               (None, s1) \<Rightarrow>
                 (Inl (Exception (''Supplier ID '' @ vendor_id @ '' not found in QB.'')), s1)
             | (Some qb_supplier, s1) \<Rightarrow>
                 then_do (get_or_create_supplier e qb_supplier s1)
                   (\<lambda>db_supplier s2.
                      let db_lpo =
                            \<lparr>l_id = next_id (map l_id (lpos (all_rows s2))),
                             lpo_number = lpo_number',
                             lpo_date = po_TxnDate qb_lpo,
                             l_status = POStatus qb_lpo,
                             l_subtotal = Some (float_sub (po_TotalAmt qb_lpo)
                                                  (tax_of (po_TxnTaxDetail qb_lpo))),
                             l_tax_total = Some (tax_of (po_TxnTaxDetail qb_lpo)),
                             l_grand_total = Some (po_TotalAmt qb_lpo),
                             message_to_supplier = po_PrivateNote qb_lpo,
                             l_memo = po_Memo qb_lpo,
                             l_payment_mode = None,
                             l_supplier_id = s_id db_supplier,
                             l_project_id = p_id default_project,
                             l_created_by_id = u_id default_user\<rparr>
                      in then_do (process_lpo_items e qb_lpo db_lpo (add_lpo db_lpo s2))
                           (\<lambda>_ s3.
                              then_do (process_attachments e blob_service_client ''PurchaseOrder''
                                         (po_Id qb_lpo) (l_id db_lpo) s3)
                                (\<lambda>_ s4. then_do (flush e s4) (\<lambda>_ s5. (Inr db_lpo, s5)))))))"

text \<open>Steps 5 to 7: create the invoice with its items and attachments, and commit.\<close>

definition create_invoice ::
  "env \<Rightarrow> bool \<Rightarrow> QBInvoice \<Rightarrow> string \<Rightarrow> LPO \<Rightarrow> session \<Rightarrow> (exn + outcome) \<times> session"
where
  "create_invoice e blob_service_client qb_invoice invoice_number' db_lpo s =
     (let db_invoice =
            \<lparr>i_id = next_id (map i_id (invoices (all_rows s))),
             invoice_number = invoice_number',
             invoice_date = inv_TxnDate qb_invoice,
             invoice_due_date = DueDate qb_invoice,
             i_lpo_id = Some (l_id db_lpo),
             i_status = Some (if Balance qb_invoice = 0 then ''Paid'' else ''Pending''),
             i_subtotal = Some (float_sub (inv_TotalAmt qb_invoice)
                                  (tax_of (inv_TxnTaxDetail qb_invoice))),
             i_tax_total = Some (tax_of (inv_TxnTaxDetail qb_invoice)),
             i_grand_total = Some (inv_TotalAmt qb_invoice),
             message_to_customer = CustomerMemo qb_invoice,
             i_memo = inv_PrivateNote qb_invoice,
             i_payment_mode = None,
             i_supplier_id = l_supplier_id db_lpo,
             i_project_id = l_project_id db_lpo,
             i_created_by_id = l_created_by_id db_lpo\<rparr>
      in then_do (process_invoice_items e qb_invoice db_invoice (add_invoice db_invoice s))
           (\<lambda>_ s1.
              then_do (process_attachments e blob_service_client ''Invoice'' (inv_Id qb_invoice)
                         (i_id db_invoice) s1)
                (\<lambda>_ s2. then_do (commit e s2) (\<lambda>_ s3. (Inr Succeeded, s3)))))"

text \<open>
  The \<^verbatim>\<open>try\<close> block of the loop body (steps 2 to 7). A \<^verbatim>\<open>continue\<close> is the normal result
  \<open>Skipped\<close>; an exception is \<open>Inl\<close>, with the session as the exception left it.
\<close>

definition process_invoice_try ::
  "env \<Rightarrow> bool \<Rightarrow> Project \<Rightarrow> User \<Rightarrow> QBInvoice \<Rightarrow> string \<Rightarrow> session
     \<Rightarrow> (exn + outcome) \<times> session"
where
  "process_invoice_try e blob_service_client default_project default_user qb_invoice
       invoice_number' s =
     (case find (\<lambda>r. invoice_number r = invoice_number') (invoices (flushed s)) of
        Some existing_invoice \<Rightarrow> (Inr (Skipped AlreadyExists), s)
      | None \<Rightarrow>
          (case get_lpo_for_invoice e qb_invoice s of
             (None, s1) \<Rightarrow> (Inr (Skipped NoLinkedLPO), s1)
           | (Some qb_lpo, s1) \<Rightarrow>
               if \<not> truthy (po_DocNumber qb_lpo) then (Inr (Skipped LPOHasNoDocNumber), s1)
               else
                 then_do (process_lpo e blob_service_client default_project default_user qb_lpo
                            (fmt (po_DocNumber qb_lpo)) s1)
                   (\<lambda>db_lpo s2.
                      create_invoice e blob_service_client qb_invoice invoice_number' db_lpo s2)))"

text \<open>
  The loop body: the check of the document number, the \<^verbatim>\<open>try\<close> block, and the handler,
  which rolls the session back and counts the invoice as failed.
\<close>

definition process_invoice ::
  "env \<Rightarrow> bool \<Rightarrow> Project \<Rightarrow> User \<Rightarrow> QBInvoice \<Rightarrow> session \<Rightarrow> outcome \<times> session"
where
  "process_invoice e blob_service_client default_project default_user qb_invoice s =
     (if \<not> truthy (inv_DocNumber qb_invoice) then (Skipped NoDocNumber, s)
      else
        (case process_invoice_try e blob_service_client default_project default_user
                qb_invoice (fmt (inv_DocNumber qb_invoice)) s of
           (Inr out, s1) \<Rightarrow> (out, s1)
         | (Inl ex, s1) \<Rightarrow> (Failed ex, rollback s1)))"

fun process_all ::
  "env \<Rightarrow> bool \<Rightarrow> Project \<Rightarrow> User \<Rightarrow> QBInvoice list \<Rightarrow> session \<Rightarrow> outcome list \<times> session"
where
  "process_all e blob_service_client default_project default_user [] s = ([], s)"
| "process_all e blob_service_client default_project default_user (qb_invoice # rest) s =
     (case process_invoice e blob_service_client default_project default_user qb_invoice s of
        (out, s1) \<Rightarrow>
          (case process_all e blob_service_client default_project default_user rest s1 of
             (outs, s2) \<Rightarrow> (out # outs, s2)))"

datatype run_status = MissingCredentials | ConnectionFailed | CriticalError exn | Finished

text \<open>
  \<^verbatim>\<open>process_imports\<close> returns nothing: how a run ended shows in its log.
  \<^item> \<open>MissingCredentials\<close>: two CRITICAL records about the missing credentials, then
    \<^verbatim>\<open>return\<close>; no session was opened and no summary is logged.
  \<^item> \<open>ConnectionFailed\<close>: a CRITICAL record after \<^verbatim>\<open>get_qb_client\<close> returned nothing; the
    session is closed and no summary is logged.
  \<^item> \<open>CriticalError\<close>: the outer handler caught an exception, logged it as CRITICAL and
    rolled back; the summary follows.
  \<^item> \<open>Finished\<close>: the loop went through every invoice; the summary follows.

  A run leaves behind how it ended, the outcome recorded for each invoice (the three
  counters of the summary are the numbers of outcomes of each kind), the store after the
  session was closed, and the requests that went out.
\<close>

record run =
  status :: run_status
  outcomes :: "outcome list"
  store :: tables
  requests :: "call list"

definition open_session :: "tables \<Rightarrow> session" where
  "open_session db = \<lparr>committed = db, flushed = db, pending = empty_tables, calls = []\<rparr>"

definition finish :: "run_status \<Rightarrow> outcome list \<Rightarrow> session \<Rightarrow> run" where
  "finish st outs s =
     \<lparr>status = st, outcomes = outs, store = committed (close s), requests = calls s\<rparr>"

definition process_imports :: "config \<Rightarrow> env \<Rightarrow> nat option \<Rightarrow> tables \<Rightarrow> run" where
  "process_imports cfg e limit db =
     (if \<not> all_qb_keys_present cfg then
        \<lparr>status = MissingCredentials, outcomes = [], store = db, requests = []\<rparr>
      else
        (let s0 = open_session db;
             blob_service_client = get_azure_blob_service_client cfg e
         in case get_qb_client e s0 of
              (False, s1) \<Rightarrow> finish ConnectionFailed [] s1
            | (True, s1) \<Rightarrow>
                (case then_do (get_default_project e s1)
                        (\<lambda>default_project s2.
                           then_do (get_default_user e s2)
                             (\<lambda>default_user s3.
                                case get_invoices e limit s3 of
                                  (qb_invoices, s4) \<Rightarrow>
                                    (case process_all e blob_service_client default_project
                                            default_user qb_invoices s4 of
                                       (outs, s5) \<Rightarrow> (Inr outs, s5)))) of
                   (Inr outs, s5) \<Rightarrow> finish Finished outs s5
                 | (Inl ex, s5) \<Rightarrow> finish (CriticalError ex) [] (rollback s5))))"

definition success_count :: "outcome list \<Rightarrow> nat" where
  "success_count outs = length (filter (\<lambda>out. out = Succeeded) outs)"

definition skipped_count :: "outcome list \<Rightarrow> nat" where
  "skipped_count outs = length (filter (\<lambda>out. case out of Skipped _ \<Rightarrow> True | _ \<Rightarrow> False) outs)"

definition fail_count :: "outcome list \<Rightarrow> nat" where
  "fail_count outs = length (filter (\<lambda>out. case out of Failed _ \<Rightarrow> True | _ \<Rightarrow> False) outs)"

section \<open>Predicates used in the statements and proofs\<close>

text \<open>
  \<open>keeps s s'\<close>: going from \<open>s\<close> to \<open>s'\<close> committed nothing and neither added nor
  removed a purchase-order or invoice row of the session (flushed or pending), and no
  invoice row left the view of the queries.
\<close>

definition keeps :: "session \<Rightarrow> session \<Rightarrow> bool" where
  "keeps s s' \<longleftrightarrow>
     committed s' = committed s
     \<and> lpos (all_rows s') = lpos (all_rows s)
     \<and> invoices (all_rows s') = invoices (all_rows s)
     \<and> set (invoices (flushed s)) \<subseteq> set (invoices (flushed s'))"

definition keeps_items :: "session \<Rightarrow> session \<Rightarrow> bool" where
  "keeps_items s s' \<longleftrightarrow>
     lpo_items (all_rows s') = lpo_items (all_rows s)
     \<and> invoice_items (all_rows s') = invoice_items (all_rows s)"

text \<open>An invoice row is linked to a purchase-order row of the same tables.\<close>

definition linked :: "tables \<Rightarrow> Invoice \<Rightarrow> bool" where
  "linked T iv \<longleftrightarrow>
     (\<exists>l \<in> set (lpos T). i_lpo_id iv = Some (l_id l)
        \<and> i_supplier_id iv = l_supplier_id l
        \<and> i_project_id iv = l_project_id l
        \<and> i_created_by_id iv = l_created_by_id l)"

text \<open>
  \<open>grows s s'\<close>: every project and user row the queries saw in \<open>s\<close> they still see in \<open>s'\<close>.
\<close>

definition grows :: "session \<Rightarrow> session \<Rightarrow> bool" where
  "grows s s' \<longleftrightarrow>
     set (projects (flushed s)) \<subseteq> set (projects (flushed s'))
     \<and> set (users (flushed s)) \<subseteq> set (users (flushed s'))"

text \<open>The tables hold a project row and a user row of the default name and email.\<close>

definition has_defaults :: "tables \<Rightarrow> bool" where
  "has_defaults T \<longleftrightarrow>
     ''Default Imported Project'' \<in> p_name ` set (projects T)
     \<and> ''import_admin@yourcompany.com'' \<in> u_email ` set (users T)"

text \<open>
  What makes the loop body skip an invoice on tables \<open>T\<close>: no document number, an invoice
  row of that number, no linked purchase order that can be fetched, or a linked purchase
  order without a document number.
\<close>

definition skips_again :: "env \<Rightarrow> QBInvoice \<Rightarrow> tables \<Rightarrow> bool" where
  "skips_again e q T \<longleftrightarrow>
     \<not> truthy (inv_DocNumber q)
     \<or> fmt (inv_DocNumber q) \<in> invoice_number ` set (invoices T)
     \<or> (case fst (get_lpo_for_invoice e q (open_session T)) of
           None \<Rightarrow> True
         | Some qb_lpo \<Rightarrow> \<not> truthy (po_DocNumber qb_lpo))"

section \<open>Example data\<close>

definition demo_config :: config where
  "demo_config = \<lparr>QB_CLIENT_ID = Some ''client'', QB_CLIENT_SECRET = Some ''secret'',
     QB_ACCESS_TOKEN = Some ''access'', QB_REFRESH_TOKEN = Some ''refresh'',
     QB_REALM_ID = Some ''realm'', AZURE_CONNECTION_STRING = None\<rparr>"

definition demo_project :: Project where
  "demo_project = \<lparr>p_id = 1, p_name = ''Default Imported Project''\<rparr>"

definition demo_user :: User where
  "demo_user = \<lparr>u_id = 1, u_email = ''import_admin@yourcompany.com'',
     hashed_password = ''!!!SET-A-DUMMY-PASSWORD-HERE!!!''\<rparr>"

definition line_taxed :: Line where
  "line_taxed = \<lparr>DetailType = Some ''ItemBasedExpenseLineDetail'', Description = Some ''cement'',
     ItemBasedExpenseLineDetail = Some \<lparr>ItemRef = Some \<lparr>ref_value = Some ''i1''\<rparr>,
       TaxCodeRef = Some \<lparr>ref_value = Some ''TAX''\<rparr>, Qty = Some 2, UnitPrice = Some 50\<rparr>,
     SalesItemLineDetail = None\<rparr>"

definition line_untaxed :: Line where
  "line_untaxed = \<lparr>DetailType = Some ''ItemBasedExpenseLineDetail'', Description = Some ''labour'',
     ItemBasedExpenseLineDetail = Some \<lparr>ItemRef = Some \<lparr>ref_value = Some ''i2''\<rparr>,
       TaxCodeRef = Some \<lparr>ref_value = Some ''NON''\<rparr>, Qty = None, UnitPrice = Some 5\<rparr>,
     SalesItemLineDetail = None\<rparr>"

definition sales_line_taxed :: Line where
  "sales_line_taxed = \<lparr>DetailType = Some ''SalesItemLineDetail'', Description = Some ''cement'',
     ItemBasedExpenseLineDetail = None,
     SalesItemLineDetail = Some \<lparr>ItemRef = Some \<lparr>ref_value = Some ''i1''\<rparr>,
       TaxCodeRef = Some \<lparr>ref_value = Some ''TAX''\<rparr>, Qty = Some 2, UnitPrice = Some 50\<rparr>\<rparr>"

definition sales_line_untaxed :: Line where
  "sales_line_untaxed = \<lparr>DetailType = Some ''SalesItemLineDetail'', Description = Some ''labour'',
     ItemBasedExpenseLineDetail = None,
     SalesItemLineDetail = Some \<lparr>ItemRef = Some \<lparr>ref_value = Some ''i2''\<rparr>,
       TaxCodeRef = Some \<lparr>ref_value = Some ''NON''\<rparr>, Qty = None, UnitPrice = Some 5\<rparr>\<rparr>"

definition sales_line_broken :: Line where
  "sales_line_broken = \<lparr>DetailType = Some ''SalesItemLineDetail'', Description = None,
     ItemBasedExpenseLineDetail = None, SalesItemLineDetail = None\<rparr>"

definition demo_lpo :: LPO where
  "demo_lpo = \<lparr>l_id = 1, lpo_number = ''PO1'', lpo_date = Some ''2025-04-03'',
     l_status = Some ''Open'', l_subtotal = Some 100, l_tax_total = Some 5,
     l_grand_total = Some 105, message_to_supplier = None, l_memo = None,
     l_payment_mode = None, l_supplier_id = 1, l_project_id = 1, l_created_by_id = 1\<rparr>"

definition demo_invoice :: Invoice where
  "demo_invoice = \<lparr>i_id = 1, invoice_number = ''INV2'', invoice_date = Some ''2025-04-06'',
     invoice_due_date = Some ''2025-05-06'', i_lpo_id = Some 1, i_status = Some ''Pending'',
     i_subtotal = Some 100, i_tax_total = Some 5, i_grand_total = Some 105,
     message_to_customer = None, i_memo = None, i_payment_mode = None,
     i_supplier_id = 1, i_project_id = 1, i_created_by_id = 1\<rparr>"

text \<open>Two remote purchase orders carry the number PO1; the first has no vendor.\<close>

definition po_vendorless :: QBPurchaseOrder where
  "po_vendorless = \<lparr>po_Id = Some ''1'', po_DocNumber = Some ''PO1'', po_TxnDate = Some ''2025-04-02'',
     POStatus = Some ''Open'', po_TotalAmt = 105, po_TxnTaxDetail = Some \<lparr>TotalTax = 5\<rparr>,
     po_PrivateNote = None, po_Memo = None, VendorRef = None, po_Line = []\<rparr>"

definition po_acme :: QBPurchaseOrder where
  "po_acme = \<lparr>po_Id = Some ''2'', po_DocNumber = Some ''PO1'', po_TxnDate = Some ''2025-04-03'',
     POStatus = Some ''Open'', po_TotalAmt = 105, po_TxnTaxDetail = Some \<lparr>TotalTax = 5\<rparr>,
     po_PrivateNote = None, po_Memo = None, VendorRef = Some \<lparr>ref_value = Some ''v1''\<rparr>,
     po_Line = [line_taxed, line_untaxed]\<rparr>"

text \<open>A third purchase order, of a second vendor record with the display name of the first.\<close>

definition po_acme_again :: QBPurchaseOrder where
  "po_acme_again = \<lparr>po_Id = Some ''3'', po_DocNumber = Some ''PO2'', po_TxnDate = Some ''2025-04-09'',
     POStatus = Some ''Open'', po_TotalAmt = 40, po_TxnTaxDetail = None,
     po_PrivateNote = None, po_Memo = None, VendorRef = Some \<lparr>ref_value = Some ''v2''\<rparr>,
     po_Line = []\<rparr>"

definition vendor_acme :: QBSupplier where
  "vendor_acme = \<lparr>v_Id = Some ''v1'', DisplayName = Some ''Acme'',
     PrimaryEmailAddr = Some \<lparr>Address = Some ''sales@acme.example''\<rparr>, PrimaryPhone = None\<rparr>"

definition vendor_acme_again :: QBSupplier where
  "vendor_acme_again = \<lparr>v_Id = Some ''v2'', DisplayName = Some ''Acme'',
     PrimaryEmailAddr = None, PrimaryPhone = Some \<lparr>FreeFormNumber = Some ''555''\<rparr>\<rparr>"

definition item_cement :: QBItem where
  "item_cement = \<lparr>item_Id = Some ''i1'', item_Name = Some ''Cement'', item_Type = Some ''Inventory''\<rparr>"

definition item_labour :: QBItem where
  "item_labour = \<lparr>item_Id = Some ''i2'', item_Name = Some ''Labour'', item_Type = Some ''Service''\<rparr>"

definition inv_first :: QBInvoice where
  "inv_first = \<lparr>inv_Id = Some ''10'', inv_DocNumber = Some ''INV1'', inv_TxnDate = Some ''2025-04-05'',
     DueDate = Some ''2025-05-05'', Balance = 0, inv_TotalAmt = 105,
     inv_TxnTaxDetail = Some \<lparr>TotalTax = 5\<rparr>, CustomerMemo = None, inv_PrivateNote = None,
     inv_LinkedTxn = [\<lparr>TxnType = Some ''PurchaseOrder'', TxnId = Some ''1''\<rparr>],
     inv_Line = [sales_line_taxed]\<rparr>"

definition inv_second :: QBInvoice where
  "inv_second = \<lparr>inv_Id = Some ''11'', inv_DocNumber = Some ''INV2'', inv_TxnDate = Some ''2025-04-06'',
     DueDate = Some ''2025-05-06'', Balance = 20, inv_TotalAmt = 105,
     inv_TxnTaxDetail = Some \<lparr>TotalTax = 5\<rparr>, CustomerMemo = None, inv_PrivateNote = None,
     inv_LinkedTxn = [\<lparr>TxnType = Some ''PurchaseOrder'', TxnId = Some ''2''\<rparr>],
     inv_Line = [sales_line_taxed, sales_line_untaxed]\<rparr>"

definition inv_third :: QBInvoice where
  "inv_third = \<lparr>inv_Id = Some ''16'', inv_DocNumber = Some ''INV7'', inv_TxnDate = Some ''2025-04-10'',
     DueDate = Some ''2025-05-10'', Balance = 40, inv_TotalAmt = 40,
     inv_TxnTaxDetail = None, CustomerMemo = None, inv_PrivateNote = None,
     inv_LinkedTxn = [\<lparr>TxnType = Some ''PurchaseOrder'', TxnId = Some ''3''\<rparr>],
     inv_Line = []\<rparr>"

definition inv_unlinked :: QBInvoice where
  "inv_unlinked = inv_second\<lparr>inv_Id := Some ''12'', inv_DocNumber := Some ''INV3'',
     inv_LinkedTxn := [\<lparr>TxnType = Some ''Estimate'', TxnId = Some ''7''\<rparr>]\<rparr>"

definition inv_unreachable_order :: QBInvoice where
  "inv_unreachable_order = inv_second\<lparr>inv_Id := Some ''13'', inv_DocNumber := Some ''INV4'',
     inv_LinkedTxn := [\<lparr>TxnType = Some ''Estimate'', TxnId = Some ''7''\<rparr>,
                       \<lparr>TxnType = Some ''PurchaseOrder'', TxnId = Some ''9''\<rparr>,
                       \<lparr>TxnType = Some ''PurchaseOrder'', TxnId = Some ''2''\<rparr>]\<rparr>"

definition inv_lost_order :: QBInvoice where
  "inv_lost_order = inv_second\<lparr>inv_Id := Some ''15'', inv_DocNumber := Some ''INV6'',
     inv_LinkedTxn := [\<lparr>TxnType = Some ''PurchaseOrder'', TxnId = Some ''9''\<rparr>]\<rparr>"

definition inv_broken_line :: QBInvoice where
  "inv_broken_line = inv_second\<lparr>inv_Id := Some ''14'', inv_DocNumber := Some ''INV5'',
     inv_Line := [sales_line_taxed, sales_line_broken]\<rparr>"

definition demo_env :: env where
  "demo_env = \<lparr>connect = Inr (),
     remote_invoices = [inv_first, inv_second],
     invoice_query_error = None,
     po_get = (\<lambda>i. if i = Some ''1'' then Inr po_vendorless
                    else if i = Some ''2'' then Inr po_acme
                    else if i = Some ''3'' then Inr po_acme_again
                    else Inl ''503 Service Unavailable''),
     vendor_get = (\<lambda>i. if i = ''v1'' then Inr vendor_acme
                        else if i = ''v2'' then Inr vendor_acme_again else Inl ''not found''),
     item_get = (\<lambda>i. if i = ''i1'' then Inr item_cement
                      else if i = ''i2'' then Inr item_labour else Inl ''not found''),
     attachable_query = (\<lambda>t i. Inr []),
     http_get = (\<lambda>u. Inl (RequestException ''timeout'')),
     blob_client_ok = (\<lambda>c. False),
     blob_upload = (\<lambda>n c. Inl ''unavailable''),
     db_error = (\<lambda>a b. None)\<rparr>"

text \<open>The same remote service holding two invoices whose orders name vendors called alike.\<close>

definition twin_env :: env where
  "twin_env = demo_env\<lparr>remote_invoices := [inv_second, inv_third]\<rparr>"


text \<open>The same remote service holding an imported invoice and one without a purchase order.\<close>

definition mixed_env :: env where
  "mixed_env = demo_env\<lparr>remote_invoices := [inv_second, inv_unlinked]\<rparr>"

text \<open>A store that holds the default project and user, and nothing else.\<close>

definition seeded_store :: tables where
  "seeded_store = empty_tables\<lparr>projects := [demo_project], users := [demo_user]\<rparr>"

text \<open>
  A store that enforces the foreign keys of \<^verbatim>\<open>models.py\<close>: a flush is refused when a row
  to insert refers to a row that is neither visible nor inserted with it.
\<close>

definition foreign_key_error :: "tables \<Rightarrow> tables \<Rightarrow> string option" where
  "foreign_key_error visible new =
     (let T = tables_append visible new in
      if list_all (\<lambda>r. l_supplier_id r \<in> set (map s_id (suppliers T))
                        \<and> l_project_id r \<in> set (map p_id (projects T))
                        \<and> l_created_by_id r \<in> set (map u_id (users T))) (lpos new)
         \<and> list_all (\<lambda>r. li_lpo_id r \<in> set (map l_id (lpos T))
                        \<and> li_material_id r \<in> set (map m_id (materials T))) (lpo_items new)
         \<and> list_all (\<lambda>r. case la_lpo_id r of None \<Rightarrow> True
                           | Some k \<Rightarrow> k \<in> set (map l_id (lpos T))) (lpo_attachments new)
         \<and> list_all (\<lambda>r. (case i_lpo_id r of None \<Rightarrow> True
                            | Some k \<Rightarrow> k \<in> set (map l_id (lpos T)))
                        \<and> i_supplier_id r \<in> set (map s_id (suppliers T))
                        \<and> i_project_id r \<in> set (map p_id (projects T))
                        \<and> i_created_by_id r \<in> set (map u_id (users T))) (invoices new)
         \<and> list_all (\<lambda>r. ii_invoice_id r \<in> set (map i_id (invoices T))
                        \<and> ii_material_id r \<in> set (map m_id (materials T))) (invoice_items new)
         \<and> list_all (\<lambda>r. case ia_invoice_id r of None \<Rightarrow> True
                           | Some k \<Rightarrow> k \<in> set (map i_id (invoices T))) (invoice_attachments new)
      then None else Some ''ForeignKeyViolation'')"

definition strict_env :: env where
  "strict_env = demo_env\<lparr>db_error := foreign_key_error\<rparr>"




section \<open>Basic facts\<close>

lemmas add_defs = add_supplier_def add_material_def add_project_def add_user_def add_lpo_def
  add_lpo_item_def add_lpo_attachment_def add_invoice_def add_invoice_item_def
  add_invoice_attachment_def

lemma then_do_Inl [simp]: "then_do (Inl ex, s) f = (Inl ex, s)"
  by (simp add: then_do_def)

lemma then_do_Inr [simp]: "then_do (Inr x, s) f = f x s"
  by (simp add: then_do_def)

lemma then_do_cases:
  assumes "then_do r f = (x, s')"
  obtains (raised) ex where "r = (Inl ex, s')" and "x = Inl ex"
        | (returned) a s1 where "r = (Inr a, s1)" and "f a s1 = (x, s')"
  using assms by (cases r; cases "fst r") (auto simp: then_do_def)

lemma find_None_image: "find (\<lambda>r. f r = k) xs = None \<longleftrightarrow> k \<notin> f ` set xs"
  by (auto simp: find_None_iff)

lemma find_Some_image:
  "k \<in> f ` set xs \<Longrightarrow> \<exists>r. find (\<lambda>r. f r = k) xs = Some r \<and> r \<in> set xs \<and> f r = k"
  by (induction xs) auto

lemma tables_append_sel [simp]:
  "suppliers (tables_append a b) = suppliers a @ suppliers b"
  "materials (tables_append a b) = materials a @ materials b"
  "projects (tables_append a b) = projects a @ projects b"
  "users (tables_append a b) = users a @ users b"
  "lpos (tables_append a b) = lpos a @ lpos b"
  "lpo_items (tables_append a b) = lpo_items a @ lpo_items b"
  "lpo_attachments (tables_append a b) = lpo_attachments a @ lpo_attachments b"
  "invoices (tables_append a b) = invoices a @ invoices b"
  "invoice_items (tables_append a b) = invoice_items a @ invoice_items b"
  "invoice_attachments (tables_append a b) = invoice_attachments a @ invoice_attachments b"
  by (simp_all add: tables_append_def)

lemma empty_tables_sel [simp]:
  "suppliers empty_tables = []" "materials empty_tables = []" "projects empty_tables = []"
  "users empty_tables = []" "lpos empty_tables = []" "lpo_items empty_tables = []"
  "lpo_attachments empty_tables = []" "invoices empty_tables = []"
  "invoice_items empty_tables = []" "invoice_attachments empty_tables = []"
  by (simp_all add: empty_tables_def)

lemma tables_append_empty [simp]: "tables_append a empty_tables = a"
  by (simp add: tables_append_def empty_tables_def)

lemma flush_cases:
  assumes "flush e s = (r, s')"
  obtains (ok) "r = Inr ()" and "db_error e (flushed s) (pending s) = None"
      and "s' = s\<lparr>flushed := tables_append (flushed s) (pending s), pending := empty_tables\<rparr>"
    | (err) msg where "r = Inl (DatabaseError msg)" and "s' = s"
      and "db_error e (flushed s) (pending s) = Some msg"
  using assms by (auto simp: flush_def split: option.splits)

lemma commit_cases:
  assumes "commit e s = (r, s')"
  obtains (ok) "r = Inr ()" and "db_error e (flushed s) (pending s) = None"
      and "s' = s\<lparr>flushed := all_rows s, pending := empty_tables, committed := all_rows s\<rparr>"
    | (err) msg where "r = Inl (DatabaseError msg)" and "s' = s"
  using assms
  by (auto simp: commit_def all_rows_def elim!: then_do_cases flush_cases)

section \<open>Rounding to a double\<close>

text \<open>
  \<open>to_double\<close> rounds to nearest: the result is a 53-bit significand times the power of
  two of the binade of its argument, it is within half a unit in the last place of the
  argument, and a number of that form is left as it is. Ties go to the even significand
  by the definition of \<open>round_half_even\<close>.
\<close>

lemma pow2_power_int: "pow2 k = power_int 2 k"
  by (simp add: pow2_def power_int_def power_one_over)

lemma pow2_pos [simp]: "0 < pow2 k"
  by (simp add: pow2_power_int)

lemma pow2_add: "pow2 (a + b) = pow2 a * pow2 b"
  by (simp add: pow2_power_int power_int_add)

lemma pow2_numeral: "pow2 1 = 2" "pow2 52 = 2 ^ 52" "pow2 53 = 2 ^ 53"
  by (simp_all add: pow2_def)

lemma pow2_Suc: "pow2 (k + 1) = 2 * pow2 k"
  using pow2_add [of k 1] by (simp add: pow2_numeral)

lemma bit_length_nonneg: "0 \<le> bit_length n"
  by (induction n rule: bit_length.induct) (simp add: bit_length.simps)

lemma bit_length_bounds:
  "0 < n \<Longrightarrow> pow2 (bit_length n - 1) \<le> of_int n \<and> of_int n < pow2 (bit_length n)"
proof (induction n rule: bit_length.induct)
  case (1 n)
  show ?case
  proof (cases "n div 2 = 0")
    case True
    with "1.prems" have "n = 1" by presburger
    then show ?thesis
      by (simp add: bit_length.simps [of 1] bit_length.simps [of 0] pow2_def)
  next
    case False
    with "1.prems" have pos: "0 < n div 2" by presburger
    from "1.prems" have nle: "\<not> n \<le> 0" by simp
    from "1.IH" [OF nle pos]
    have lo: "pow2 (bit_length (n div 2) - 1) \<le> of_int (n div 2)"
      and hi: "of_int (n div 2) < pow2 (bit_length (n div 2))"
      by simp_all
    have b: "bit_length n = 1 + bit_length (n div 2)"
      using nle by (simp add: bit_length.simps [of n])
    have "2 * (n div 2) \<le> n" "n \<le> 2 * (n div 2) + 1" by presburger+
    then have "(of_int (2 * (n div 2)) :: rat) \<le> of_int n"
      "(of_int n :: rat) \<le> of_int (2 * (n div 2) + 1)"
      by (simp_all only: of_int_le_iff)
    then have d: "2 * (of_int (n div 2) :: rat) \<le> of_int n"
      "(of_int n :: rat) \<le> 2 * of_int (n div 2) + 1"
      by simp_all
    have "pow2 (bit_length n - 1) = 2 * pow2 (bit_length (n div 2) - 1)"
      using b pow2_Suc [of "bit_length (n div 2) - 1"] by simp
    with lo d have L: "pow2 (bit_length n - 1) \<le> of_int n" by linarith
    have "bit_length (n div 2) \<ge> 0" by (rule bit_length_nonneg)
    then obtain m :: nat where m: "bit_length (n div 2) = int m"
      using nonneg_int_cases by blast
    from hi m have "(of_int (n div 2) :: rat) < of_int (2 ^ m)" by (simp add: pow2_def)
    then have "n div 2 < 2 ^ m"
      by (simp only: of_int_less_iff)
    then have "n div 2 + 1 \<le> 2 ^ m" by simp
    then have "(of_int (n div 2 + 1) :: rat) \<le> of_int (2 ^ m)"
      by (simp only: of_int_le_iff)
    then have "(of_int (n div 2) :: rat) + 1 \<le> pow2 (bit_length (n div 2))"
      using m by (simp add: pow2_def)
    moreover have "pow2 (bit_length n) = 2 * pow2 (bit_length (n div 2))"
      using b pow2_Suc [of "bit_length (n div 2)"] by (simp add: add.commute)
    ultimately have "of_int n < pow2 (bit_length n)" using d by linarith
    with L show ?thesis ..
  qed
qed

lemma exponent_bounds:
  assumes "0 < x"
  shows "pow2 (exponent x) \<le> x \<and> x < pow2 (exponent x + 1)"
proof -
  obtain p q where pq: "quotient_of x = (p, q)" by (cases "quotient_of x")
  then have q: "0 < q" and x: "x = of_int p / of_int q"
    by (auto simp: quotient_of_denom_pos quotient_of_div)
  with assms have p: "0 < p"
    by (simp add: zero_less_divide_iff)
  define k where "k = bit_length p - bit_length q"
  note P = bit_length_bounds [OF p] and Q = bit_length_bounds [OF q]
  have qpos: "(0::rat) < of_int q" using q by simp
  have up: "x < pow2 (k + 1)"
  proof -
    have "of_int p < pow2 (bit_length p)" using P by simp
    also have "pow2 (bit_length p) = pow2 (k + 1) * pow2 (bit_length q - 1)"
      by (simp add: k_def pow2_add [symmetric])
    also have "\<dots> \<le> pow2 (k + 1) * of_int q"
      using Q by (simp add: mult_left_mono less_imp_le)
    finally have "of_int p < pow2 (k + 1) * of_int q" .
    then show ?thesis using qpos by (simp add: x pos_divide_less_eq)
  qed
  have lo: "pow2 (k - 1) \<le> x"
  proof -
    have "pow2 (k - 1) * of_int q \<le> pow2 (k - 1) * pow2 (bit_length q)"
      using Q by (simp add: mult_left_mono less_imp_le)
    also have "\<dots> = pow2 (bit_length p - 1)"
      by (simp add: k_def pow2_add [symmetric])
    also have "\<dots> \<le> of_int p" using P by simp
    finally show ?thesis using qpos by (simp add: x pos_le_divide_eq)
  qed
  have e: "exponent x = (if pow2 k \<le> x then k else k - 1)"
    by (simp add: exponent_def pq k_def Let_def)
  show ?thesis
  proof (cases "pow2 k \<le> x")
    case True
    with e up show ?thesis by simp
  next
    case False
    with e lo show ?thesis by simp
  qed
qed

lemma round_half_even_near: "\<bar>of_int (round_half_even x) - x\<bar> \<le> 1 / 2"
proof -
  have "of_int \<lfloor>x\<rfloor> \<le> x" "x < of_int \<lfloor>x\<rfloor> + 1" by linarith+
  then show ?thesis
    by (auto simp: round_half_even_def Let_def abs_le_iff)
qed

lemma round_half_even_int: "round_half_even (of_int n) = n"
  by (simp add: round_half_even_def)

lemma round_half_even_between:
  assumes a: "of_int a \<le> x" and b: "x \<le> of_int b"
  shows "a \<le> round_half_even x \<and> round_half_even x \<le> b"
proof -
  have f: "a \<le> \<lfloor>x\<rfloor>" using a by (simp add: le_floor_iff)
  have fx: "of_int \<lfloor>x\<rfloor> \<le> x" by linarith
  show ?thesis
  proof (cases "x = of_int \<lfloor>x\<rfloor>")
    case True
    then have "round_half_even x = round_half_even (of_int \<lfloor>x\<rfloor>)" by simp
    then have "round_half_even x = \<lfloor>x\<rfloor>"
      by (simp only: round_half_even_int)
    moreover have "\<lfloor>x\<rfloor> \<le> b" using b by (simp add: floor_le_iff)
    ultimately show ?thesis using f by simp
  next
    case False
    with fx have "of_int \<lfloor>x\<rfloor> < x" by (auto simp: less_le)
    with b have "of_int \<lfloor>x\<rfloor> < (of_int b :: rat)" by linarith
    then have "\<lfloor>x\<rfloor> < b" by (simp only: of_int_less_iff)
    then have "\<lfloor>x\<rfloor> + 1 \<le> b" by simp
    with f show ?thesis
      by (auto simp: round_half_even_def Let_def)
  qed
qed

lemma to_double_near:
  assumes "x \<noteq> 0"
  shows "\<bar>to_double x - x\<bar> \<le> pow2 (exponent \<bar>x\<bar> - 53)"
proof -
  define u where "u = pow2 (exponent \<bar>x\<bar> - 52)"
  define m where "m = round_half_even (\<bar>x\<bar> / u)"
  have u: "0 < u" by (simp add: u_def)
  have t: "to_double x = sgn x * of_int m * u"
    using assms by (simp add: to_double_def Let_def u_def m_def)
  have "sgn x * (of_int m * u - \<bar>x\<bar>) = sgn x * of_int m * u - sgn x * \<bar>x\<bar>"
    by (simp add: right_diff_distrib mult.assoc)
  also have "\<dots> = to_double x - x"
    by (simp add: t mult_sgn_abs)
  finally have "\<bar>to_double x - x\<bar> = \<bar>sgn x * (of_int m * u - \<bar>x\<bar>)\<bar>"
    by simp
  also have "\<dots> = \<bar>of_int m * u - \<bar>x\<bar>\<bar>"
    using assms by (simp add: abs_mult)
  also have "\<dots> = \<bar>of_int m - \<bar>x\<bar> / u\<bar> * u"
  proof -
    have "of_int m * u - \<bar>x\<bar> = (of_int m - \<bar>x\<bar> / u) * u"
      using u by (simp add: field_simps)
    then show ?thesis using u by (simp add: abs_mult)
  qed
  also have "\<dots> \<le> 1 / 2 * u"
    using round_half_even_near [of "\<bar>x\<bar> / u"] u
    by (simp add: m_def mult_right_mono)
  also have "1 / 2 * u = pow2 (exponent \<bar>x\<bar> - 53)"
    using pow2_Suc [of "exponent \<bar>x\<bar> - 53"] by (simp add: u_def)
  finally show ?thesis .
qed

lemma to_double_significand:
  assumes "x \<noteq> 0"
  shows "\<exists>m. to_double x = sgn x * of_int m * pow2 (exponent \<bar>x\<bar> - 52)
            \<and> 2 ^ 52 \<le> m \<and> m \<le> 2 ^ 53"
proof -
  define u where "u = pow2 (exponent \<bar>x\<bar> - 52)"
  define m where "m = round_half_even (\<bar>x\<bar> / u)"
  have u: "0 < u" by (simp add: u_def)
  from assms have a: "0 < \<bar>x\<bar>" by simp
  note E = exponent_bounds [OF a]
  have "pow2 (exponent \<bar>x\<bar>) = pow2 52 * u"
    using pow2_add [of 52 "exponent \<bar>x\<bar> - 52"] by (simp add: u_def)
  then have p52: "pow2 (exponent \<bar>x\<bar>) = 2 ^ 52 * u"
    by (simp only: pow2_numeral)
  have "pow2 (exponent \<bar>x\<bar> + 1) = pow2 53 * u"
    using pow2_add [of 53 "exponent \<bar>x\<bar> - 52"] by (simp add: u_def add.commute)
  then have p53: "pow2 (exponent \<bar>x\<bar> + 1) = 2 ^ 53 * u"
    by (simp only: pow2_numeral)
  from E p52 p53 have "2 ^ 52 * u \<le> \<bar>x\<bar>" "\<bar>x\<bar> \<le> 2 ^ 53 * u"
    by simp_all
  with u have "2 ^ 52 \<le> \<bar>x\<bar> / u" "\<bar>x\<bar> / u \<le> 2 ^ 53"
    by (simp_all only: pos_le_divide_eq pos_divide_le_eq)
  then have "of_int (2 ^ 52) \<le> \<bar>x\<bar> / u" "\<bar>x\<bar> / u \<le> of_int (2 ^ 53)"
    by simp_all
  from round_half_even_between [OF this] have "2 ^ 52 \<le> m \<and> m \<le> 2 ^ 53"
    by (simp only: m_def)
  moreover have "to_double x = sgn x * of_int m * u"
    using assms by (simp add: to_double_def Let_def u_def m_def)
  ultimately show ?thesis unfolding u_def by blast
qed

lemma to_double_fixed:
  assumes "x = of_int m * pow2 (exponent \<bar>x\<bar> - 52)"
  shows "to_double x = x"
proof (cases "x = 0")
  case True
  then show ?thesis by (simp add: to_double_def)
next
  case False
  define u where "u = pow2 (exponent \<bar>x\<bar> - 52)"
  have u: "0 < u" by (simp add: u_def)
  from assms have x: "x = of_int m * u" by (simp add: u_def)
  have "\<bar>x\<bar> = \<bar>of_int m\<bar> * u"
    using u by (subst x) (simp add: abs_mult)
  then have "\<bar>x\<bar> / u = of_int \<bar>m\<bar>"
    using u by simp
  then have "round_half_even (\<bar>x\<bar> / u) = round_half_even (of_int \<bar>m\<bar>)"
    by (simp only:)
  then have r: "round_half_even (\<bar>x\<bar> / u) = \<bar>m\<bar>"
    by (simp only: round_half_even_int)
  have sg: "sgn x = sgn (of_int m :: rat)"
    using u by (subst x) (simp add: sgn_mult)
  have "to_double x = sgn x * of_int \<bar>m\<bar> * u"
    using False r by (simp add: to_double_def Let_def u_def)
  also have "\<dots> = (sgn (of_int m :: rat) * \<bar>of_int m\<bar>) * u"
    by (simp add: sg)
  also have "\<dots> = of_int m * u"
    by (simp only: mult_sgn_abs)
  finally show ?thesis using x by simp
qed

section \<open>What each step leaves untouched\<close>

lemma keeps_refl [simp]: "keeps s s"
  by (simp add: keeps_def)

lemma keeps_trans: "keeps s s1 \<Longrightarrow> keeps s1 s2 \<Longrightarrow> keeps s s2"
  by (auto simp: keeps_def)

lemma keeps_items_refl [simp]: "keeps_items s s"
  by (simp add: keeps_items_def)

lemma keeps_items_trans: "keeps_items s s1 \<Longrightarrow> keeps_items s1 s2 \<Longrightarrow> keeps_items s s2"
  by (simp add: keeps_items_def)

lemma keeps_called [simp]: "keeps s (called c s)" "keeps_items s (called c s)"
  by (simp_all add: keeps_def keeps_items_def called_def all_rows_def)

lemma keeps_flush: "flush e s = (r, s') \<Longrightarrow> keeps s s'"
  by (erule flush_cases) (auto simp: keeps_def all_rows_def)

lemma keeps_items_flush: "flush e s = (r, s') \<Longrightarrow> keeps_items s s'"
  by (erule flush_cases) (auto simp: keeps_items_def all_rows_def)

lemma keeps_add [simp]:
  "keeps s (add_supplier sr s)" "keeps s (add_material mr s)" "keeps s (add_project pr s)"
  "keeps s (add_user ur s)" "keeps s (add_lpo_item lir s)" "keeps s (add_lpo_attachment lar s)"
  "keeps s (add_invoice_item iir s)" "keeps s (add_invoice_attachment iar s)"
  by (simp_all add: keeps_def all_rows_def add_defs)

lemma keeps_items_add [simp]: "keeps_items s (add_material mr s)"
  by (simp add: keeps_items_def all_rows_def add_material_def)

lemma keeps_get_or_create_supplier:
  "get_or_create_supplier e v s = (r, s') \<Longrightarrow> keeps s s'"
  by (auto simp: get_or_create_supplier_def Let_def split: if_splits option.splits
        elim!: then_do_cases intro: keeps_trans [OF keeps_add(1) keeps_flush])

lemma keeps_get_or_create_material:
  "get_or_create_material e i s = (r, s') \<Longrightarrow> keeps s s'"
  by (auto simp: get_or_create_material_def Let_def split: if_splits option.splits
        elim!: then_do_cases intro: keeps_trans [OF keeps_add(2) keeps_flush])

lemma keeps_items_get_or_create_material:
  "get_or_create_material e i s = (r, s') \<Longrightarrow> keeps_items s s'"
  by (auto simp: get_or_create_material_def Let_def split: if_splits option.splits
        elim!: then_do_cases intro: keeps_items_trans [OF keeps_items_add keeps_items_flush])

lemma keeps_get_material: "get_material e i s = (r, s') \<Longrightarrow> keeps s s' \<and> keeps_items s s'"
  by (auto simp: get_material_def split: sum.splits)

lemma keeps_process_lpo_line:
  "process_lpo_line e line db_lpo s = (r, s') \<Longrightarrow> keeps s s'"
  by (auto simp: process_lpo_line_def split: if_splits option.splits prod.splits
        elim!: then_do_cases dest!: keeps_get_material keeps_get_or_create_material
        intro: keeps_trans)

lemma keeps_process_lpo_lines:
  "process_lpo_lines e lines db_lpo s = (r, s') \<Longrightarrow> keeps s s'"
proof (induction lines arbitrary: s)
  case Nil
  then show ?case by simp
next
  case (Cons line lines)
  then show ?case
    by (auto split: prod.splits sum.splits dest: keeps_process_lpo_line intro: keeps_trans)
qed

lemma keeps_process_lpo_items:
  "process_lpo_items e qb_lpo db_lpo s = (r, s') \<Longrightarrow> keeps s s'"
  by (auto simp: process_lpo_items_def split: if_splits dest: keeps_process_lpo_lines)

lemma keeps_process_invoice_line:
  "process_invoice_line e line db_invoice s = (r, s') \<Longrightarrow> keeps s s'"
  by (auto simp: process_invoice_line_def split: if_splits option.splits prod.splits
        elim!: then_do_cases dest!: keeps_get_material keeps_get_or_create_material
        intro: keeps_trans)

lemma keeps_process_invoice_lines:
  "process_invoice_lines e lines db_invoice s = (r, s') \<Longrightarrow> keeps s s'"
proof (induction lines arbitrary: s)
  case Nil
  then show ?case by simp
next
  case (Cons line lines)
  then show ?case
    by (auto split: prod.splits sum.splits dest: keeps_process_invoice_line intro: keeps_trans)
qed

lemma keeps_process_invoice_items:
  "process_invoice_items e qb_invoice db_invoice s = (r, s') \<Longrightarrow> keeps s s'"
  by (auto simp: process_invoice_items_def split: if_splits dest: keeps_process_invoice_lines)

lemma keeps_download_attachment: "download_attachment e att s = (r, s') \<Longrightarrow> keeps s s'"
  by (auto simp: download_attachment_def split: option.splits if_splits sum.splits
        http_error.splits)

lemma keeps_upload: "upload_attachment_to_azure e b n c s = (r, s') \<Longrightarrow> keeps s s'"
  by (auto simp: upload_attachment_to_azure_def split: if_splits sum.splits)

lemma keeps_process_attachment:
  "process_attachment e b t ob att s = (r, s') \<Longrightarrow> keeps s s'"
  by (auto simp: process_attachment_def split: if_splits prod.splits
        elim!: then_do_cases dest!: keeps_download_attachment keeps_upload)
     (auto simp: keeps_def all_rows_def add_defs)

lemma keeps_process_attachment_list:
  "process_attachment_list e b t ob atts s = (r, s') \<Longrightarrow> keeps s s'"
proof (induction atts arbitrary: s)
  case Nil
  then show ?case by simp
next
  case (Cons att atts)
  then show ?case
    by (auto split: prod.splits sum.splits dest: keeps_process_attachment intro: keeps_trans)
qed

lemma keeps_get_attachments: "get_attachments e t i s = (r, s') \<Longrightarrow> keeps s s'"
  by (auto simp: get_attachments_def split: sum.splits)

lemma keeps_process_attachments:
  "process_attachments e b t i ob s = (r, s') \<Longrightarrow> keeps s s'"
  by (auto simp: process_attachments_def split: prod.splits
        dest!: keeps_get_attachments keeps_process_attachment_list intro: keeps_trans)

lemma keeps_get_supplier: "get_supplier e i s = (r, s') \<Longrightarrow> keeps s s'"
  by (auto simp: get_supplier_def split: sum.splits)

lemma keeps_get_lpo_loop: "get_lpo_loop e txns s = (r, s') \<Longrightarrow> keeps s s'"
  by (induction txns) (auto split: if_splits sum.splits)

lemma keeps_get_lpo_for_invoice: "get_lpo_for_invoice e q s = (r, s') \<Longrightarrow> keeps s s'"
  by (auto simp: get_lpo_for_invoice_def split: if_splits dest: keeps_get_lpo_loop)

lemma keeps_get_default_project: "get_default_project e s = (r, s') \<Longrightarrow> keeps s s'"
  by (auto simp: get_default_project_def Let_def split: option.splits
        elim!: then_do_cases intro: keeps_trans [OF keeps_add(3) keeps_flush])

lemma keeps_get_default_user: "get_default_user e s = (r, s') \<Longrightarrow> keeps s s'"
  by (auto simp: get_default_user_def Let_def split: option.splits
        elim!: then_do_cases intro: keeps_trans [OF keeps_add(4) keeps_flush])

lemma keeps_get_qb_client: "get_qb_client e s = (r, s') \<Longrightarrow> keeps s s'"
  by (auto simp: get_qb_client_def split: sum.splits)

lemma keeps_fetch_pages: "fetch_pages e p acc s = (r, s') \<Longrightarrow> keeps s s'"
proof (induction e p acc s rule: fetch_pages.induct)
  case (1 e start_pos all_invoices s)
  show ?case
  proof (cases "query_page e start_pos 100")
    case (Inl err)
    with "1.prems" show ?thesis by (auto simp: fetch_pages.simps [of e start_pos])
  next
    case (Inr batch)
    show ?thesis
    proof (cases "batch = []")
      case True
      with Inr "1.prems" show ?thesis by (auto simp: fetch_pages.simps [of e start_pos])
    next
      case False
      with Inr "1.prems" have "fetch_pages e (start_pos + 100) (all_invoices @ batch)
          (called (Invoice_query start_pos 100) s) = (r, s')"
        by (simp add: fetch_pages.simps [of e start_pos])
      from "1.IH" [OF Inr False this] have "keeps (called (Invoice_query start_pos 100) s) s'" .
      then show ?thesis by (rule keeps_trans [OF keeps_called(1)])
    qed
  qed
qed

lemma keeps_get_invoices: "get_invoices e limit s = (r, s') \<Longrightarrow> keeps s s'"
  by (auto simp: get_invoices_def split: option.splits nat.splits sum.splits prod.splits
        dest: keeps_fetch_pages)

section \<open>What the orchestrator's steps return\<close>

lemma process_lpo_result:
  assumes "process_lpo e b dp du qb_lpo n s = (r, s')"
  shows "committed s' = committed s
       \<and> invoices (all_rows s') = invoices (all_rows s)
       \<and> set (invoices (flushed s)) \<subseteq> set (invoices (flushed s'))
       \<and> (lpos (all_rows s') = lpos (all_rows s)
          \<or> (\<exists>l. lpos (all_rows s') = lpos (all_rows s) @ [l]
                \<and> l_grand_total l = Some (po_TotalAmt qb_lpo)
                \<and> l_tax_total l = Some (tax_of (po_TxnTaxDetail qb_lpo))
                \<and> l_subtotal l
                    = Some (float_sub (po_TotalAmt qb_lpo) (tax_of (po_TxnTaxDetail qb_lpo)))))
       \<and> (\<forall>db_lpo. r = Inr db_lpo \<longrightarrow> db_lpo \<in> set (lpos (flushed s')))"
proof (cases "find (\<lambda>r. lpo_number r = n) (lpos (flushed s))")
  case (Some db_lpo)
  then have "db_lpo \<in> set (lpos (flushed s))"
    by (auto simp: find_Some_iff)
  with Some assms show ?thesis
    by (auto simp: process_lpo_def)
next
  case None
  show ?thesis
  proof (cases "case VendorRef qb_lpo of None \<Rightarrow> True | Some r \<Rightarrow> \<not> truthy (ref_value r)")
    case True
    with None assms show ?thesis by (auto simp: process_lpo_def)
  next
    case False
    define vendor_id
      where "vendor_id = (case VendorRef qb_lpo of None \<Rightarrow> [] | Some r \<Rightarrow> fmt (ref_value r))"
    obtain v s1 where gs: "get_supplier e vendor_id s = (v, s1)"
      by (cases "get_supplier e vendor_id s")
    have k1: "keeps s s1" using gs by (rule keeps_get_supplier)
    show ?thesis
    proof (cases v)
      case vNone: None
      with None False gs assms k1 show ?thesis
        by (auto simp: process_lpo_def vendor_id_def keeps_def)
    next
      case (Some qb_supplier)
      obtain rs s2 where gc: "get_or_create_supplier e qb_supplier s1 = (rs, s2)"
        by (cases "get_or_create_supplier e qb_supplier s1")
      have k2: "keeps s1 s2" using gc by (rule keeps_get_or_create_supplier)
      show ?thesis
      proof (cases rs)
        case (Inl ex)
        with None False gs Some gc assms k1 k2 show ?thesis
          by (auto simp: process_lpo_def vendor_id_def keeps_def)
      next
        case (Inr db_supplier)
        define db_lpo where "db_lpo =
          \<lparr>l_id = next_id (map l_id (lpos (all_rows s2))),
           lpo_number = n, lpo_date = po_TxnDate qb_lpo, l_status = POStatus qb_lpo,
           l_subtotal = Some (float_sub (po_TotalAmt qb_lpo)
                                (tax_of (po_TxnTaxDetail qb_lpo))),
           l_tax_total = Some (tax_of (po_TxnTaxDetail qb_lpo)),
           l_grand_total = Some (po_TotalAmt qb_lpo),
           message_to_supplier = po_PrivateNote qb_lpo, l_memo = po_Memo qb_lpo,
           l_payment_mode = None, l_supplier_id = s_id db_supplier,
           l_project_id = p_id dp, l_created_by_id = u_id du\<rparr>"
        have rest: "then_do (process_lpo_items e qb_lpo db_lpo (add_lpo db_lpo s2))
                 (\<lambda>_ s3. then_do (process_attachments e b ''PurchaseOrder'' (po_Id qb_lpo)
                                     (l_id db_lpo) s3)
                    (\<lambda>_ s4. then_do (flush e s4) (\<lambda>_ s5. (Inr db_lpo, s5)))) = (r, s')"
          using None False gs Some gc Inr assms
          by (simp add: process_lpo_def vendor_id_def db_lpo_def Let_def)
        have base: "committed (add_lpo db_lpo s2) = committed s"
          "invoices (all_rows (add_lpo db_lpo s2)) = invoices (all_rows s)"
          "set (invoices (flushed s)) \<subseteq> set (invoices (flushed (add_lpo db_lpo s2)))"
          "lpos (all_rows (add_lpo db_lpo s2)) = lpos (all_rows s) @ [db_lpo]"
          using k1 k2 by (auto simp: keeps_def add_lpo_def all_rows_def)
        have fields: "l_grand_total db_lpo = Some (po_TotalAmt qb_lpo)"
          "l_tax_total db_lpo = Some (tax_of (po_TxnTaxDetail qb_lpo))"
          "l_subtotal db_lpo
             = Some (float_sub (po_TotalAmt qb_lpo) (tax_of (po_TxnTaxDetail qb_lpo)))"
          by (simp_all add: db_lpo_def)
        obtain r3 s3 where p3: "process_lpo_items e qb_lpo db_lpo (add_lpo db_lpo s2) = (r3, s3)"
          by (cases "process_lpo_items e qb_lpo db_lpo (add_lpo db_lpo s2)")
        have k3: "keeps (add_lpo db_lpo s2) s3" using p3 by (rule keeps_process_lpo_items)
        show ?thesis
        proof (cases r3)
          case (Inl ex)
          with rest p3 k3 base fields show ?thesis
            by (auto simp: keeps_def)
        next
          case r3ok: (Inr u3)
          obtain r4 s4 where p4: "process_attachments e b ''PurchaseOrder'' (po_Id qb_lpo)
                                     (l_id db_lpo) s3 = (r4, s4)"
            by (cases "process_attachments e b ''PurchaseOrder'' (po_Id qb_lpo) (l_id db_lpo) s3")
          have k4: "keeps s3 s4" using p4 by (rule keeps_process_attachments)
          show ?thesis
          proof (cases r4)
            case (Inl ex)
            with rest p3 r3ok p4 k3 k4 base fields show ?thesis
              by (auto simp: keeps_def)
          next
            case r4ok: (Inr u4)
            obtain r5 s5 where p5: "flush e s4 = (r5, s5)"
              by (cases "flush e s4")
            have k5: "keeps s4 s5" using p5 by (rule keeps_flush)
            have all5: "lpos (all_rows s5) = lpos (all_rows s) @ [db_lpo]"
              using k3 k4 k5 base by (simp add: keeps_def)
            show ?thesis
            proof (cases r5)
              case (Inl ex)
              with rest p3 r3ok p4 r4ok p5 k3 k4 k5 base fields show ?thesis
                by (auto simp: keeps_def)
            next
              case (Inr u5)
              with p5 have "pending s5 = empty_tables"
                by (auto elim: flush_cases)
              with all5 have "db_lpo \<in> set (lpos (flushed s5))"
                by (simp add: all_rows_def)
              with rest p3 r3ok p4 r4ok p5 Inr k3 k4 k5 base fields show ?thesis
                by (auto simp: keeps_def)
            qed
          qed
        qed
      qed
    qed
  qed
qed

lemma create_invoice_result:
  assumes "create_invoice e b q n db_lpo s = (r, s')"
  shows "(\<exists>iv. invoices (all_rows s') = invoices (all_rows s) @ [iv]
            \<and> invoice_number iv = n
            \<and> i_lpo_id iv = Some (l_id db_lpo)
            \<and> i_supplier_id iv = l_supplier_id db_lpo
            \<and> i_project_id iv = l_project_id db_lpo
            \<and> i_created_by_id iv = l_created_by_id db_lpo
            \<and> i_grand_total iv = Some (inv_TotalAmt q)
            \<and> i_tax_total iv = Some (tax_of (inv_TxnTaxDetail q))
            \<and> i_subtotal iv = Some (float_sub (inv_TotalAmt q) (tax_of (inv_TxnTaxDetail q))))
       \<and> lpos (all_rows s') = lpos (all_rows s)
       \<and> ((\<exists>ex. r = Inl ex \<and> committed s' = committed s)
          \<or> (r = Inr Succeeded \<and> committed s' = all_rows s' \<and> flushed s' = all_rows s'
              \<and> pending s' = empty_tables))"
proof -
  define db_invoice where "db_invoice =
    \<lparr>i_id = next_id (map i_id (invoices (all_rows s))),
     invoice_number = n, invoice_date = inv_TxnDate q, invoice_due_date = DueDate q,
     i_lpo_id = Some (l_id db_lpo),
     i_status = Some (if Balance q = 0 then ''Paid'' else ''Pending''),
     i_subtotal = Some (float_sub (inv_TotalAmt q) (tax_of (inv_TxnTaxDetail q))),
     i_tax_total = Some (tax_of (inv_TxnTaxDetail q)),
     i_grand_total = Some (inv_TotalAmt q),
     message_to_customer = CustomerMemo q, i_memo = inv_PrivateNote q,
     i_payment_mode = None, i_supplier_id = l_supplier_id db_lpo,
     i_project_id = l_project_id db_lpo, i_created_by_id = l_created_by_id db_lpo\<rparr>"
  have rest: "then_do (process_invoice_items e q db_invoice (add_invoice db_invoice s))
           (\<lambda>_ s1. then_do (process_attachments e b ''Invoice'' (inv_Id q) (i_id db_invoice) s1)
              (\<lambda>_ s2. then_do (commit e s2) (\<lambda>_ s3. (Inr Succeeded, s3)))) = (r, s')"
    using assms by (simp add: create_invoice_def db_invoice_def Let_def)
  have base: "committed (add_invoice db_invoice s) = committed s"
    "invoices (all_rows (add_invoice db_invoice s)) = invoices (all_rows s) @ [db_invoice]"
    "lpos (all_rows (add_invoice db_invoice s)) = lpos (all_rows s)"
    by (simp_all add: add_invoice_def all_rows_def)
  have fields: "invoice_number db_invoice = n"
    "i_lpo_id db_invoice = Some (l_id db_lpo)"
    "i_supplier_id db_invoice = l_supplier_id db_lpo"
    "i_project_id db_invoice = l_project_id db_lpo"
    "i_created_by_id db_invoice = l_created_by_id db_lpo"
    "i_grand_total db_invoice = Some (inv_TotalAmt q)"
    "i_tax_total db_invoice = Some (tax_of (inv_TxnTaxDetail q))"
    "i_subtotal db_invoice = Some (float_sub (inv_TotalAmt q) (tax_of (inv_TxnTaxDetail q)))"
    by (simp_all add: db_invoice_def)
  obtain r1 s1 where p1: "process_invoice_items e q db_invoice (add_invoice db_invoice s) = (r1, s1)"
    by (cases "process_invoice_items e q db_invoice (add_invoice db_invoice s)")
  have k1: "keeps (add_invoice db_invoice s) s1" using p1 by (rule keeps_process_invoice_items)
  show ?thesis
  proof (cases r1)
    case (Inl ex)
    with rest p1 k1 base fields show ?thesis by (auto simp: keeps_def)
  next
    case r1ok: (Inr u1)
    obtain r2 s2 where p2: "process_attachments e b ''Invoice'' (inv_Id q) (i_id db_invoice) s1
                              = (r2, s2)"
      by (cases "process_attachments e b ''Invoice'' (inv_Id q) (i_id db_invoice) s1")
    have k2: "keeps s1 s2" using p2 by (rule keeps_process_attachments)
    have st2: "committed s2 = committed s"
      "invoices (all_rows s2) = invoices (all_rows s) @ [db_invoice]"
      "lpos (all_rows s2) = lpos (all_rows s)"
      using k1 k2 base by (simp_all add: keeps_def)
    show ?thesis
    proof (cases r2)
      case (Inl ex)
      with rest p1 r1ok p2 st2 fields show ?thesis by auto
    next
      case r2ok: (Inr u2)
      obtain r3 s3 where p3: "commit e s2 = (r3, s3)"
        by (cases "commit e s2")
      from p3 show ?thesis
      proof (cases rule: commit_cases)
        case ok
        with rest p1 r1ok p2 r2ok p3 st2 fields show ?thesis
          by (auto simp: all_rows_def)
      next
        case (err msg)
        with rest p1 r1ok p2 r2ok p3 st2 fields show ?thesis by auto
      qed
    qed
  qed
qed

lemma process_invoice_try_result:
  assumes "process_invoice_try e b dp du q n s = (r, s')"
  shows "(\<exists>reason. r = Inr (Skipped reason) \<and> keeps s s')
       \<or> (\<exists>ex. r = Inl ex \<and> committed s' = committed s)
       \<or> (r = Inr Succeeded \<and> committed s' = all_rows s' \<and> flushed s' = all_rows s'
           \<and> pending s' = empty_tables
           \<and> set (lpos (all_rows s)) \<subseteq> set (lpos (all_rows s'))
           \<and> (\<exists>iv l. invoices (all_rows s') = invoices (all_rows s) @ [iv]
                 \<and> invoice_number iv = n
                 \<and> l \<in> set (lpos (all_rows s'))
                 \<and> i_lpo_id iv = Some (l_id l)
                 \<and> i_supplier_id iv = l_supplier_id l
                 \<and> i_project_id iv = l_project_id l
                 \<and> i_created_by_id iv = l_created_by_id l))"
proof (cases "find (\<lambda>r. invoice_number r = n) (invoices (flushed s))")
  case (Some existing)
  with assms show ?thesis by (auto simp: process_invoice_try_def)
next
  case None
  obtain ql s1 where g: "get_lpo_for_invoice e q s = (ql, s1)"
    by (cases "get_lpo_for_invoice e q s")
  have k1: "keeps s s1" using g by (rule keeps_get_lpo_for_invoice)
  show ?thesis
  proof (cases ql)
    case qlNone: None
    with None g assms k1 show ?thesis by (auto simp: process_invoice_try_def)
  next
    case (Some qb_lpo)
    show ?thesis
    proof (cases "truthy (po_DocNumber qb_lpo)")
      case False
      with None g Some assms k1 show ?thesis by (auto simp: process_invoice_try_def)
    next
      case True
      obtain rl s2 where pl: "process_lpo e b dp du qb_lpo (fmt (po_DocNumber qb_lpo)) s1 = (rl, s2)"
        by (cases "process_lpo e b dp du qb_lpo (fmt (po_DocNumber qb_lpo)) s1")
      note L = process_lpo_result [OF pl]
      show ?thesis
      proof (cases rl)
        case (Inl ex)
        with None g Some True pl assms k1 L show ?thesis
          by (auto simp: process_invoice_try_def keeps_def)
      next
        case (Inr db_lpo)
        have ci: "create_invoice e b q n db_lpo s2 = (r, s')"
          using None g Some True pl Inr assms by (simp add: process_invoice_try_def)
        note C = create_invoice_result [OF ci]
        have in2: "db_lpo \<in> set (lpos (all_rows s2))"
          using L Inr by (auto simp: all_rows_def)
        have sub: "set (lpos (all_rows s)) \<subseteq> set (lpos (all_rows s'))"
          using L C k1 by (auto simp: keeps_def)
        have inv_eq: "invoices (all_rows s2) = invoices (all_rows s)"
          using L k1 by (simp add: keeps_def)
        have com: "committed s2 = committed s"
          using L k1 by (simp add: keeps_def)
        from C consider (failed) ex where "r = Inl ex" "committed s' = committed s2"
          | (ok) "r = Inr Succeeded" "committed s' = all_rows s'" "flushed s' = all_rows s'"
                "pending s' = empty_tables"
          by blast
        then show ?thesis
        proof cases
          case failed
          with com show ?thesis by simp
        next
          case ok
          from C obtain iv where "invoices (all_rows s') = invoices (all_rows s2) @ [iv]"
            "invoice_number iv = n" "i_lpo_id iv = Some (l_id db_lpo)" "i_supplier_id iv = l_supplier_id db_lpo"
            "i_project_id iv = l_project_id db_lpo" "i_created_by_id iv = l_created_by_id db_lpo"
            by blast
          moreover have "db_lpo \<in> set (lpos (all_rows s'))"
            using C in2 by simp
          ultimately show ?thesis
            using ok sub inv_eq by auto
        qed
      qed
    qed
  qed
qed

lemma process_invoice_result:
  assumes "process_invoice e b dp du q s = (out, s')"
  shows "(\<exists>reason. out = Skipped reason \<and> keeps s s')
       \<or> (\<exists>ex. out = Failed ex \<and> committed s' = committed s \<and> flushed s' = committed s
              \<and> pending s' = empty_tables)
       \<or> (out = Succeeded \<and> committed s' = all_rows s' \<and> flushed s' = all_rows s'
           \<and> pending s' = empty_tables
           \<and> set (lpos (all_rows s)) \<subseteq> set (lpos (all_rows s'))
           \<and> truthy (inv_DocNumber q)
           \<and> (\<exists>iv. invoices (all_rows s') = invoices (all_rows s) @ [iv]
                 \<and> invoice_number iv = fmt (inv_DocNumber q)
                 \<and> linked (all_rows s') iv))"
proof (cases "truthy (inv_DocNumber q)")
  case False
  with assms show ?thesis by (auto simp: process_invoice_def)
next
  case True
  obtain r s1 where t: "process_invoice_try e b dp du q (fmt (inv_DocNumber q)) s = (r, s1)"
    by (cases "process_invoice_try e b dp du q (fmt (inv_DocNumber q)) s")
  from process_invoice_try_result [OF t] show ?thesis
  proof (elim disjE exE conjE)
    fix reason assume "r = Inr (Skipped reason)" "keeps s s1"
    with True t assms show ?thesis by (auto simp: process_invoice_def)
  next
    fix ex assume "r = Inl ex" "committed s1 = committed s"
    with True t assms show ?thesis by (auto simp: process_invoice_def rollback_def)
  next
    fix iv l
    assume "r = Inr Succeeded" "committed s1 = all_rows s1" "flushed s1 = all_rows s1"
      "pending s1 = empty_tables" "set (lpos (all_rows s)) \<subseteq> set (lpos (all_rows s1))"
      "invoices (all_rows s1) = invoices (all_rows s) @ [iv]"
      "invoice_number iv = fmt (inv_DocNumber q)" "l \<in> set (lpos (all_rows s1))"
      "i_lpo_id iv = Some (l_id l)" "i_supplier_id iv = l_supplier_id l"
      "i_project_id iv = l_project_id l" "i_created_by_id iv = l_created_by_id l"
    moreover from this have "linked (all_rows s1) iv"
      unfolding linked_def by blast
    ultimately show ?thesis
      using True t assms by (auto simp: process_invoice_def)
  qed
qed

lemma length_process_all:
  "process_all e b dp du qs s = (outs, s') \<Longrightarrow> length outs = length qs"
proof (induction qs arbitrary: s outs)
  case Nil
  then show ?case by simp
next
  case (Cons q qs)
  obtain out s1 where st: "process_invoice e b dp du q s = (out, s1)"
    by (cases "process_invoice e b dp du q s")
  obtain outs1 where rest: "process_all e b dp du qs s1 = (outs1, s')" and "outs = out # outs1"
    using Cons.prems st by (auto split: prod.splits)
  with Cons.IH [OF rest] show ?case by simp
qed

lemma try_failure_committed:
  "process_invoice_try e b dp du q n s = (Inl ex, s1) \<Longrightarrow> committed s1 = committed s"
  using process_invoice_try_result [of e b dp du q n s "Inl ex" s1] by auto

lemma tables_get_lpo_loop:
  "get_lpo_loop e txns s = (r, s') \<Longrightarrow>
     committed s' = committed s \<and> flushed s' = flushed s \<and> pending s' = pending s"
  by (induction txns) (auto simp: called_def split: if_splits sum.splits)

lemma tables_get_lpo_for_invoice:
  "get_lpo_for_invoice e q s = (r, s') \<Longrightarrow>
     committed s' = committed s \<and> flushed s' = flushed s \<and> pending s' = pending s"
  by (auto simp: get_lpo_for_invoice_def split: if_splits dest: tables_get_lpo_loop)

lemma get_lpo_loop_no_po:
  "\<forall>txn \<in> set txns. TxnType txn \<noteq> Some ''PurchaseOrder'' \<Longrightarrow> get_lpo_loop e txns s = (None, s)"
  by (induction txns) simp_all

lemma get_lpo_loop_prefix:
  "\<forall>txn \<in> set pre. TxnType txn \<noteq> Some ''PurchaseOrder'' \<Longrightarrow>
     get_lpo_loop e (pre @ txns) s = get_lpo_loop e txns s"
  by (induction pre) simp_all

lemma store_finish [simp]: "store (finish st outs s) = committed s"
  by (simp add: finish_def close_def rollback_def)

section \<open>Invoices and their purchase orders over a whole run\<close>

lemma links_keeps:
  assumes "keeps s s'"
    and "\<forall>r \<in> set (invoices (committed s)). r \<in> set inv0 \<or> linked (committed s) r"
    and "\<forall>r \<in> set (invoices (all_rows s)). r \<in> set inv0 \<or> linked (all_rows s) r"
  shows "(\<forall>r \<in> set (invoices (committed s')). r \<in> set inv0 \<or> linked (committed s') r)
       \<and> (\<forall>r \<in> set (invoices (all_rows s')). r \<in> set inv0 \<or> linked (all_rows s') r)"
  using assms by (simp add: keeps_def linked_def)

lemma links_step:
  assumes step: "process_invoice e b dp du q s = (out, s')"
    and ic: "\<forall>r \<in> set (invoices (committed s)). r \<in> set inv0 \<or> linked (committed s) r"
    and ia: "\<forall>r \<in> set (invoices (all_rows s)). r \<in> set inv0 \<or> linked (all_rows s) r"
  shows "(\<forall>r \<in> set (invoices (committed s')). r \<in> set inv0 \<or> linked (committed s') r)
       \<and> (\<forall>r \<in> set (invoices (all_rows s')). r \<in> set inv0 \<or> linked (all_rows s') r)"
  using process_invoice_result [OF step]
proof (elim disjE exE conjE)
  fix reason assume "out = Skipped reason" and k: "keeps s s'"
  from links_keeps [OF k ic ia] show ?thesis .
next
  fix ex assume "out = Failed ex" "committed s' = committed s" "flushed s' = committed s"
    "pending s' = empty_tables"
  with ic show ?thesis by (simp add: all_rows_def)
next
  fix iv
  assume a: "out = Succeeded" "committed s' = all_rows s'" "flushed s' = all_rows s'"
    "pending s' = empty_tables" "set (lpos (all_rows s)) \<subseteq> set (lpos (all_rows s'))"
    "invoices (all_rows s') = invoices (all_rows s) @ [iv]" "linked (all_rows s') iv"
    "truthy (inv_DocNumber q)" "invoice_number iv = fmt (inv_DocNumber q)"
  have "\<forall>r \<in> set (invoices (all_rows s')). r \<in> set inv0 \<or> linked (all_rows s') r"
  proof
    fix r assume "r \<in> set (invoices (all_rows s'))"
    with a have "r \<in> set (invoices (all_rows s)) \<or> r = iv" by auto
    then show "r \<in> set inv0 \<or> linked (all_rows s') r"
    proof
      assume "r \<in> set (invoices (all_rows s))"
      with ia have "r \<in> set inv0 \<or> linked (all_rows s) r" by blast
      with a(5) show ?thesis unfolding linked_def by blast
    next
      assume "r = iv" with a(7) show ?thesis by simp
    qed
  qed
  with a show ?thesis by simp
qed

lemma links_all:
  assumes "process_all e b dp du qs s = (outs, s')"
    and "\<forall>r \<in> set (invoices (committed s)). r \<in> set inv0 \<or> linked (committed s) r"
    and "\<forall>r \<in> set (invoices (all_rows s)). r \<in> set inv0 \<or> linked (all_rows s) r"
  shows "\<forall>r \<in> set (invoices (committed s')). r \<in> set inv0 \<or> linked (committed s') r"
  using assms
proof (induction qs arbitrary: s outs)
  case Nil
  then show ?case by simp
next
  case (Cons q qs)
  obtain out s1 where st: "process_invoice e b dp du q s = (out, s1)"
    by (cases "process_invoice e b dp du q s")
  obtain outs1 where rest: "process_all e b dp du qs s1 = (outs1, s')"
    using Cons.prems(1) st by (auto split: prod.splits)
  from links_step [OF st Cons.prems(2) Cons.prems(3)]
  show ?case using Cons.IH [OF rest] by blast
qed

lemma run_links:
  "\<forall>r \<in> set (invoices (store (process_imports cfg e limit db))).
      r \<in> set (invoices db) \<or> linked (store (process_imports cfg e limit db)) r"
proof (cases "all_qb_keys_present cfg")
  case False
  then show ?thesis by (simp add: process_imports_def)
next
  case True
  define s0 where "s0 = open_session db"
  have i0: "\<forall>r \<in> set (invoices (committed s0)). r \<in> set (invoices db) \<or> linked (committed s0) r"
    "\<forall>r \<in> set (invoices (all_rows s0)). r \<in> set (invoices db) \<or> linked (all_rows s0) r"
    by (simp_all add: s0_def open_session_def all_rows_def)
  obtain c s1 where qc: "get_qb_client e s0 = (c, s1)"
    by (cases "get_qb_client e s0")
  note i1 = links_keeps [OF keeps_get_qb_client [OF qc] i0]
  show ?thesis
  proof (cases c)
    case False
    with True qc i1 show ?thesis
      by (simp add: process_imports_def s0_def [symmetric])
  next
    case c: True
    obtain rp s2 where gp: "get_default_project e s1 = (rp, s2)"
      by (cases "get_default_project e s1")
    note i2 = links_keeps [OF keeps_get_default_project [OF gp] i1 [THEN conjunct1]
        i1 [THEN conjunct2]]
    show ?thesis
    proof (cases rp)
      case (Inl ex)
      with True qc c gp i2 show ?thesis
        by (simp add: process_imports_def s0_def [symmetric] rollback_def)
    next
      case rp: (Inr default_project)
      obtain ru s3 where gu: "get_default_user e s2 = (ru, s3)"
        by (cases "get_default_user e s2")
      note i3 = links_keeps [OF keeps_get_default_user [OF gu] i2 [THEN conjunct1]
          i2 [THEN conjunct2]]
      show ?thesis
      proof (cases ru)
        case (Inl ex)
        with True qc c gp rp gu i3 show ?thesis
          by (simp add: process_imports_def s0_def [symmetric] rollback_def)
      next
        case ru: (Inr default_user)
        obtain qs s4 where gi: "get_invoices e limit s3 = (qs, s4)"
          by (cases "get_invoices e limit s3")
        note i4 = links_keeps [OF keeps_get_invoices [OF gi] i3 [THEN conjunct1]
            i3 [THEN conjunct2]]
        obtain outs s5 where pa: "process_all e (get_azure_blob_service_client cfg e)
            default_project default_user qs s4 = (outs, s5)"
          by (cases "process_all e (get_azure_blob_service_client cfg e)
            default_project default_user qs s4")
        note i5 = links_all [OF pa i4 [THEN conjunct1] i4 [THEN conjunct2]]
        have "process_imports cfg e limit db = finish Finished outs s5"
          using True qc c gp rp gu ru gi pa
          by (simp add: process_imports_def s0_def [symmetric] Let_def)
        with i5 show ?thesis by simp
      qed
    qed
  qed
qed

section \<open>Duplicates and repeated runs\<close>

lemma finish_sel [simp]:
  "status (finish st outs s) = st" "outcomes (finish st outs s) = outs"
  "requests (finish st outs s) = calls s"
  by (simp_all add: finish_def)

lemma duplicate_step:
  assumes "truthy (inv_DocNumber q)"
    and "fmt (inv_DocNumber q) \<in> invoice_number ` set (invoices (flushed s))"
  shows "process_invoice e b dp du q s = (Skipped AlreadyExists, s)"
proof -
  obtain r where "find (\<lambda>r. invoice_number r = fmt (inv_DocNumber q)) (invoices (flushed s)) = Some r"
    using find_Some_image [OF assms(2)] by blast
  then show ?thesis
    using assms(1) by (simp add: process_invoice_def process_invoice_try_def)
qed

lemma fst_fetch_pages:
  "fst (fetch_pages e p acc s') = fst (fetch_pages e p acc s)"
proof (induction e p acc s arbitrary: s' rule: fetch_pages.induct)
  case (1 e start_pos all_invoices s)
  show ?case
  proof (cases "query_page e start_pos 100")
    case (Inl err)
    then show ?thesis by (simp add: fetch_pages.simps [of e start_pos])
  next
    case (Inr batch)
    show ?thesis
    proof (cases "batch = []")
      case True
      with Inr show ?thesis by (simp add: fetch_pages.simps [of e start_pos])
    next
      case False
      from "1.IH" [OF Inr False, of "called (Invoice_query start_pos 100) s'"]
      show ?thesis using Inr False by (simp add: fetch_pages.simps [of e start_pos])
    qed
  qed
qed

lemma fst_get_invoices: "fst (get_invoices e limit s') = fst (get_invoices e limit s)"
proof -
  have "fst (case fetch_pages e 1 [] s' of (Inl err, s1) \<Rightarrow> ([], s1) | (Inr invs, s1) \<Rightarrow> (invs, s1))
      = fst (case fetch_pages e 1 [] s of (Inl err, s1) \<Rightarrow> ([], s1) | (Inr invs, s1) \<Rightarrow> (invs, s1))"
    using fst_fetch_pages [of e 1 "[]" s' s]
    by (cases "fetch_pages e 1 [] s'"; cases "fetch_pages e 1 [] s")
       (auto split: sum.splits)
  then show ?thesis
    by (auto simp: get_invoices_def split: option.splits nat.splits sum.splits)
qed

text \<open>Between two invoices no invoice row is pending, and the queries see the committed ones.\<close>

lemma settled_flush:
  assumes "flush e s = (r, s')" and "invoices (pending s) = []"
  shows "committed s' = committed s \<and> invoices (flushed s') = invoices (flushed s)
       \<and> invoices (pending s') = []"
  using assms by (auto elim!: flush_cases)

lemma settled_get_default_project:
  assumes "get_default_project e s = (r, s')" and "invoices (pending s) = []"
  shows "committed s' = committed s \<and> invoices (flushed s') = invoices (flushed s)
       \<and> invoices (pending s') = []"
  using assms
  by (auto simp: get_default_project_def Let_def add_project_def split: option.splits
        elim!: then_do_cases dest!: settled_flush)

lemma settled_get_default_user:
  assumes "get_default_user e s = (r, s')" and "invoices (pending s) = []"
  shows "committed s' = committed s \<and> invoices (flushed s') = invoices (flushed s)
       \<and> invoices (pending s') = []"
  using assms
  by (auto simp: get_default_user_def Let_def add_user_def split: option.splits
        elim!: then_do_cases dest!: settled_flush)

lemma tables_fetch_pages:
  "fetch_pages e p acc s = (r, s') \<Longrightarrow>
     committed s' = committed s \<and> flushed s' = flushed s \<and> pending s' = pending s"
proof (induction e p acc s rule: fetch_pages.induct)
  case (1 e start_pos all_invoices s)
  show ?case
  proof (cases "query_page e start_pos 100")
    case (Inl err)
    with "1.prems" show ?thesis
      by (auto simp: fetch_pages.simps [of e start_pos] called_def)
  next
    case (Inr batch)
    show ?thesis
    proof (cases "batch = []")
      case True
      with Inr "1.prems" show ?thesis
        by (auto simp: fetch_pages.simps [of e start_pos] called_def)
    next
      case False
      with Inr "1.prems" have "fetch_pages e (start_pos + 100) (all_invoices @ batch)
          (called (Invoice_query start_pos 100) s) = (r, s')"
        by (simp add: fetch_pages.simps [of e start_pos])
      from "1.IH" [OF Inr False this] show ?thesis by (simp add: called_def)
    qed
  qed
qed

lemma tables_get_invoices:
  "get_invoices e limit s = (r, s') \<Longrightarrow>
     committed s' = committed s \<and> flushed s' = flushed s \<and> pending s' = pending s"
  by (auto simp: get_invoices_def called_def
        split: option.splits nat.splits sum.splits prod.splits dest: tables_fetch_pages)

lemma tables_get_qb_client:
  "get_qb_client e s = (r, s') \<Longrightarrow>
     committed s' = committed s \<and> flushed s' = flushed s \<and> pending s' = pending s"
  by (auto simp: get_qb_client_def called_def split: sum.splits)

text \<open>
  The shape of a run whose credentials are present: either it ends before the loop, with
  the store untouched and no outcome, or it reaches the loop in a session whose queries
  see exactly the invoice rows of the store.
\<close>

lemma run_shape:
  assumes "all_qb_keys_present cfg"
  obtains (early) "store (process_imports cfg e limit db) = db"
      and "outcomes (process_imports cfg e limit db) = []"
      and "status (process_imports cfg e limit db) \<noteq> Finished"
    | (loop) dp du s4 outs s5 where
        "process_all e (get_azure_blob_service_client cfg e) dp du
           (fst (get_invoices e limit (open_session db))) s4 = (outs, s5)"
      and "committed s4 = db" and "invoices (flushed s4) = invoices db"
      and "invoices (pending s4) = []"
      and "process_imports cfg e limit db = finish Finished outs s5"
proof -
  define s0 where "s0 = open_session db"
  have t0: "committed s0 = db" "invoices (flushed s0) = invoices db" "invoices (pending s0) = []"
    by (simp_all add: s0_def open_session_def)
  obtain c s1 where qc: "get_qb_client e s0 = (c, s1)"
    by (cases "get_qb_client e s0")
  have t1: "committed s1 = db" "invoices (flushed s1) = invoices db" "invoices (pending s1) = []"
    using tables_get_qb_client [OF qc] t0 by simp_all
  show ?thesis
  proof (cases c)
    case False
    with assms qc t1 have "store (process_imports cfg e limit db) = db"
      "outcomes (process_imports cfg e limit db) = []"
      "status (process_imports cfg e limit db) \<noteq> Finished"
      by (simp_all add: process_imports_def s0_def [symmetric])
    then show ?thesis by (rule early)
  next
    case c: True
    obtain rp s2 where gp: "get_default_project e s1 = (rp, s2)"
      by (cases "get_default_project e s1")
    have t2: "committed s2 = db" "invoices (flushed s2) = invoices db" "invoices (pending s2) = []"
      using settled_get_default_project [OF gp t1(3)] t1 by simp_all
    show ?thesis
    proof (cases rp)
      case (Inl ex)
      with assms qc c gp t2 have "store (process_imports cfg e limit db) = db"
        "outcomes (process_imports cfg e limit db) = []"
        "status (process_imports cfg e limit db) \<noteq> Finished"
        by (simp_all add: process_imports_def s0_def [symmetric] rollback_def)
      then show ?thesis by (rule early)
    next
      case rp: (Inr default_project)
      obtain ru s3 where gu: "get_default_user e s2 = (ru, s3)"
        by (cases "get_default_user e s2")
      have t3: "committed s3 = db" "invoices (flushed s3) = invoices db"
        "invoices (pending s3) = []"
        using settled_get_default_user [OF gu t2(3)] t2 by simp_all
      show ?thesis
      proof (cases ru)
        case (Inl ex)
        with assms qc c gp rp gu t3 have "store (process_imports cfg e limit db) = db"
          "outcomes (process_imports cfg e limit db) = []"
          "status (process_imports cfg e limit db) \<noteq> Finished"
          by (simp_all add: process_imports_def s0_def [symmetric] rollback_def)
        then show ?thesis by (rule early)
      next
        case ru: (Inr default_user)
        obtain qs s4 where gi: "get_invoices e limit s3 = (qs, s4)"
          by (cases "get_invoices e limit s3")
        have qs: "qs = fst (get_invoices e limit (open_session db))"
          using gi fst_get_invoices [of e limit s3 "open_session db"] by simp
        have t4: "committed s4 = db" "invoices (flushed s4) = invoices db"
          "invoices (pending s4) = []"
          using tables_get_invoices [OF gi] t3 by simp_all
        obtain outs s5 where pa: "process_all e (get_azure_blob_service_client cfg e)
            default_project default_user qs s4 = (outs, s5)"
          by (cases "process_all e (get_azure_blob_service_client cfg e)
            default_project default_user qs s4")
        have "process_imports cfg e limit db = finish Finished outs s5"
          using assms qc c gp rp gu ru gi pa
          by (simp add: process_imports_def s0_def [symmetric] Let_def)
        with pa qs t4 show ?thesis by (auto intro: loop)
      qed
    qed
  qed
qed

lemma create_invoice_succeeds:
  "create_invoice e b q n db_lpo s = (Inr out, s') \<Longrightarrow> out = Succeeded"
  using create_invoice_result [of e b q n db_lpo s "Inr out" s'] by auto

lemma skipped_try:
  assumes "process_invoice_try e b dp du q n s = (Inr (Skipped reason), s')"
  shows "committed s' = committed s \<and> flushed s' = flushed s \<and> pending s' = pending s
       \<and> (reason = AlreadyExists \<longrightarrow> n \<in> invoice_number ` set (invoices (flushed s)))"
proof (cases "find (\<lambda>r. invoice_number r = n) (invoices (flushed s))")
  case (Some existing)
  then have "n \<in> invoice_number ` set (invoices (flushed s))"
    by (auto simp: find_Some_iff)
  with Some assms show ?thesis by (auto simp: process_invoice_try_def)
next
  case None
  obtain ql s1 where g: "get_lpo_for_invoice e q s = (ql, s1)"
    by (cases "get_lpo_for_invoice e q s")
  note t = tables_get_lpo_for_invoice [OF g]
  show ?thesis
  proof (cases ql)
    case qlNone: None
    with None g assms t show ?thesis by (auto simp: process_invoice_try_def)
  next
    case (Some qb_lpo)
    show ?thesis
    proof (cases "truthy (po_DocNumber qb_lpo)")
      case False
      with None g Some assms t show ?thesis by (auto simp: process_invoice_try_def)
    next
      case True
      with None g Some assms have "then_do (process_lpo e b dp du qb_lpo (fmt (po_DocNumber qb_lpo)) s1)
          (\<lambda>db_lpo s2. create_invoice e b q n db_lpo s2) = (Inr (Skipped reason), s')"
        by (simp add: process_invoice_try_def)
      then have False
        by (auto elim!: then_do_cases dest: create_invoice_succeeds)
      then show ?thesis ..
    qed
  qed
qed

lemma skipped_step:
  assumes "process_invoice e b dp du q s = (Skipped reason, s')"
  shows "committed s' = committed s \<and> flushed s' = flushed s \<and> pending s' = pending s
       \<and> (reason = AlreadyExists \<longrightarrow> truthy (inv_DocNumber q)
            \<and> fmt (inv_DocNumber q) \<in> invoice_number ` set (invoices (flushed s)))"
proof (cases "truthy (inv_DocNumber q)")
  case False
  with assms show ?thesis by (auto simp: process_invoice_def)
next
  case True
  with assms have "process_invoice_try e b dp du q (fmt (inv_DocNumber q)) s
                     = (Inr (Skipped reason), s')"
    by (auto simp: process_invoice_def split: prod.splits sum.splits)
  from skipped_try [OF this] True show ?thesis by simp
qed

lemma imported_step:
  assumes step: "process_invoice e b dp du q s = (out, s')"
    and fl: "invoices (flushed s) = invoices (committed s)"
    and pe: "invoices (pending s) = []"
  shows "invoices (flushed s') = invoices (committed s') \<and> invoices (pending s') = []
       \<and> set (invoices (committed s)) \<subseteq> set (invoices (committed s'))
       \<and> (out = Succeeded \<or> out = Skipped AlreadyExists
          \<longrightarrow> truthy (inv_DocNumber q)
              \<and> fmt (inv_DocNumber q) \<in> invoice_number ` set (invoices (committed s')))"
  using process_invoice_result [OF step]
proof (elim disjE exE conjE)
  fix reason assume o: "out = Skipped reason"
  with step have "process_invoice e b dp du q s = (Skipped reason, s')" by simp
  from skipped_step [OF this] o fl pe show ?thesis by auto
next
  fix ex assume "out = Failed ex" "committed s' = committed s" "flushed s' = committed s"
    "pending s' = empty_tables"
  then show ?thesis by simp
next
  fix iv
  assume a: "out = Succeeded" "committed s' = all_rows s'" "flushed s' = all_rows s'"
    "pending s' = empty_tables" "invoices (all_rows s') = invoices (all_rows s) @ [iv]"
    "truthy (inv_DocNumber q)" "invoice_number iv = fmt (inv_DocNumber q)"
  have "invoices (all_rows s) = invoices (committed s)"
    using fl pe by (simp add: all_rows_def)
  with a show ?thesis by auto
qed

section \<open>Header totals\<close>


text \<open>
  The floats of the literals 0.1, 0.7, 99.4 and 100.1, with the differences
  \<^verbatim>\<open>0.3 - 0.1\<close> (0.19999999999999998) and \<^verbatim>\<open>100.1 - 0.7\<close> (99.39999999999999) as
  Python computes them, and two ties, which go to the even significand.
\<close>

lemma double_literals:
  "to_double (1 / 10) = 3602879701896397 / 36028797018963968"
  "to_double (7 / 10) = 3152519739159347 / 4503599627370496"
  "to_double (497 / 5) = 3497326585629901 / 35184372088832"
  "to_double (1001 / 10) = 3521955646092083 / 35184372088832"
  "float_sub (to_double (3 / 10)) (to_double (1 / 10)) = 7205759403792793 / 36028797018963968"
  "float_sub (to_double (1001 / 10)) (to_double (7 / 10)) = 6994653171259801 / 70368744177664"
  "to_double (2 ^ 53 + 1) = 2 ^ 53"
  "to_double (2 ^ 53 + 3) = 2 ^ 53 + 4"
  by code_simp+



section \<open>Line items\<close>

lemma lpo_line_result:
  assumes "process_lpo_line e line db_lpo s = (r, s')"
  shows "lpo_items (all_rows s') = lpo_items (all_rows s)
       \<or> (\<exists>row d. lpo_items (all_rows s') = lpo_items (all_rows s) @ [row]
             \<and> ItemBasedExpenseLineDetail line = Some d
             \<and> li_description row = Description line
             \<and> li_tax_rate row = Some (line_tax_rate d))"
  using assms
  by (auto simp: process_lpo_line_def split: if_splits option.splits prod.splits
        elim!: then_do_cases
        dest!: keeps_get_material keeps_items_get_or_create_material)
     (auto simp: keeps_items_def add_lpo_item_def all_rows_def)

lemma lpo_lines_result:
  assumes "process_lpo_lines e lines db_lpo s = (r, s')"
  shows "\<exists>rows. lpo_items (all_rows s') = lpo_items (all_rows s) @ rows
           \<and> (\<forall>row \<in> set rows. \<exists>line \<in> set lines. \<exists>d.
                 ItemBasedExpenseLineDetail line = Some d
                 \<and> li_description row = Description line
                 \<and> li_tax_rate row = Some (line_tax_rate d))"
  using assms
proof (induction lines arbitrary: s)
  case Nil
  then show ?case by simp
next
  case (Cons line lines)
  obtain r1 s1 where st: "process_lpo_line e line db_lpo s = (r1, s1)"
    by (cases "process_lpo_line e line db_lpo s")
  from lpo_line_result [OF st] obtain rows1 where
    one: "lpo_items (all_rows s1) = lpo_items (all_rows s) @ rows1"
      "\<forall>row \<in> set rows1. \<exists>d. ItemBasedExpenseLineDetail line = Some d
          \<and> li_description row = Description line \<and> li_tax_rate row = Some (line_tax_rate d)"
    by (elim disjE exE conjE) (force intro: exI [of _ "[]"])+
  show ?case
  proof (cases r1)
    case (Inl ex)
    with Cons.prems st have "s' = s1" by simp
    with one show ?thesis by auto
  next
    case (Inr u)
    with Cons.prems st have "process_lpo_lines e lines db_lpo s1 = (r, s')" by simp
    from Cons.IH [OF this] obtain rows2 where
      two: "lpo_items (all_rows s') = lpo_items (all_rows s1) @ rows2"
        "\<forall>row \<in> set rows2. \<exists>line \<in> set lines. \<exists>d. ItemBasedExpenseLineDetail line = Some d
            \<and> li_description row = Description line \<and> li_tax_rate row = Some (line_tax_rate d)"
      by blast
    have "lpo_items (all_rows s') = lpo_items (all_rows s) @ (rows1 @ rows2)"
      using one two by simp
    moreover have "\<forall>row \<in> set (rows1 @ rows2). \<exists>l \<in> set (line # lines). \<exists>d.
        ItemBasedExpenseLineDetail l = Some d
        \<and> li_description row = Description l \<and> li_tax_rate row = Some (line_tax_rate d)"
      using one(2) two(2) by auto
    ultimately show ?thesis by blast
  qed
qed

lemma invoice_line_result:
  assumes "process_invoice_line e line db_invoice s = (r, s')"
  shows "invoice_items (all_rows s') = invoice_items (all_rows s)
       \<or> (\<exists>row d. invoice_items (all_rows s') = invoice_items (all_rows s) @ [row]
             \<and> SalesItemLineDetail line = Some d
             \<and> ii_description row = Description line
             \<and> ii_tax_rate row = Some (line_tax_rate d))"
  using assms
  by (auto simp: process_invoice_line_def split: if_splits option.splits prod.splits
        elim!: then_do_cases
        dest!: keeps_get_material keeps_items_get_or_create_material)
     (auto simp: keeps_items_def add_invoice_item_def all_rows_def)

lemma invoice_lines_result:
  assumes "process_invoice_lines e lines db_invoice s = (r, s')"
  shows "\<exists>rows. invoice_items (all_rows s') = invoice_items (all_rows s) @ rows
           \<and> (\<forall>row \<in> set rows. \<exists>line \<in> set lines. \<exists>d.
                 SalesItemLineDetail line = Some d
                 \<and> ii_description row = Description line
                 \<and> ii_tax_rate row = Some (line_tax_rate d))"
  using assms
proof (induction lines arbitrary: s)
  case Nil
  then show ?case by simp
next
  case (Cons line lines)
  obtain r1 s1 where st: "process_invoice_line e line db_invoice s = (r1, s1)"
    by (cases "process_invoice_line e line db_invoice s")
  from invoice_line_result [OF st] obtain rows1 where
    one: "invoice_items (all_rows s1) = invoice_items (all_rows s) @ rows1"
      "\<forall>row \<in> set rows1. \<exists>d. SalesItemLineDetail line = Some d
          \<and> ii_description row = Description line \<and> ii_tax_rate row = Some (line_tax_rate d)"
    by (elim disjE exE conjE) (force intro: exI [of _ "[]"])+
  show ?case
  proof (cases r1)
    case (Inl ex)
    with Cons.prems st have "s' = s1" by simp
    with one show ?thesis by auto
  next
    case (Inr u)
    with Cons.prems st have "process_invoice_lines e lines db_invoice s1 = (r, s')" by simp
    from Cons.IH [OF this] obtain rows2 where
      two: "invoice_items (all_rows s') = invoice_items (all_rows s1) @ rows2"
        "\<forall>row \<in> set rows2. \<exists>line \<in> set lines. \<exists>d. SalesItemLineDetail line = Some d
            \<and> ii_description row = Description line \<and> ii_tax_rate row = Some (line_tax_rate d)"
      by blast
    have "invoice_items (all_rows s') = invoice_items (all_rows s) @ (rows1 @ rows2)"
      using one two by simp
    moreover have "\<forall>row \<in> set (rows1 @ rows2). \<exists>l \<in> set (line # lines). \<exists>d.
        SalesItemLineDetail l = Some d
        \<and> ii_description row = Description l \<and> ii_tax_rate row = Some (line_tax_rate d)"
      using one(2) two(2) by auto
    ultimately show ?thesis by blast
  qed
qed

lemma line_tax_rate_code:
  assumes "TaxCodeRef d = Some ref" and "ref_value ref = Some c"
  shows "line_tax_rate d = (if c = ''NON'' then 0 else 5 / 100)"
  using assms by (simp add: line_tax_rate_def)

section \<open>Resolvers\<close>

lemma fold_max_init: "a \<le> fold max ids (a::nat)"
proof (induction ids arbitrary: a)
  case Nil
  then show ?case by simp
next
  case (Cons i ids)
  have "a \<le> max i a" by simp
  also have "max i a \<le> fold max ids (max i a)" by (rule Cons.IH)
  finally show ?case by simp
qed

lemma fold_max_ge: "x \<in> set ids \<Longrightarrow> x \<le> fold max ids (a::nat)"
proof (induction ids arbitrary: a)
  case Nil
  then show ?case by simp
next
  case (Cons i ids)
  show ?case
  proof (cases "x = i")
    case True
    have "i \<le> max i a" by simp
    also have "max i a \<le> fold max ids (max i a)" by (rule fold_max_init)
    finally show ?thesis using True by simp
  next
    case False
    with Cons.prems have "x \<in> set ids" by simp
    from Cons.IH [OF this] show ?thesis by simp
  qed
qed

lemma next_id_fresh: "next_id (map f xs) \<notin> f ` set xs"
proof
  assume "next_id (map f xs) \<in> f ` set xs"
  then have "next_id (map f xs) \<in> set (map f xs)" by simp
  from fold_max_ge [OF this, of 0] show False
    by (simp add: next_id_def)
qed

lemma find_append_new:
  assumes "k \<notin> f ` set xs" and "f r = k"
  shows "find (\<lambda>x. f x = k) (xs @ [r]) = Some r"
  using assms by (induction xs) auto

lemma filter_append_new:
  assumes "k \<notin> f ` set xs" and "f r = k"
  shows "filter (\<lambda>x. f x = k) (xs @ [r]) = [r]"
  using assms by (induction xs) auto

lemma supplier_created:
  assumes t: "truthy (DisplayName v)"
    and n: "fmt (DisplayName v) \<notin> s_name ` set (suppliers (flushed s))"
    and g: "get_or_create_supplier e v s = (Inr row, s')"
  shows "s_name row = fmt (DisplayName v)
       \<and> s_id row \<notin> s_id ` set (suppliers (all_rows s))
       \<and> suppliers (flushed s') = suppliers (flushed s) @ suppliers (pending s) @ [row]
       \<and> suppliers (pending s') = []
       \<and> committed s' = committed s"
proof -
  have f: "find (\<lambda>r. s_name r = fmt (DisplayName v)) (suppliers (flushed s)) = None"
    using n by (simp add: find_None_image)
  define new where "new = \<lparr>s_id = next_id (map s_id (suppliers (all_rows s))),
     s_name = fmt (DisplayName v),
     s_email = (case PrimaryEmailAddr v of Some a \<Rightarrow> Address a | None \<Rightarrow> None),
     s_phone = (case PrimaryPhone v of Some ph \<Rightarrow> FreeFormNumber ph | None \<Rightarrow> None)\<rparr>"
  have "then_do (flush e (add_supplier new s)) (\<lambda>_ s1. (Inr new, s1)) = (Inr row, s')"
    using t f g by (simp add: get_or_create_supplier_def Let_def new_def)
  then obtain u where fl: "flush e (add_supplier new s) = (Inr u, s')" and r: "row = new"
    by (auto elim!: then_do_cases)
  from fl have "s' = (add_supplier new s)\<lparr>flushed := tables_append (flushed (add_supplier new s))
      (pending (add_supplier new s)), pending := empty_tables\<rparr>"
    by (auto elim: flush_cases)
  then have "suppliers (flushed s') = suppliers (flushed s) @ suppliers (pending s) @ [row]"
    "suppliers (pending s') = []" "committed s' = committed s"
    using r by (simp_all add: add_supplier_def)
  moreover have "s_id row \<notin> s_id ` set (suppliers (all_rows s))"
    using r next_id_fresh [of s_id "suppliers (all_rows s)"] by (simp add: new_def)
  moreover have "s_name row = fmt (DisplayName v)"
    using r by (simp add: new_def)
  ultimately show ?thesis by simp
qed

lemma material_created:
  assumes t: "truthy (item_Name i)"
    and n: "fmt (item_Name i) \<notin> m_name ` set (materials (flushed s))"
    and g: "get_or_create_material e i s = (Inr row, s')"
  shows "m_name row = fmt (item_Name i)
       \<and> m_unit row = (if item_Type i = Some ''Service'' then ''service''
                       else if item_Type i = Some ''Inventory'' then ''each'' else ''nos'')
       \<and> m_id row \<notin> m_id ` set (materials (all_rows s))
       \<and> materials (flushed s') = materials (flushed s) @ materials (pending s) @ [row]
       \<and> materials (pending s') = []
       \<and> committed s' = committed s"
proof -
  have f: "find (\<lambda>r. m_name r = fmt (item_Name i)) (materials (flushed s)) = None"
    using n by (simp add: find_None_image)
  define new where "new = \<lparr>m_id = next_id (map m_id (materials (all_rows s))),
     m_name = fmt (item_Name i),
     m_unit = (if item_Type i = Some ''Service'' then ''service''
               else if item_Type i = Some ''Inventory'' then ''each'' else ''nos'')\<rparr>"
  have "then_do (flush e (add_material new s)) (\<lambda>_ s1. (Inr new, s1)) = (Inr row, s')"
    using t f g by (simp add: get_or_create_material_def Let_def new_def)
  then obtain u where fl: "flush e (add_material new s) = (Inr u, s')" and r: "row = new"
    by (auto elim!: then_do_cases)
  from fl have "s' = (add_material new s)\<lparr>flushed := tables_append (flushed (add_material new s))
      (pending (add_material new s)), pending := empty_tables\<rparr>"
    by (auto elim: flush_cases)
  then have "materials (flushed s') = materials (flushed s) @ materials (pending s) @ [row]"
    "materials (pending s') = []" "committed s' = committed s"
    using r by (simp_all add: add_material_def)
  moreover have "m_id row \<notin> m_id ` set (materials (all_rows s))"
    using r next_id_fresh [of m_id "materials (all_rows s)"] by (simp add: new_def)
  moreover have "m_name row = fmt (item_Name i)" "m_unit row = (if item_Type i = Some ''Service''
      then ''service'' else if item_Type i = Some ''Inventory'' then ''each'' else ''nos'')"
    using r by (simp_all add: new_def)
  ultimately show ?thesis by simp
qed

lemma resolver_returns_truthy:
  "get_or_create_supplier e v s = (Inr srow, s') \<Longrightarrow> truthy (DisplayName v)"
  "get_or_create_material e i s = (Inr mrow, s') \<Longrightarrow> truthy (item_Name i)"
  by (auto simp: get_or_create_supplier_def get_or_create_material_def split: if_splits)

section \<open>Runs in which no invoice fails\<close>

lemma grows_refl [simp]: "grows s s"
  by (simp add: grows_def)

lemma grows_trans: "grows s s1 \<Longrightarrow> grows s1 s2 \<Longrightarrow> grows s s2"
  by (auto simp: grows_def)

lemma grows_called [simp]: "grows s (called c s)"
  by (simp add: grows_def called_def)

lemma grows_flush: "flush e s = (r, s') \<Longrightarrow> grows s s'"
  by (erule flush_cases) (auto simp: grows_def)

lemma grows_add [simp]:
  "grows s (add_supplier sr s)" "grows s (add_material mr s)" "grows s (add_project pr s)"
  "grows s (add_user ur s)" "grows s (add_lpo lr s)" "grows s (add_lpo_item lir s)"
  "grows s (add_lpo_attachment lar s)" "grows s (add_invoice ir s)"
  "grows s (add_invoice_item iir s)" "grows s (add_invoice_attachment iar s)"
  by (simp_all add: grows_def add_defs)

lemma grows_commit: "commit e s = (r, s') \<Longrightarrow> grows s s'"
  by (erule commit_cases) (auto simp: grows_def all_rows_def)

lemma grows_get_or_create_supplier:
  "get_or_create_supplier e v s = (r, s') \<Longrightarrow> grows s s'"
  by (auto simp: get_or_create_supplier_def Let_def split: if_splits option.splits
        elim!: then_do_cases intro: grows_trans [OF grows_add(1) grows_flush])

lemma grows_get_or_create_material:
  "get_or_create_material e i s = (r, s') \<Longrightarrow> grows s s'"
  by (auto simp: get_or_create_material_def Let_def split: if_splits option.splits
        elim!: then_do_cases intro: grows_trans [OF grows_add(2) grows_flush])

lemma grows_get_material: "get_material e i s = (r, s') \<Longrightarrow> grows s s'"
  by (auto simp: get_material_def split: sum.splits)

lemma grows_process_lpo_line:
  "process_lpo_line e line db_lpo s = (r, s') \<Longrightarrow> grows s s'"
  by (auto simp: process_lpo_line_def split: if_splits option.splits prod.splits
        elim!: then_do_cases dest!: grows_get_material grows_get_or_create_material
        intro: grows_trans grows_trans [OF _ grows_add(6)])

lemma grows_process_lpo_lines:
  "process_lpo_lines e lines db_lpo s = (r, s') \<Longrightarrow> grows s s'"
proof (induction lines arbitrary: s)
  case Nil
  then show ?case by simp
next
  case (Cons line lines)
  then show ?case
    by (auto split: prod.splits sum.splits dest: grows_process_lpo_line intro: grows_trans)
qed

lemma grows_process_lpo_items:
  "process_lpo_items e qb_lpo db_lpo s = (r, s') \<Longrightarrow> grows s s'"
  by (auto simp: process_lpo_items_def split: if_splits dest: grows_process_lpo_lines)

lemma grows_process_invoice_line:
  "process_invoice_line e line db_invoice s = (r, s') \<Longrightarrow> grows s s'"
  by (auto simp: process_invoice_line_def split: if_splits option.splits prod.splits
        elim!: then_do_cases dest!: grows_get_material grows_get_or_create_material
        intro: grows_trans grows_trans [OF _ grows_add(9)])

lemma grows_process_invoice_lines:
  "process_invoice_lines e lines db_invoice s = (r, s') \<Longrightarrow> grows s s'"
proof (induction lines arbitrary: s)
  case Nil
  then show ?case by simp
next
  case (Cons line lines)
  then show ?case
    by (auto split: prod.splits sum.splits dest: grows_process_invoice_line intro: grows_trans)
qed

lemma grows_process_invoice_items:
  "process_invoice_items e qb_invoice db_invoice s = (r, s') \<Longrightarrow> grows s s'"
  by (auto simp: process_invoice_items_def split: if_splits dest: grows_process_invoice_lines)

lemma grows_download_attachment: "download_attachment e att s = (r, s') \<Longrightarrow> grows s s'"
  by (auto simp: download_attachment_def split: option.splits if_splits sum.splits
        http_error.splits)

lemma grows_upload: "upload_attachment_to_azure e b n c s = (r, s') \<Longrightarrow> grows s s'"
  by (auto simp: upload_attachment_to_azure_def split: if_splits sum.splits)

lemma grows_process_attachment:
  "process_attachment e b t ob att s = (r, s') \<Longrightarrow> grows s s'"
  by (auto simp: process_attachment_def split: if_splits prod.splits
        elim!: then_do_cases dest!: grows_download_attachment grows_upload)
     (auto simp: grows_def add_defs)

lemma grows_process_attachment_list:
  "process_attachment_list e b t ob atts s = (r, s') \<Longrightarrow> grows s s'"
proof (induction atts arbitrary: s)
  case Nil
  then show ?case by simp
next
  case (Cons att atts)
  then show ?case
    by (auto split: prod.splits sum.splits dest: grows_process_attachment intro: grows_trans)
qed

lemma grows_get_attachments: "get_attachments e t i s = (r, s') \<Longrightarrow> grows s s'"
  by (auto simp: get_attachments_def split: sum.splits)

lemma grows_process_attachments:
  "process_attachments e b t i ob s = (r, s') \<Longrightarrow> grows s s'"
  by (auto simp: process_attachments_def split: prod.splits
        dest!: grows_get_attachments grows_process_attachment_list intro: grows_trans)

lemma grows_get_supplier: "get_supplier e i s = (r, s') \<Longrightarrow> grows s s'"
  by (auto simp: get_supplier_def split: sum.splits)

lemma grows_process_lpo:
  assumes "process_lpo e b dp du qb_lpo n s = (r, s')"
  shows "grows s s'"
proof (cases "find (\<lambda>r. lpo_number r = n) (lpos (flushed s))")
  case (Some db_lpo)
  with assms show ?thesis by (simp add: process_lpo_def)
next
  case None
  show ?thesis
  proof (cases "case VendorRef qb_lpo of None \<Rightarrow> True | Some r \<Rightarrow> \<not> truthy (ref_value r)")
    case True
    with None assms show ?thesis by (simp add: process_lpo_def)
  next
    case False
    define vendor_id where
      "vendor_id = (case VendorRef qb_lpo of None \<Rightarrow> [] | Some r \<Rightarrow> fmt (ref_value r))"
    obtain qs s1 where gs: "get_supplier e vendor_id s = (qs, s1)"
      by (cases "get_supplier e vendor_id s")
    note g1 = grows_get_supplier [OF gs]
    show ?thesis
    proof (cases qs)
      case qsNone: None
      with None False gs assms g1 show ?thesis
        by (simp add: process_lpo_def vendor_id_def [symmetric])
    next
      case (Some qb_supplier)
      obtain rs s2 where gc: "get_or_create_supplier e qb_supplier s1 = (rs, s2)"
        by (cases "get_or_create_supplier e qb_supplier s1")
      note g2 = grows_trans [OF g1 grows_get_or_create_supplier [OF gc]]
      show ?thesis
      proof (cases rs)
        case (Inl ex)
        with None False gs Some gc assms g2 show ?thesis
          by (simp add: process_lpo_def vendor_id_def [symmetric])
      next
        case (Inr db_supplier)
        define db_lpo where "db_lpo =
          \<lparr>l_id = next_id (map l_id (lpos (all_rows s2))),
           lpo_number = n,
           lpo_date = po_TxnDate qb_lpo,
           l_status = POStatus qb_lpo,
           l_subtotal = Some (float_sub (po_TotalAmt qb_lpo)
                                (tax_of (po_TxnTaxDetail qb_lpo))),
           l_tax_total = Some (tax_of (po_TxnTaxDetail qb_lpo)),
           l_grand_total = Some (po_TotalAmt qb_lpo),
           message_to_supplier = po_PrivateNote qb_lpo,
           l_memo = po_Memo qb_lpo,
           l_payment_mode = None,
           l_supplier_id = s_id db_supplier,
           l_project_id = p_id dp,
           l_created_by_id = u_id du\<rparr>"
        have lid: "l_id db_lpo = next_id (map l_id (lpos (all_rows s2)))"
          by (simp add: db_lpo_def)
        from None False gs Some gc Inr assms
        have rest: "then_do (process_lpo_items e qb_lpo db_lpo (add_lpo db_lpo s2))
             (\<lambda>_ s3. then_do (process_attachments e b ''PurchaseOrder'' (po_Id qb_lpo)
                                 (l_id db_lpo) s3)
                 (\<lambda>_ s4. then_do (flush e s4) (\<lambda>_ s5. (Inr db_lpo, s5)))) = (r, s')"
          by (simp add: process_lpo_def vendor_id_def [symmetric] db_lpo_def [symmetric] Let_def
                lid)
        have "grows (add_lpo db_lpo s2) s'"
          using rest
          by (auto elim!: then_do_cases
                dest!: grows_process_lpo_items grows_process_attachments grows_flush
                intro: grows_trans)
        with g2 show ?thesis
          by (blast intro: grows_trans grows_add(5))
      qed
    qed
  qed
qed

lemma grows_create_invoice:
  assumes "create_invoice e b q n db_lpo s = (r, s')"
  shows "grows s s'"
proof -
  define db_invoice where "db_invoice =
    \<lparr>i_id = next_id (map i_id (invoices (all_rows s))),
     invoice_number = n,
     invoice_date = inv_TxnDate q,
     invoice_due_date = DueDate q,
     i_lpo_id = Some (l_id db_lpo),
     i_status = Some (if Balance q = 0 then ''Paid'' else ''Pending''),
     i_subtotal = Some (float_sub (inv_TotalAmt q) (tax_of (inv_TxnTaxDetail q))),
     i_tax_total = Some (tax_of (inv_TxnTaxDetail q)),
     i_grand_total = Some (inv_TotalAmt q),
     message_to_customer = CustomerMemo q,
     i_memo = inv_PrivateNote q,
     i_payment_mode = None,
     i_supplier_id = l_supplier_id db_lpo,
     i_project_id = l_project_id db_lpo,
     i_created_by_id = l_created_by_id db_lpo\<rparr>"
  from assms have rest: "then_do (process_invoice_items e q db_invoice (add_invoice db_invoice s))
       (\<lambda>_ s1. then_do (process_attachments e b ''Invoice'' (inv_Id q) (i_id db_invoice) s1)
           (\<lambda>_ s2. then_do (commit e s2) (\<lambda>_ s3. (Inr Succeeded, s3)))) = (r, s')"
    by (simp add: create_invoice_def db_invoice_def [symmetric] Let_def)
  have "grows (add_invoice db_invoice s) s'"
    using rest
    by (auto elim!: then_do_cases
          dest!: grows_process_invoice_items grows_process_attachments grows_commit
          intro: grows_trans)
  then show ?thesis
    by (blast intro: grows_trans grows_add(8))
qed

lemma grows_process_invoice_try:
  assumes "process_invoice_try e b dp du q n s = (r, s')"
  shows "grows s s'"
proof (cases "find (\<lambda>r. invoice_number r = n) (invoices (flushed s))")
  case (Some existing)
  with assms show ?thesis by (auto simp: process_invoice_try_def)
next
  case None
  obtain ql s1 where g: "get_lpo_for_invoice e q s = (ql, s1)"
    by (cases "get_lpo_for_invoice e q s")
  from tables_get_lpo_for_invoice [OF g] have g1: "grows s s1"
    by (simp add: grows_def)
  show ?thesis
  proof (cases ql)
    case qlNone: None
    with None g assms g1 show ?thesis by (auto simp: process_invoice_try_def)
  next
    case (Some qb_lpo)
    show ?thesis
    proof (cases "truthy (po_DocNumber qb_lpo)")
      case False
      with None g Some assms g1 show ?thesis by (auto simp: process_invoice_try_def)
    next
      case True
      with None g Some assms
      have "then_do (process_lpo e b dp du qb_lpo (fmt (po_DocNumber qb_lpo)) s1)
          (\<lambda>db_lpo s2. create_invoice e b q n db_lpo s2) = (r, s')"
        by (simp add: process_invoice_try_def)
      then have "grows s1 s'"
        by (auto elim!: then_do_cases dest!: grows_process_lpo grows_create_invoice
              intro: grows_trans)
      with g1 show ?thesis by (rule grows_trans)
    qed
  qed
qed

lemma has_defaults_grows:
  "grows s s' \<Longrightarrow> has_defaults (flushed s) \<Longrightarrow> has_defaults (flushed s')"
  by (auto simp: grows_def has_defaults_def)

text \<open>
  An invoice that does not fail leaves the default rows in view; when it succeeds they are
  committed with it, and otherwise nothing is committed.
\<close>

lemma defaults_step:
  assumes step: "process_invoice e b dp du q s = (out, s')"
    and nf: "\<forall>ex. out \<noteq> Failed ex"
    and d: "has_defaults (flushed s)"
  shows "has_defaults (flushed s')
       \<and> (out = Succeeded \<longrightarrow> has_defaults (committed s'))
       \<and> (out \<noteq> Succeeded \<longrightarrow> committed s' = committed s)"
proof (cases "truthy (inv_DocNumber q)")
  case False
  with step d show ?thesis by (auto simp: process_invoice_def)
next
  case True
  obtain r s1 where t: "process_invoice_try e b dp du q (fmt (inv_DocNumber q)) s = (r, s1)"
    by (cases "process_invoice_try e b dp du q (fmt (inv_DocNumber q)) s")
  with True step nf have r: "r = Inr out" and s1: "s1 = s'"
    by (auto simp: process_invoice_def split: sum.splits)
  from grows_process_invoice_try [OF t] d s1 have d': "has_defaults (flushed s')"
    by (auto intro: has_defaults_grows)
  from process_invoice_result [OF step] nf
  have "(out = Succeeded \<longrightarrow> committed s' = flushed s')
      \<and> (out \<noteq> Succeeded \<longrightarrow> committed s' = committed s)"
    by (auto simp: keeps_def)
  with d' show ?thesis by auto
qed

lemma defaults_all:
  assumes "process_all e b dp du qs s = (outs, s')"
    and "\<forall>ex. Failed ex \<notin> set outs"
    and "has_defaults (flushed s)"
  shows "(Succeeded \<in> set outs \<longrightarrow> has_defaults (committed s'))
       \<and> (Succeeded \<notin> set outs \<longrightarrow> committed s' = committed s)"
  using assms
proof (induction qs arbitrary: s outs)
  case Nil
  then show ?case by simp
next
  case (Cons q qs)
  obtain out s1 where st: "process_invoice e b dp du q s = (out, s1)"
    by (cases "process_invoice e b dp du q s")
  obtain outs1 where rest: "process_all e b dp du qs s1 = (outs1, s')" and o: "outs = out # outs1"
    using Cons.prems(1) st by (auto split: prod.splits)
  from o Cons.prems(2) have nf: "\<forall>ex. out \<noteq> Failed ex" and nfs: "\<forall>ex. Failed ex \<notin> set outs1"
    by auto
  note S = defaults_step [OF st nf Cons.prems(3)]
  from S have d1: "has_defaults (flushed s1)" by simp
  note R = Cons.IH [OF rest nfs d1]
  show ?case
  proof (cases "Succeeded \<in> set outs1")
    case True
    with R o show ?thesis by simp
  next
    case False
    with R have c: "committed s' = committed s1" by simp
    show ?thesis
    proof (cases "out = Succeeded")
      case True
      with S c o show ?thesis by simp
    next
      case ns: False
      with S c o False show ?thesis by simp
    qed
  qed
qed

lemma fst_get_lpo_loop: "fst (get_lpo_loop e txns s') = fst (get_lpo_loop e txns s)"
  by (induction txns) (auto split: sum.splits)

lemma fst_get_lpo_for_invoice:
  "fst (get_lpo_for_invoice e q s') = fst (get_lpo_for_invoice e q s)"
  using fst_get_lpo_loop [of e "inv_LinkedTxn q" s' s]
  by (simp add: get_lpo_for_invoice_def)

lemma skips_again_mono:
  assumes "skips_again e q T" and "set (invoices T) \<subseteq> set (invoices T')"
  shows "skips_again e q T'"
  using assms fst_get_lpo_for_invoice [of e q "open_session T'" "open_session T"]
  by (auto simp: skips_again_def)

lemma skipped_try_why:
  assumes "process_invoice_try e b dp du q n s = (Inr (Skipped reason), s')"
  shows "n \<in> invoice_number ` set (invoices (flushed s))
       \<or> (case fst (get_lpo_for_invoice e q s) of
             None \<Rightarrow> True | Some qb_lpo \<Rightarrow> \<not> truthy (po_DocNumber qb_lpo))"
proof (cases "find (\<lambda>r. invoice_number r = n) (invoices (flushed s))")
  case (Some existing)
  then have "n \<in> invoice_number ` set (invoices (flushed s))"
    by (auto simp: find_Some_iff)
  then show ?thesis ..
next
  case None
  obtain ql s1 where g: "get_lpo_for_invoice e q s = (ql, s1)"
    by (cases "get_lpo_for_invoice e q s")
  show ?thesis
  proof (cases ql)
    case qlNone: None
    with g show ?thesis by simp
  next
    case (Some qb_lpo)
    show ?thesis
    proof (cases "truthy (po_DocNumber qb_lpo)")
      case False
      with g Some show ?thesis by simp
    next
      case True
      with None g Some assms have "then_do (process_lpo e b dp du qb_lpo (fmt (po_DocNumber qb_lpo)) s1)
          (\<lambda>db_lpo s2. create_invoice e b q n db_lpo s2) = (Inr (Skipped reason), s')"
        by (simp add: process_invoice_try_def)
      then have False
        by (auto elim!: then_do_cases dest: create_invoice_succeeds)
      then show ?thesis ..
    qed
  qed
qed

text \<open>An invoice that did not fail is one the loop body skips on the rows then committed.\<close>

lemma again_step:
  assumes step: "process_invoice e b dp du q s = (out, s')"
    and nf: "\<forall>ex. out \<noteq> Failed ex"
    and fl: "invoices (flushed s) = invoices (committed s)"
    and pe: "invoices (pending s) = []"
  shows "skips_again e q (committed s')"
proof (cases out)
  case Succeeded
  with imported_step [OF step fl pe] show ?thesis
    by (simp add: skips_again_def)
next
  case (Failed ex)
  with nf show ?thesis by simp
next
  case (Skipped reason)
  with step have sk: "process_invoice e b dp du q s = (Skipped reason, s')" by simp
  note T = skipped_step [OF sk]
  show ?thesis
  proof (cases "truthy (inv_DocNumber q)")
    case False
    then show ?thesis by (simp add: skips_again_def)
  next
    case True
    with sk have "process_invoice_try e b dp du q (fmt (inv_DocNumber q)) s
                     = (Inr (Skipped reason), s')"
      by (auto simp: process_invoice_def split: prod.splits sum.splits)
    from skipped_try_why [OF this] T fl
      fst_get_lpo_for_invoice [of e q "open_session (committed s')" s]
    show ?thesis
      by (auto simp: skips_again_def)
  qed
qed

lemma again_all:
  assumes "process_all e b dp du qs s = (outs, s')"
    and "\<forall>ex. Failed ex \<notin> set outs"
    and "invoices (flushed s) = invoices (committed s)"
    and "invoices (pending s) = []"
  shows "set (invoices (committed s)) \<subseteq> set (invoices (committed s'))
       \<and> (\<forall>q \<in> set qs. skips_again e q (committed s'))"
  using assms
proof (induction qs arbitrary: s outs)
  case Nil
  then show ?case by simp
next
  case (Cons q qs)
  obtain out s1 where st: "process_invoice e b dp du q s = (out, s1)"
    by (cases "process_invoice e b dp du q s")
  obtain outs1 where rest: "process_all e b dp du qs s1 = (outs1, s')" and o: "outs = out # outs1"
    using Cons.prems(1) st by (auto split: prod.splits)
  from o Cons.prems(2) have nf: "\<forall>ex. out \<noteq> Failed ex" and nfs: "\<forall>ex. Failed ex \<notin> set outs1"
    by auto
  note S = imported_step [OF st Cons.prems(3) Cons.prems(4)]
  from S have f1: "invoices (flushed s1) = invoices (committed s1)"
    and p1: "invoices (pending s1) = []"
    by simp_all
  note R = Cons.IH [OF rest nfs f1 p1]
  have "skips_again e q (committed s1)"
    by (rule again_step [OF st nf Cons.prems(3) Cons.prems(4)])
  with R have "skips_again e q (committed s')"
    by (blast intro: skips_again_mono)
  with S R show ?case by auto
qed

text \<open>The loop body skips such an invoice and leaves every table as it was.\<close>

lemma skip_step:
  assumes a: "skips_again e q T" and fl: "invoices (flushed s) = invoices T"
  shows "\<exists>reason s'. process_invoice e b dp du q s = (Skipped reason, s')
           \<and> committed s' = committed s \<and> flushed s' = flushed s \<and> pending s' = pending s"
proof (cases "truthy (inv_DocNumber q)")
  case False
  then show ?thesis by (simp add: process_invoice_def)
next
  case True
  show ?thesis
  proof (cases "fmt (inv_DocNumber q) \<in> invoice_number ` set (invoices (flushed s))")
    case dup: True
    from duplicate_step [OF True dup] show ?thesis by simp
  next
    case False
    then have nf: "find (\<lambda>r. invoice_number r = fmt (inv_DocNumber q)) (invoices (flushed s)) = None"
      by (simp add: find_None_image)
    obtain ql s1 where g: "get_lpo_for_invoice e q s = (ql, s1)"
      by (cases "get_lpo_for_invoice e q s")
    note t = tables_get_lpo_for_invoice [OF g]
    from a True False fl fst_get_lpo_for_invoice [of e q "open_session T" s] g
    have c: "case ql of None \<Rightarrow> True | Some qb_lpo \<Rightarrow> \<not> truthy (po_DocNumber qb_lpo)"
      by (simp add: skips_again_def)
    show ?thesis
    proof (cases ql)
      case None
      with True nf g t show ?thesis
        by (simp add: process_invoice_def process_invoice_try_def)
    next
      case (Some qb_lpo)
      with c have "\<not> truthy (po_DocNumber qb_lpo)" by simp
      with True nf g Some t show ?thesis
        by (simp add: process_invoice_def process_invoice_try_def)
    qed
  qed
qed

lemma skip_all:
  assumes "\<forall>q \<in> set qs. skips_again e q T" and "invoices (flushed s) = invoices T"
  shows "\<exists>outs s'. process_all e b dp du qs s = (outs, s')
           \<and> (\<forall>out \<in> set outs. \<exists>reason. out = Skipped reason)
           \<and> length outs = length qs
           \<and> committed s' = committed s \<and> flushed s' = flushed s \<and> pending s' = pending s"
  using assms
proof (induction qs arbitrary: s)
  case Nil
  then show ?case by simp
next
  case (Cons q qs)
  from Cons.prems have a: "skips_again e q T" and as: "\<forall>q \<in> set qs. skips_again e q T"
    by simp_all
  from skip_step [OF a Cons.prems(2), of b dp du]
  obtain reason s1 where st: "process_invoice e b dp du q s = (Skipped reason, s1)"
    and t: "committed s1 = committed s" "flushed s1 = flushed s" "pending s1 = pending s"
    by blast
  from t Cons.prems(2) have "invoices (flushed s1) = invoices T" by simp
  from Cons.IH [OF as this]
  obtain outs s' where rest: "process_all e b dp du qs s1 = (outs, s')"
    and r: "\<forall>out \<in> set outs. \<exists>reason. out = Skipped reason" "length outs = length qs"
      "committed s' = committed s1" "flushed s' = flushed s1" "pending s' = pending s1"
    by blast
  from st rest have "process_all e b dp du (q # qs) s = (Skipped reason # outs, s')"
    by simp
  with r t show ?case by simp
qed

lemma default_project_found:
  assumes "has_defaults (flushed s)"
  shows "\<exists>p. get_default_project e s = (Inr p, s)"
proof -
  from assms have "''Default Imported Project'' \<in> p_name ` set (projects (flushed s))"
    by (simp add: has_defaults_def)
  from find_Some_image [OF this] show ?thesis
    by (auto simp: get_default_project_def)
qed

lemma default_user_found:
  assumes "has_defaults (flushed s)"
  shows "\<exists>u. get_default_user e s = (Inr u, s)"
proof -
  from assms have "''import_admin@yourcompany.com'' \<in> u_email ` set (users (flushed s))"
    by (simp add: has_defaults_def)
  from find_Some_image [OF this] show ?thesis
    by (auto simp: get_default_user_def)
qed

lemma default_project_in_view:
  assumes "get_default_project e s = (Inr p, s')"
  shows "''Default Imported Project'' \<in> p_name ` set (projects (flushed s'))"
proof (cases "''Default Imported Project'' \<in> p_name ` set (projects (flushed s))")
  case True
  from find_Some_image [OF this] assms True show ?thesis
    by (auto simp: get_default_project_def)
next
  case False
  then have "find (\<lambda>r. p_name r = ''Default Imported Project'') (projects (flushed s)) = None"
    by (simp add: find_None_image)
  with assms show ?thesis
    by (auto simp: get_default_project_def Let_def add_project_def
          elim!: then_do_cases flush_cases)
qed

lemma default_user_in_view:
  assumes "get_default_user e s = (Inr u, s')"
  shows "''import_admin@yourcompany.com'' \<in> u_email ` set (users (flushed s'))
       \<and> set (projects (flushed s)) \<subseteq> set (projects (flushed s'))"
proof (cases "''import_admin@yourcompany.com'' \<in> u_email ` set (users (flushed s))")
  case True
  from find_Some_image [OF this] assms True show ?thesis
    by (auto simp: get_default_user_def)
next
  case False
  then have "find (\<lambda>r. u_email r = ''import_admin@yourcompany.com'') (users (flushed s)) = None"
    by (simp add: find_None_image)
  with assms show ?thesis
    by (auto simp: get_default_user_def Let_def add_user_def
          elim!: then_do_cases flush_cases)
qed

text \<open>
  A run that finished reached the loop with the default rows in view; its connection
  test succeeds in whatever session it is made.
\<close>

lemma finished_run:
  assumes fin: "status (process_imports cfg e limit db) = Finished"
  obtains dp du s4 outs s5 where
        "process_all e (get_azure_blob_service_client cfg e) dp du
           (fst (get_invoices e limit (open_session db))) s4 = (outs, s5)"
      and "committed s4 = db" and "invoices (flushed s4) = invoices db"
      and "invoices (pending s4) = []"
      and "process_imports cfg e limit db = finish Finished outs s5"
      and "has_defaults (flushed s4)"
      and "all_qb_keys_present cfg"
      and "\<forall>s. get_qb_client e s = (True, called CompanyInfo_all s)"
proof -
  from fin have keys: "all_qb_keys_present cfg"
    by (auto simp: process_imports_def split: if_splits)
  define s0 where "s0 = open_session db"
  have t0: "committed s0 = db" "invoices (flushed s0) = invoices db" "invoices (pending s0) = []"
    by (simp_all add: s0_def open_session_def)
  obtain c s1 where qc: "get_qb_client e s0 = (c, s1)"
    by (cases "get_qb_client e s0")
  have t1: "committed s1 = db" "invoices (flushed s1) = invoices db" "invoices (pending s1) = []"
    using tables_get_qb_client [OF qc] t0 by simp_all
  have c: "c"
  proof (rule ccontr)
    assume "\<not> c"
    with keys qc have "status (process_imports cfg e limit db) = ConnectionFailed"
      by (simp add: process_imports_def s0_def [symmetric])
    with fin show False by simp
  qed
  with qc have conn: "\<forall>s. get_qb_client e s = (True, called CompanyInfo_all s)"
    by (auto simp: get_qb_client_def split: sum.splits)
  obtain rp s2 where gp: "get_default_project e s1 = (rp, s2)"
    by (cases "get_default_project e s1")
  have t2: "committed s2 = db" "invoices (flushed s2) = invoices db" "invoices (pending s2) = []"
    using settled_get_default_project [OF gp t1(3)] t1 by simp_all
  obtain default_project where rp: "rp = Inr default_project"
  proof (cases rp)
    case (Inl ex)
    with keys qc c gp have "status (process_imports cfg e limit db) = CriticalError ex"
      by (simp add: process_imports_def s0_def [symmetric])
    with fin show ?thesis by simp
  next
    case (Inr p)
    then show ?thesis by (rule that)
  qed
  obtain ru s3 where gu: "get_default_user e s2 = (ru, s3)"
    by (cases "get_default_user e s2")
  have t3: "committed s3 = db" "invoices (flushed s3) = invoices db"
    "invoices (pending s3) = []"
    using settled_get_default_user [OF gu t2(3)] t2 by simp_all
  obtain default_user where ru: "ru = Inr default_user"
  proof (cases ru)
    case (Inl ex)
    with keys qc c gp rp gu have "status (process_imports cfg e limit db) = CriticalError ex"
      by (simp add: process_imports_def s0_def [symmetric])
    with fin show ?thesis by simp
  next
    case (Inr u)
    then show ?thesis by (rule that)
  qed
  from default_project_in_view [of e s1 default_project s2] gp rp
    default_user_in_view [of e s2 default_user s3] gu ru
  have d3: "has_defaults (flushed s3)"
    by (auto simp: has_defaults_def)
  obtain qs s4 where gi: "get_invoices e limit s3 = (qs, s4)"
    by (cases "get_invoices e limit s3")
  have qs: "qs = fst (get_invoices e limit (open_session db))"
    using gi fst_get_invoices [of e limit s3 "open_session db"] by simp
  have t4: "committed s4 = db" "invoices (flushed s4) = invoices db"
    "invoices (pending s4) = []" "has_defaults (flushed s4)"
    using tables_get_invoices [OF gi] t3 d3 by simp_all
  obtain outs s5 where pa: "process_all e (get_azure_blob_service_client cfg e)
      default_project default_user qs s4 = (outs, s5)"
    by (cases "process_all e (get_azure_blob_service_client cfg e)
      default_project default_user qs s4")
  have "process_imports cfg e limit db = finish Finished outs s5"
    using keys qc c gp rp gu ru gi pa
    by (simp add: process_imports_def s0_def [symmetric] Let_def)
  with pa qs t4 keys conn show ?thesis by (auto intro: that)
qed

text \<open>
  A run on a store that holds the default rows, against a remote list of invoices that
  the loop body skips on that store: it finishes, every invoice is skipped, and the store
  is left as it was.
\<close>

lemma run_all_skipped:
  assumes keys: "all_qb_keys_present cfg"
    and conn: "\<forall>s. get_qb_client e s = (True, called CompanyInfo_all s)"
    and d: "has_defaults T"
    and a: "\<forall>q \<in> set (fst (get_invoices e limit (open_session T))). skips_again e q T"
  shows "status (process_imports cfg e limit T) = Finished
       \<and> store (process_imports cfg e limit T) = T
       \<and> (\<forall>out \<in> set (outcomes (process_imports cfg e limit T)). \<exists>reason. out = Skipped reason)
       \<and> length (outcomes (process_imports cfg e limit T))
           = length (fst (get_invoices e limit (open_session T)))"
proof -
  define s0 where "s0 = open_session T"
  define s1 where "s1 = called CompanyInfo_all s0"
  have qc: "get_qb_client e s0 = (True, s1)"
    using conn by (simp add: s1_def)
  have t1: "committed s1 = T" "flushed s1 = T" "pending s1 = empty_tables"
    by (simp_all add: s1_def s0_def open_session_def called_def)
  from d t1 have d1: "has_defaults (flushed s1)" by simp
  from default_project_found [OF d1] obtain dp where gp: "get_default_project e s1 = (Inr dp, s1)"
    by blast
  from default_user_found [OF d1] obtain du where gu: "get_default_user e s1 = (Inr du, s1)"
    by blast
  obtain qs s4 where gi: "get_invoices e limit s1 = (qs, s4)"
    by (cases "get_invoices e limit s1")
  have qs: "qs = fst (get_invoices e limit (open_session T))"
    using gi fst_get_invoices [of e limit s1 "open_session T"] by simp
  have t4: "committed s4 = T" "flushed s4 = T" "pending s4 = empty_tables"
    using tables_get_invoices [OF gi] t1 by simp_all
  from a qs have a': "\<forall>q \<in> set qs. skips_again e q T" by simp
  from t4 have f4: "invoices (flushed s4) = invoices T" by simp
  from skip_all [OF a' f4, of "get_azure_blob_service_client cfg e" dp du]
  obtain outs s5 where pa: "process_all e (get_azure_blob_service_client cfg e) dp du qs s4
      = (outs, s5)"
    and r: "\<forall>out \<in> set outs. \<exists>reason. out = Skipped reason" "length outs = length qs"
      "committed s5 = committed s4"
    by blast
  have "process_imports cfg e limit T = finish Finished outs s5"
    using keys qc gp gu gi pa
    by (simp add: process_imports_def s0_def [symmetric] Let_def)
  with r t4 qs show ?thesis by simp
qed

text \<open>
  The second of two runs with the same configuration against the same remote data, when
  no invoice failed in the first.
\<close>

lemma rerun_after_no_failure:
  assumes nf: "\<forall>ex. Failed ex \<notin> set (outcomes (process_imports cfg e limit db))"
  shows "store (process_imports cfg e limit (store (process_imports cfg e limit db)))
           = store (process_imports cfg e limit db)
       \<and> (\<forall>out \<in> set (outcomes (process_imports cfg e limit
                                   (store (process_imports cfg e limit db)))).
             \<exists>reason. out = Skipped reason)
       \<and> length (outcomes (process_imports cfg e limit (store (process_imports cfg e limit db))))
           = length (outcomes (process_imports cfg e limit db))
       \<and> status (process_imports cfg e limit (store (process_imports cfg e limit db)))
           = status (process_imports cfg e limit db)"
proof -
  let ?r1 = "process_imports cfg e limit db"
  let ?r2 = "process_imports cfg e limit (store ?r1)"
  have same: "store ?r1 = db \<and> (\<forall>out \<in> set (outcomes ?r1). \<exists>reason. out = Skipped reason)
      \<Longrightarrow> ?thesis"
    by simp
  show ?thesis
  proof (cases "status ?r1 = Finished")
    case False
    have "store ?r1 = db \<and> outcomes ?r1 = []"
    proof (cases "all_qb_keys_present cfg")
      case nk: False
      then show ?thesis by (simp add: process_imports_def)
    next
      case True
      then show ?thesis
      proof (cases rule: run_shape [where e = e and limit = limit and db = db])
        case early
        then show ?thesis by simp
      next
        case (loop dp du s4 outs s5)
        with False show ?thesis by simp
      qed
    qed
    then show ?thesis by (intro same) simp
  next
    case True
    then show ?thesis
    proof (cases rule: finished_run)
      case (1 dp du s4 outs s5)
      from 1(5) nf have nfo: "\<forall>ex. Failed ex \<notin> set outs" by simp
      from 1(5) have st: "store ?r1 = committed s5" and o1: "outcomes ?r1 = outs" by simp_all
      note D = defaults_all [OF 1(1) nfo 1(6)]
      show ?thesis
      proof (cases "Succeeded \<in> set outs")
        case ns: False
        with D 1(2) st have "store ?r1 = db" by simp
        moreover have "\<forall>out \<in> set (outcomes ?r1). \<exists>reason. out = Skipped reason"
        proof
          fix out assume "out \<in> set (outcomes ?r1)"
          with o1 ns nfo show "\<exists>reason. out = Skipped reason"
            by (cases out) auto
        qed
        ultimately show ?thesis by (intro same) simp
      next
        case True
        with D st have d: "has_defaults (store ?r1)" by simp
        from 1(2,3) have fl: "invoices (flushed s4) = invoices (committed s4)" by simp
        from again_all [OF 1(1) nfo fl 1(4)] st
        have "\<forall>q \<in> set (fst (get_invoices e limit (open_session db))). skips_again e q (store ?r1)"
          by simp
        moreover have "fst (get_invoices e limit (open_session (store ?r1)))
            = fst (get_invoices e limit (open_session db))"
          by (rule fst_get_invoices)
        ultimately have a: "\<forall>q \<in> set (fst (get_invoices e limit (open_session (store ?r1)))).
            skips_again e q (store ?r1)"
          by simp
        note R = run_all_skipped [OF 1(7) 1(8) d a]
        from R \<open>fst (get_invoices e limit (open_session (store ?r1)))
            = fst (get_invoices e limit (open_session db))\<close>
          length_process_all [OF 1(1)] o1 \<open>status ?r1 = Finished\<close>
        show ?thesis by simp
      qed
    qed
  qed
qed

section \<open>The claims\<close>

text \<open>
  Claim C1, amended. An invoice whose document number is the invoice_number of an
  Invoice row the queries see is recorded as Skipped ("Already exists") and the session
  is left exactly as it was. A second run does not report every invoice Skipped in
  general: the rows committed for a later invoice can let an invoice that Failed in the
  first run be imported in the second. When no invoice Failed in the first run, the
  second run with the same configuration against the same remote data, on the store the
  first left, leaves that store unchanged, ends as the first did and records every
  invoice as Skipped, one outcome for each outcome of the first run.
\<close>

theorem rerun_skips_all:
  "(truthy (inv_DocNumber q)
      \<and> fmt (inv_DocNumber q) \<in> invoice_number ` set (invoices (flushed s))
    \<longrightarrow> process_invoice e b dp du q s = (Skipped AlreadyExists, s))
   \<and> ((\<forall>ex. Failed ex \<notin> set (outcomes (process_imports cfg e limit db)))
      \<longrightarrow> store (process_imports cfg e limit (store (process_imports cfg e limit db)))
            = store (process_imports cfg e limit db)
          \<and> (\<forall>out \<in> set (outcomes (process_imports cfg e limit
                                      (store (process_imports cfg e limit db)))).
                \<exists>reason. out = Skipped reason)
          \<and> length (outcomes (process_imports cfg e limit
                                (store (process_imports cfg e limit db))))
              = length (outcomes (process_imports cfg e limit db))
          \<and> status (process_imports cfg e limit (store (process_imports cfg e limit db)))
              = status (process_imports cfg e limit db))"
proof (intro conjI impI)
  assume "truthy (inv_DocNumber q)
      \<and> fmt (inv_DocNumber q) \<in> invoice_number ` set (invoices (flushed s))"
  then show "process_invoice e b dp du q s = (Skipped AlreadyExists, s)"
    by (simp add: duplicate_step)
next
  let ?r1 = "process_imports cfg e limit db"
  let ?r2 = "process_imports cfg e limit (store ?r1)"
  assume nf: "\<forall>ex. Failed ex \<notin> set (outcomes ?r1)"
  note R = rerun_after_no_failure [OF nf]
  from R show "store ?r2 = store ?r1" by (rule conjunct1)
  from R show "\<forall>out \<in> set (outcomes ?r2). \<exists>reason. out = Skipped reason"
    by (elim conjE)
  from R show "length (outcomes ?r2) = length (outcomes ?r1)"
    by (elim conjE)
  from R show "status ?r2 = status ?r1"
    by (elim conjE)
qed

theorem rerun_skips_all_witness:
  "outcomes (process_imports demo_config mixed_env None empty_tables)
     = [Succeeded, Skipped NoLinkedLPO]
   \<and> length (invoices (store (process_imports demo_config mixed_env None empty_tables))) = 1
   \<and> store (process_imports demo_config mixed_env None
        (store (process_imports demo_config mixed_env None empty_tables)))
       = store (process_imports demo_config mixed_env None empty_tables)
   \<and> (\<exists>first second. outcomes (process_imports demo_config mixed_env None
          (store (process_imports demo_config mixed_env None empty_tables)))
         = [Skipped first, Skipped second])
   \<and> status (process_imports demo_config mixed_env None
        (store (process_imports demo_config mixed_env None empty_tables))) = Finished"
proof -
  let ?r1 = "process_imports demo_config mixed_env None empty_tables"
  let ?r2 = "process_imports demo_config mixed_env None (store ?r1)"
  have o1: "outcomes ?r1 = [Succeeded, Skipped NoLinkedLPO]" and s1: "status ?r1 = Finished"
    and n1: "length (invoices (store ?r1)) = 1"
    by code_simp+
  from o1 have h: "\<forall>ex. Failed ex \<notin> set (outcomes ?r1)"
    by simp
  from rerun_skips_all [of inv_second "open_session empty_tables" mixed_env False
      demo_project demo_user demo_config None empty_tables] h
  have st: "store ?r2 = store ?r1"
    and sk: "\<forall>out \<in> set (outcomes ?r2). \<exists>reason. out = Skipped reason"
    and len: "length (outcomes ?r2) = length (outcomes ?r1)"
    and fin: "status ?r2 = status ?r1"
    by blast+
  from len o1 obtain x y where xy: "outcomes ?r2 = [x, y]"
    by (auto simp: length_Suc_conv)
  with sk obtain first second where "x = Skipped first" "y = Skipped second"
    by auto
  with xy have "\<exists>first second. outcomes ?r2 = [Skipped first, Skipped second]"
    by simp
  with o1 n1 st fin s1 show ?thesis
    by (simp only: simp_thms)
qed

theorem rerun_not_all_skipped_counterexample:
  "outcomes (process_imports demo_config strict_env None seeded_store)
     = [Failed (Exception ''LPO PO1 has no Supplier (VendorRef).''), Succeeded]
   \<and> outcomes (process_imports demo_config strict_env None
        (store (process_imports demo_config strict_env None seeded_store)))
     = [Succeeded, Skipped AlreadyExists]
   \<and> length (invoices (store (process_imports demo_config strict_env None seeded_store))) = 1
   \<and> length (invoices (store (process_imports demo_config strict_env None
        (store (process_imports demo_config strict_env None seeded_store))))) = 2"
  by code_simp

text \<open>
  Claim C2, amended. An exception raised by the fetch inside the lookup of the linked
  purchase order does not reach the handler of the loop body: the lookup catches it and
  the invoice is Skipped. For every exception that does leave the \<^verbatim>\<open>try\<close> block of an
  invoice (resolution of the supplier, persistence of a header, line item or attachment,
  commit), the transaction is rolled back completely, so that nothing staged for the
  invoice or for its new purchase order survives and the committed rows are those
  committed before; the invoice is recorded as Failed with that exception; and the loop
  goes on with the next invoice, every invoice of the list getting its outcome.
\<close>

theorem failure_isolated:
  assumes "truthy (inv_DocNumber q)"
    and "process_invoice_try e b dp du q (fmt (inv_DocNumber q)) s = (Inl ex, s1)"
  shows "process_invoice e b dp du q s = (Failed ex, rollback s1)
       \<and> committed (rollback s1) = committed s
       \<and> flushed (rollback s1) = committed s
       \<and> pending (rollback s1) = empty_tables
       \<and> process_all e b dp du (q # rest) s
           = (Failed ex # fst (process_all e b dp du rest (rollback s1)),
              snd (process_all e b dp du rest (rollback s1)))
       \<and> length (fst (process_all e b dp du (q # rest) s)) = Suc (length rest)"
proof -
  have p: "process_invoice e b dp du q s = (Failed ex, rollback s1)"
    using assms by (simp add: process_invoice_def)
  have c: "committed s1 = committed s"
    using assms(2) by (rule try_failure_committed)
  obtain outs s2 where r: "process_all e b dp du rest (rollback s1) = (outs, s2)"
    by (cases "process_all e b dp du rest (rollback s1)")
  from length_process_all [OF r] show ?thesis
    using p c r by (simp add: rollback_def)
qed

theorem failure_isolated_witness:
  "truthy (inv_DocNumber inv_broken_line)
   \<and> fst (process_invoice_try demo_env False demo_project demo_user inv_broken_line
           (fmt (inv_DocNumber inv_broken_line)) (open_session empty_tables))
       = Inl (AttributeError ''ItemRef'')
   \<and> length (invoices (pending (snd (process_invoice_try demo_env False demo_project demo_user
        inv_broken_line (fmt (inv_DocNumber inv_broken_line)) (open_session empty_tables))))) = 1
   \<and> length (lpos (flushed (snd (process_invoice_try demo_env False demo_project demo_user
        inv_broken_line (fmt (inv_DocNumber inv_broken_line)) (open_session empty_tables))))) = 1
   \<and> fst (process_invoice demo_env False demo_project demo_user inv_broken_line
           (open_session empty_tables)) = Failed (AttributeError ''ItemRef'')
   \<and> committed (snd (process_invoice demo_env False demo_project demo_user inv_broken_line
           (open_session empty_tables))) = empty_tables
   \<and> flushed (snd (process_invoice demo_env False demo_project demo_user inv_broken_line
           (open_session empty_tables))) = empty_tables
   \<and> pending (snd (process_invoice demo_env False demo_project demo_user inv_broken_line
           (open_session empty_tables))) = empty_tables
   \<and> fst (process_all demo_env False demo_project demo_user [inv_broken_line, inv_second]
           (open_session empty_tables)) = [Failed (AttributeError ''ItemRef''), Succeeded]"
proof -
  let ?t = "process_invoice_try demo_env False demo_project demo_user inv_broken_line
              (fmt (inv_DocNumber inv_broken_line)) (open_session empty_tables)"
  have h1: "truthy (inv_DocNumber inv_broken_line)"
    by code_simp
  have f: "fst ?t = Inl (AttributeError ''ItemRef'')"
    by code_simp
  then have h2: "?t = (Inl (AttributeError ''ItemRef''), snd ?t)"
    by (simp add: prod_eq_iff)
  have staged: "length (invoices (pending (snd ?t))) = 1" "length (lpos (flushed (snd ?t))) = 1"
    by code_simp+
  have next_one: "fst (process_all demo_env False demo_project demo_user [inv_second]
                        (rollback (snd ?t))) = [Succeeded]"
    by code_simp
  have c0: "committed (open_session empty_tables) = empty_tables"
    by (simp add: open_session_def)
  note T = failure_isolated [OF h1 h2, of "[inv_second]"]
  have p: "process_invoice demo_env False demo_project demo_user inv_broken_line
             (open_session empty_tables) = (Failed (AttributeError ''ItemRef''), rollback (snd ?t))"
    using T by blast
  have r: "committed (rollback (snd ?t)) = empty_tables" "flushed (rollback (snd ?t)) = empty_tables"
    "pending (rollback (snd ?t)) = empty_tables"
    using T c0 by simp_all
  have a: "fst (process_all demo_env False demo_project demo_user [inv_broken_line, inv_second]
             (open_session empty_tables)) = [Failed (AttributeError ''ItemRef''), Succeeded]"
    using T next_one by (simp only: fst_conv)
  show ?thesis
    using h1 f staged p r a by (simp only: fst_conv snd_conv simp_thms)
qed

theorem fetch_exception_not_failed_counterexample:
  "po_get demo_env (Some ''9'') = Inl ''503 Service Unavailable''
   \<and> inv_LinkedTxn inv_lost_order = [\<lparr>TxnType = Some ''PurchaseOrder'', TxnId = Some ''9''\<rparr>]
   \<and> process_invoice demo_env False demo_project demo_user inv_lost_order
        (open_session empty_tables)
       = (Skipped NoLinkedLPO, called (PurchaseOrder_get (Some ''9'')) (open_session empty_tables))"
  by code_simp

text \<open>
  The rollback of a failed invoice reaches back to the last commit. In a run on an empty
  store the default project and the default user are flushed before the loop and not
  committed: when the first invoice fails they are rolled back with it, and the purchase
  order and the invoice imported next carry their identifiers although the store holds no
  such rows.
\<close>

lemma default_rows_rolled_back:
  "outcomes (process_imports demo_config demo_env None empty_tables)
     = [Failed (Exception ''LPO PO1 has no Supplier (VendorRef).''), Succeeded]
   \<and> projects (store (process_imports demo_config demo_env None empty_tables)) = []
   \<and> users (store (process_imports demo_config demo_env None empty_tables)) = []
   \<and> map l_project_id (lpos (store (process_imports demo_config demo_env None empty_tables))) = [1]
   \<and> map i_created_by_id (invoices (store (process_imports demo_config demo_env None empty_tables)))
       = [1]"
  by code_simp

text \<open>
  Claim C5. An invoice that has a document number and is not a duplicate, but whose
  linked-transaction list has no entry of type "PurchaseOrder", is recorded as Skipped
  (not as Failed); the session is left exactly as it was, so no Invoice row and no other
  row is persisted for it, and no request is sent.
\<close>

theorem no_linked_order_skipped:
  assumes "truthy (inv_DocNumber q)"
    and "fmt (inv_DocNumber q) \<notin> invoice_number ` set (invoices (flushed s))"
    and "\<forall>txn \<in> set (inv_LinkedTxn q). TxnType txn \<noteq> Some ''PurchaseOrder''"
  shows "process_invoice e b dp du q s = (Skipped NoLinkedLPO, s)"
proof -
  have "find (\<lambda>r. invoice_number r = fmt (inv_DocNumber q)) (invoices (flushed s)) = None"
    using assms(2) by (simp add: find_None_image)
  moreover have "get_lpo_for_invoice e q s = (None, s)"
    using assms(3) by (simp add: get_lpo_for_invoice_def get_lpo_loop_no_po)
  ultimately show ?thesis
    using assms(1) by (simp add: process_invoice_def process_invoice_try_def)
qed

theorem no_linked_order_skipped_witness:
  "truthy (inv_DocNumber inv_unlinked)
   \<and> fmt (inv_DocNumber inv_unlinked)
       \<notin> invoice_number ` set (invoices (flushed (open_session empty_tables)))
   \<and> map TxnType (inv_LinkedTxn inv_unlinked) = [Some ''Estimate'']
   \<and> process_invoice demo_env False demo_project demo_user inv_unlinked
        (open_session empty_tables)
      = (Skipped NoLinkedLPO, open_session empty_tables)"
proof -
  have h1: "truthy (inv_DocNumber inv_unlinked)"
    by (simp add: inv_unlinked_def inv_second_def truthy_def)
  have h2: "fmt (inv_DocNumber inv_unlinked)
       \<notin> invoice_number ` set (invoices (flushed (open_session empty_tables)))"
    by (simp add: open_session_def)
  have h3: "\<forall>txn \<in> set (inv_LinkedTxn inv_unlinked). TxnType txn \<noteq> Some ''PurchaseOrder''"
    by (simp add: inv_unlinked_def inv_second_def)
  have h4: "map TxnType (inv_LinkedTxn inv_unlinked) = [Some ''Estimate'']"
    by (simp add: inv_unlinked_def inv_second_def)
  from no_linked_order_skipped [OF h1 h2 h3] h1 h2 h4 show ?thesis by blast
qed

text \<open>
  Claim C10. When the linked-transaction list has an entry of type "PurchaseOrder" and
  the fetch of that purchase order raises, the lookup returns nothing after that single
  request (no later linked transaction is tried), and the orchestrator records the
  invoice as Skipped, with the same reason as for an invoice without a linked order, not
  as Failed.
\<close>

theorem linked_order_fetch_error_skipped:
  assumes "inv_LinkedTxn q = pre @ txn # post"
    and "\<forall>t \<in> set pre. TxnType t \<noteq> Some ''PurchaseOrder''"
    and "TxnType txn = Some ''PurchaseOrder''"
    and "po_get e (TxnId txn) = Inl err"
  shows "get_lpo_for_invoice e q s = (None, called (PurchaseOrder_get (TxnId txn)) s)
       \<and> (truthy (inv_DocNumber q)
            \<and> fmt (inv_DocNumber q) \<notin> invoice_number ` set (invoices (flushed s))
          \<longrightarrow> process_invoice e b dp du q s
                = (Skipped NoLinkedLPO, called (PurchaseOrder_get (TxnId txn)) s))"
proof -
  have g: "get_lpo_for_invoice e q s = (None, called (PurchaseOrder_get (TxnId txn)) s)"
    using assms by (simp add: get_lpo_for_invoice_def get_lpo_loop_prefix)
  show ?thesis
  proof (intro conjI impI)
    show "get_lpo_for_invoice e q s = (None, called (PurchaseOrder_get (TxnId txn)) s)"
      by (rule g)
  next
    assume a: "truthy (inv_DocNumber q)
            \<and> fmt (inv_DocNumber q) \<notin> invoice_number ` set (invoices (flushed s))"
    then have "find (\<lambda>r. invoice_number r = fmt (inv_DocNumber q)) (invoices (flushed s)) = None"
      by (simp add: find_None_image)
    with a g show "process_invoice e b dp du q s
                = (Skipped NoLinkedLPO, called (PurchaseOrder_get (TxnId txn)) s)"
      by (simp add: process_invoice_def process_invoice_try_def)
  qed
qed

theorem linked_order_fetch_error_skipped_witness:
  "po_get demo_env (Some ''9'') = Inl ''503 Service Unavailable''
   \<and> get_lpo_for_invoice demo_env inv_unreachable_order (open_session empty_tables)
       = (None, called (PurchaseOrder_get (Some ''9'')) (open_session empty_tables))
   \<and> process_invoice demo_env False demo_project demo_user inv_unreachable_order
        (open_session empty_tables)
       = (Skipped NoLinkedLPO, called (PurchaseOrder_get (Some ''9'')) (open_session empty_tables))"
proof -
  let ?txn = "\<lparr>TxnType = Some ''PurchaseOrder'', TxnId = Some ''9''\<rparr>"
  have h1: "inv_LinkedTxn inv_unreachable_order
      = [\<lparr>TxnType = Some ''Estimate'', TxnId = Some ''7''\<rparr>] @ ?txn
          # [\<lparr>TxnType = Some ''PurchaseOrder'', TxnId = Some ''2''\<rparr>]"
    by (simp add: inv_unreachable_order_def inv_second_def)
  have h2: "\<forall>t \<in> set [\<lparr>TxnType = Some ''Estimate'', TxnId = Some ''7''\<rparr>].
              TxnType t \<noteq> Some ''PurchaseOrder''"
    by simp
  have h3: "TxnType ?txn = Some ''PurchaseOrder''"
    by simp
  have h4: "po_get demo_env (TxnId ?txn) = Inl ''503 Service Unavailable''"
    by (simp add: demo_env_def)
  have h5: "truthy (inv_DocNumber inv_unreachable_order)
      \<and> fmt (inv_DocNumber inv_unreachable_order)
          \<notin> invoice_number ` set (invoices (flushed (open_session empty_tables)))"
    by (simp add: inv_unreachable_order_def inv_second_def truthy_def open_session_def)
  from linked_order_fetch_error_skipped [OF h1 h2 h3 h4, of "open_session empty_tables"
      False demo_project demo_user] h4 h5
  show ?thesis by simp
qed

text \<open>
  Claim C8. When any of the five required QuickBooks credentials is absent (unset or
  empty), the run ends at once, before a session is opened: it signals the missing
  credentials (its CRITICAL log records, in place of a summary), sends no request to the
  remote service or to blob storage, and leaves the store as it found it.
\<close>

theorem missing_credentials_abort:
  assumes "\<not> truthy (QB_CLIENT_ID cfg) \<or> \<not> truthy (QB_CLIENT_SECRET cfg)
         \<or> \<not> truthy (QB_ACCESS_TOKEN cfg) \<or> \<not> truthy (QB_REFRESH_TOKEN cfg)
         \<or> \<not> truthy (QB_REALM_ID cfg)"
  shows "process_imports cfg e limit db
       = \<lparr>status = MissingCredentials, outcomes = [], store = db, requests = []\<rparr>"
  using assms by (auto simp: process_imports_def all_qb_keys_present_def)

theorem missing_credentials_abort_witness:
  "\<not> truthy (QB_ACCESS_TOKEN (demo_config\<lparr>QB_ACCESS_TOKEN := Some []\<rparr>))
   \<and> process_imports (demo_config\<lparr>QB_ACCESS_TOKEN := Some []\<rparr>) demo_env None empty_tables
       = \<lparr>status = MissingCredentials, outcomes = [], store = empty_tables, requests = []\<rparr>
   \<and> status (process_imports demo_config demo_env None empty_tables) = Finished"
proof -
  have h: "\<not> truthy (QB_ACCESS_TOKEN (demo_config\<lparr>QB_ACCESS_TOKEN := Some []\<rparr>))"
    by (simp add: truthy_def)
  have f: "status (process_imports demo_config demo_env None empty_tables) = Finished"
    by code_simp
  from missing_credentials_abort [of "demo_config\<lparr>QB_ACCESS_TOKEN := Some []\<rparr>"
      demo_env None empty_tables] h f
  show ?thesis by blast
qed

text \<open>
  Claim C9. Every Invoice row that a run adds to the store references a purchase-order
  row of the store, and carries the supplier, project and user references of that
  purchase order; and an invoice for which the lookup of the linked order returns
  nothing is recorded as Skipped with every table of the session unchanged.
\<close>

theorem invoices_reference_their_order:
  "(\<forall>r \<in> set (invoices (store (process_imports cfg e limit db))).
      r \<in> set (invoices db)
      \<or> (\<exists>l \<in> set (lpos (store (process_imports cfg e limit db))).
           i_lpo_id r = Some (l_id l)
           \<and> i_supplier_id r = l_supplier_id l
           \<and> i_project_id r = l_project_id l
           \<and> i_created_by_id r = l_created_by_id l))
   \<and> (fst (get_lpo_for_invoice e q s) = None
      \<longrightarrow> (\<exists>reason s'. process_invoice e b dp du q s = (Skipped reason, s')
             \<and> committed s' = committed s \<and> flushed s' = flushed s
             \<and> pending s' = pending s))"
proof (intro conjI impI)
  show "\<forall>r \<in> set (invoices (store (process_imports cfg e limit db))).
      r \<in> set (invoices db)
      \<or> (\<exists>l \<in> set (lpos (store (process_imports cfg e limit db))).
           i_lpo_id r = Some (l_id l)
           \<and> i_supplier_id r = l_supplier_id l
           \<and> i_project_id r = l_project_id l
           \<and> i_created_by_id r = l_created_by_id l)"
    using run_links [of cfg e limit db] by (simp add: linked_def)
next
  assume "fst (get_lpo_for_invoice e q s) = None"
  then obtain s1 where g: "get_lpo_for_invoice e q s = (None, s1)"
    by (cases "get_lpo_for_invoice e q s") simp
  from tables_get_lpo_for_invoice [OF g] g
  show "\<exists>reason s'. process_invoice e b dp du q s = (Skipped reason, s')
             \<and> committed s' = committed s \<and> flushed s' = flushed s
             \<and> pending s' = pending s"
    by (auto simp: process_invoice_def process_invoice_try_def split: option.splits)
qed

theorem invoices_reference_their_order_witness:
  "(\<exists>r l. invoices (store (process_imports demo_config demo_env None empty_tables)) = [r]
        \<and> l \<in> set (lpos (store (process_imports demo_config demo_env None empty_tables)))
        \<and> i_lpo_id r = Some (l_id l)
        \<and> i_supplier_id r = l_supplier_id l
        \<and> i_project_id r = l_project_id l
        \<and> i_created_by_id r = l_created_by_id l)
   \<and> fst (get_lpo_for_invoice demo_env inv_unlinked (open_session empty_tables)) = None
   \<and> (\<exists>reason s'. process_invoice demo_env False demo_project demo_user inv_unlinked
                     (open_session empty_tables) = (Skipped reason, s')
          \<and> committed s' = committed (open_session empty_tables)
          \<and> flushed s' = flushed (open_session empty_tables)
          \<and> pending s' = pending (open_session empty_tables))"
proof -
  have "length (invoices (store (process_imports demo_config demo_env None empty_tables))) = 1"
    by code_simp
  then obtain r where
    r: "invoices (store (process_imports demo_config demo_env None empty_tables)) = [r]"
    by (auto simp: length_Suc_conv)
  have h: "fst (get_lpo_for_invoice demo_env inv_unlinked (open_session empty_tables)) = None"
    by code_simp
  from invoices_reference_their_order [of demo_config demo_env None empty_tables
      inv_unlinked "open_session empty_tables" False demo_project demo_user] r h
  show ?thesis by auto
qed




text \<open>
  Claim C4. Every line-item row that the assembler adds, for a purchase order or for an
  invoice, comes from an item-based line of the remote record; when that line's tax code
  is "NON" the row's tax_rate is 0, and when it is any other non-empty code the row's
  tax_rate is 5/100.
\<close>

theorem line_tax_rates:
  "(process_lpo_items e qb_lpo db_lpo s = (r, s')
    \<longrightarrow> (\<forall>row \<in> set (lpo_items (all_rows s')) - set (lpo_items (all_rows s)).
           \<exists>line \<in> set (po_Line qb_lpo). \<exists>d.
             ItemBasedExpenseLineDetail line = Some d
             \<and> li_description row = Description line
             \<and> (\<forall>ref c. TaxCodeRef d = Some ref \<and> ref_value ref = Some c
                  \<longrightarrow> (c = ''NON'' \<longrightarrow> li_tax_rate row = Some 0)
                      \<and> (c \<noteq> ''NON'' \<and> c \<noteq> [] \<longrightarrow> li_tax_rate row = Some (5 / 100)))))
   \<and> (process_invoice_items e qb_invoice db_invoice t = (r2, t')
    \<longrightarrow> (\<forall>row \<in> set (invoice_items (all_rows t')) - set (invoice_items (all_rows t)).
           \<exists>line \<in> set (inv_Line qb_invoice). \<exists>d.
             SalesItemLineDetail line = Some d
             \<and> ii_description row = Description line
             \<and> (\<forall>ref c. TaxCodeRef d = Some ref \<and> ref_value ref = Some c
                  \<longrightarrow> (c = ''NON'' \<longrightarrow> ii_tax_rate row = Some 0)
                      \<and> (c \<noteq> ''NON'' \<and> c \<noteq> [] \<longrightarrow> ii_tax_rate row = Some (5 / 100)))))"
proof (intro conjI impI ballI)
  fix row
  assume p: "process_lpo_items e qb_lpo db_lpo s = (r, s')"
    and new: "row \<in> set (lpo_items (all_rows s')) - set (lpo_items (all_rows s))"
  have "\<exists>rows. lpo_items (all_rows s') = lpo_items (all_rows s) @ rows
           \<and> (\<forall>row \<in> set rows. \<exists>line \<in> set (po_Line qb_lpo). \<exists>d.
                 ItemBasedExpenseLineDetail line = Some d
                 \<and> li_description row = Description line
                 \<and> li_tax_rate row = Some (line_tax_rate d))"
  proof (cases "po_Line qb_lpo = []")
    case True
    with p show ?thesis by (simp add: process_lpo_items_def)
  next
    case False
    with p have "process_lpo_lines e (po_Line qb_lpo) db_lpo s = (r, s')"
      by (simp add: process_lpo_items_def)
    then show ?thesis by (rule lpo_lines_result)
  qed
  then obtain rows where rows: "lpo_items (all_rows s') = lpo_items (all_rows s) @ rows"
    "\<forall>row \<in> set rows. \<exists>line \<in> set (po_Line qb_lpo). \<exists>d.
        ItemBasedExpenseLineDetail line = Some d
        \<and> li_description row = Description line
        \<and> li_tax_rate row = Some (line_tax_rate d)"
    by blast
  from new rows(1) have "row \<in> set rows" by auto
  with rows(2) obtain line d where "line \<in> set (po_Line qb_lpo)"
    "ItemBasedExpenseLineDetail line = Some d" "li_description row = Description line"
    "li_tax_rate row = Some (line_tax_rate d)"
    by blast
  then show "\<exists>line \<in> set (po_Line qb_lpo). \<exists>d.
             ItemBasedExpenseLineDetail line = Some d
             \<and> li_description row = Description line
             \<and> (\<forall>ref c. TaxCodeRef d = Some ref \<and> ref_value ref = Some c
                  \<longrightarrow> (c = ''NON'' \<longrightarrow> li_tax_rate row = Some 0)
                      \<and> (c \<noteq> ''NON'' \<and> c \<noteq> [] \<longrightarrow> li_tax_rate row = Some (5 / 100)))"
    by (intro bexI [of _ line] exI [of _ d]) (auto simp: line_tax_rate_code)
next
  fix row
  assume p: "process_invoice_items e qb_invoice db_invoice t = (r2, t')"
    and new: "row \<in> set (invoice_items (all_rows t')) - set (invoice_items (all_rows t))"
  have "\<exists>rows. invoice_items (all_rows t') = invoice_items (all_rows t) @ rows
           \<and> (\<forall>row \<in> set rows. \<exists>line \<in> set (inv_Line qb_invoice). \<exists>d.
                 SalesItemLineDetail line = Some d
                 \<and> ii_description row = Description line
                 \<and> ii_tax_rate row = Some (line_tax_rate d))"
  proof (cases "inv_Line qb_invoice = []")
    case True
    with p show ?thesis by (simp add: process_invoice_items_def)
  next
    case False
    with p have "process_invoice_lines e (inv_Line qb_invoice) db_invoice t = (r2, t')"
      by (simp add: process_invoice_items_def)
    then show ?thesis by (rule invoice_lines_result)
  qed
  then obtain rows where rows: "invoice_items (all_rows t') = invoice_items (all_rows t) @ rows"
    "\<forall>row \<in> set rows. \<exists>line \<in> set (inv_Line qb_invoice). \<exists>d.
        SalesItemLineDetail line = Some d
        \<and> ii_description row = Description line
        \<and> ii_tax_rate row = Some (line_tax_rate d)"
    by blast
  from new rows(1) have "row \<in> set rows" by auto
  with rows(2) obtain line d where "line \<in> set (inv_Line qb_invoice)"
    "SalesItemLineDetail line = Some d" "ii_description row = Description line"
    "ii_tax_rate row = Some (line_tax_rate d)"
    by blast
  then show "\<exists>line \<in> set (inv_Line qb_invoice). \<exists>d.
             SalesItemLineDetail line = Some d
             \<and> ii_description row = Description line
             \<and> (\<forall>ref c. TaxCodeRef d = Some ref \<and> ref_value ref = Some c
                  \<longrightarrow> (c = ''NON'' \<longrightarrow> ii_tax_rate row = Some 0)
                      \<and> (c \<noteq> ''NON'' \<and> c \<noteq> [] \<longrightarrow> ii_tax_rate row = Some (5 / 100)))"
    by (intro bexI [of _ line] exI [of _ d]) (auto simp: line_tax_rate_code)
qed

theorem line_tax_rates_witness:
  "(\<exists>row. lpo_items (all_rows (snd (process_lpo_items demo_env
              (po_acme\<lparr>po_Line := [line_taxed]\<rparr>) demo_lpo (open_session empty_tables)))) = [row]
          \<and> li_tax_rate row = Some (5 / 100))
   \<and> (\<exists>row. invoice_items (all_rows (snd (process_invoice_items demo_env
              (inv_second\<lparr>inv_Line := [sales_line_untaxed]\<rparr>) demo_invoice
              (open_session empty_tables)))) = [row]
          \<and> ii_tax_rate row = Some 0)"
proof -
  let ?s0 = "open_session empty_tables"
  let ?p = "process_lpo_items demo_env (po_acme\<lparr>po_Line := [line_taxed]\<rparr>) demo_lpo ?s0"
  let ?i = "process_invoice_items demo_env (inv_second\<lparr>inv_Line := [sales_line_untaxed]\<rparr>)
              demo_invoice ?s0"
  have e0: "lpo_items (all_rows ?s0) = []" "invoice_items (all_rows ?s0) = []"
    by (simp_all add: all_rows_def open_session_def)
  have "length (lpo_items (all_rows (snd ?p))) = 1" "length (invoice_items (all_rows (snd ?i))) = 1"
    by code_simp+
  then obtain a c where a: "lpo_items (all_rows (snd ?p)) = [a]"
    and c: "invoice_items (all_rows (snd ?i)) = [c]"
    by (auto simp: length_Suc_conv)
  note T = line_tax_rates [of demo_env "po_acme\<lparr>po_Line := [line_taxed]\<rparr>" demo_lpo ?s0
      "fst ?p" "snd ?p" "inv_second\<lparr>inv_Line := [sales_line_untaxed]\<rparr>" demo_invoice ?s0
      "fst ?i" "snd ?i"]
  from a e0 have "a \<in> set (lpo_items (all_rows (snd ?p))) - set (lpo_items (all_rows ?s0))"
    by simp
  with T have "\<exists>d. ItemBasedExpenseLineDetail line_taxed = Some d
      \<and> (\<forall>ref c. TaxCodeRef d = Some ref \<and> ref_value ref = Some c
           \<longrightarrow> (c = ''NON'' \<longrightarrow> li_tax_rate a = Some 0)
               \<and> (c \<noteq> ''NON'' \<and> c \<noteq> [] \<longrightarrow> li_tax_rate a = Some (5 / 100)))"
    by auto
  then have ra: "li_tax_rate a = Some (5 / 100)"
    by (auto simp: line_taxed_def)
  from c e0 have "c \<in> set (invoice_items (all_rows (snd ?i))) - set (invoice_items (all_rows ?s0))"
    by simp
  with T have "\<exists>d. SalesItemLineDetail sales_line_untaxed = Some d
      \<and> (\<forall>ref k. TaxCodeRef d = Some ref \<and> ref_value ref = Some k
           \<longrightarrow> (k = ''NON'' \<longrightarrow> ii_tax_rate c = Some 0)
               \<and> (k \<noteq> ''NON'' \<and> k \<noteq> [] \<longrightarrow> ii_tax_rate c = Some (5 / 100)))"
    by auto
  then have rc: "ii_tax_rate c = Some 0"
    by (auto simp: sales_line_untaxed_def)
  from a c ra rc show ?thesis by simp
qed

text \<open>
  Claim C6. Supplier resolution fails with a ValueError, changing nothing, when the
  vendor's display name is empty. When a Supplier row with that name is visible it
  returns such a row and changes nothing. Otherwise, when the store accepts the flush, it
  returns a new row with that name and an identifier no other supplier row has, and the
  row is flushed, so that queries see it. A later resolution of a vendor with the same
  display name, in any session that sees the same supplier rows, returns the same row
  and changes nothing, and exactly one Supplier row carries the name.
\<close>

theorem supplier_resolution:
  "(\<not> truthy (DisplayName v)
    \<longrightarrow> get_or_create_supplier e v s
        = (Inl (ValueError (''QB Supplier ID '' @ fmt (v_Id v) @ '' has no DisplayName.'')), s))
   \<and> (truthy (DisplayName v) \<and> fmt (DisplayName v) \<in> s_name ` set (suppliers (flushed s))
    \<longrightarrow> (\<exists>row \<in> set (suppliers (flushed s)). s_name row = fmt (DisplayName v)
           \<and> get_or_create_supplier e v s = (Inr row, s)))
   \<and> (truthy (DisplayName v) \<and> fmt (DisplayName v) \<notin> s_name ` set (suppliers (flushed s))
        \<and> (\<forall>rows. db_error e (flushed s) rows = None)
    \<longrightarrow> (\<exists>row s'. get_or_create_supplier e v s = (Inr row, s')
           \<and> s_name row = fmt (DisplayName v)
           \<and> s_id row \<notin> s_id ` set (suppliers (all_rows s))
           \<and> row \<in> set (suppliers (flushed s'))
           \<and> suppliers (all_rows s') = suppliers (all_rows s) @ [row]))
   \<and> (get_or_create_supplier e v s = (Inr row1, s1) \<and> DisplayName v2 = DisplayName v
        \<and> fmt (DisplayName v) \<notin> s_name ` set (suppliers (pending s))
        \<and> suppliers (flushed s2) = suppliers (flushed s1)
    \<longrightarrow> get_or_create_supplier e v2 s2 = (Inr row1, s2)
        \<and> (fmt (DisplayName v) \<notin> s_name ` set (suppliers (flushed s))
           \<longrightarrow> filter (\<lambda>r. s_name r = fmt (DisplayName v)) (suppliers (flushed s2)) = [row1]))"
proof -
  let ?n = "fmt (DisplayName v)"
  have A: "\<not> truthy (DisplayName v)
    \<longrightarrow> get_or_create_supplier e v s
        = (Inl (ValueError (''QB Supplier ID '' @ fmt (v_Id v) @ '' has no DisplayName.'')), s)"
    by (simp add: get_or_create_supplier_def)
  have B: "truthy (DisplayName v) \<and> ?n \<in> s_name ` set (suppliers (flushed s))
    \<longrightarrow> (\<exists>row \<in> set (suppliers (flushed s)). s_name row = ?n
           \<and> get_or_create_supplier e v s = (Inr row, s))"
  proof
    assume a: "truthy (DisplayName v) \<and> ?n \<in> s_name ` set (suppliers (flushed s))"
    then obtain row where "find (\<lambda>r. s_name r = ?n) (suppliers (flushed s)) = Some row"
      "row \<in> set (suppliers (flushed s))" "s_name row = ?n"
      using find_Some_image [of ?n s_name "suppliers (flushed s)"] by blast
    with a show "\<exists>row \<in> set (suppliers (flushed s)). s_name row = ?n
           \<and> get_or_create_supplier e v s = (Inr row, s)"
      by (auto simp: get_or_create_supplier_def)
  qed
  have C: "truthy (DisplayName v) \<and> ?n \<notin> s_name ` set (suppliers (flushed s))
        \<and> (\<forall>rows. db_error e (flushed s) rows = None)
    \<longrightarrow> (\<exists>row s'. get_or_create_supplier e v s = (Inr row, s')
           \<and> s_name row = ?n
           \<and> s_id row \<notin> s_id ` set (suppliers (all_rows s))
           \<and> row \<in> set (suppliers (flushed s'))
           \<and> suppliers (all_rows s') = suppliers (all_rows s) @ [row])"
  proof
    assume a: "truthy (DisplayName v) \<and> ?n \<notin> s_name ` set (suppliers (flushed s))
        \<and> (\<forall>rows. db_error e (flushed s) rows = None)"
    then have f: "find (\<lambda>r. s_name r = ?n) (suppliers (flushed s)) = None"
      by (simp add: find_None_image)
    with a obtain row s' where g: "get_or_create_supplier e v s = (Inr row, s')"
      by (auto simp: get_or_create_supplier_def Let_def flush_def add_supplier_def)
    from supplier_created [OF _ _ g] a
    have "s_name row = ?n" "s_id row \<notin> s_id ` set (suppliers (all_rows s))"
      "suppliers (flushed s') = suppliers (flushed s) @ suppliers (pending s) @ [row]"
      "suppliers (pending s') = []"
      by simp_all
    with g show "\<exists>row s'. get_or_create_supplier e v s = (Inr row, s')
           \<and> s_name row = ?n
           \<and> s_id row \<notin> s_id ` set (suppliers (all_rows s))
           \<and> row \<in> set (suppliers (flushed s'))
           \<and> suppliers (all_rows s') = suppliers (all_rows s) @ [row]"
      by (auto simp: all_rows_def)
  qed
  have D: "get_or_create_supplier e v s = (Inr row1, s1) \<and> DisplayName v2 = DisplayName v
        \<and> ?n \<notin> s_name ` set (suppliers (pending s))
        \<and> suppliers (flushed s2) = suppliers (flushed s1)
    \<longrightarrow> get_or_create_supplier e v2 s2 = (Inr row1, s2)
        \<and> (?n \<notin> s_name ` set (suppliers (flushed s))
           \<longrightarrow> filter (\<lambda>r. s_name r = ?n) (suppliers (flushed s2)) = [row1])"
  proof
    assume a: "get_or_create_supplier e v s = (Inr row1, s1) \<and> DisplayName v2 = DisplayName v
        \<and> ?n \<notin> s_name ` set (suppliers (pending s))
        \<and> suppliers (flushed s2) = suppliers (flushed s1)"
    then have g: "get_or_create_supplier e v s = (Inr row1, s1)" by simp
    from resolver_returns_truthy(1) [OF g] have t: "truthy (DisplayName v)" .
    show "get_or_create_supplier e v2 s2 = (Inr row1, s2)
        \<and> (?n \<notin> s_name ` set (suppliers (flushed s))
           \<longrightarrow> filter (\<lambda>r. s_name r = ?n) (suppliers (flushed s2)) = [row1])"
    proof (cases "?n \<in> s_name ` set (suppliers (flushed s))")
      case True
      then obtain row where f: "find (\<lambda>r. s_name r = ?n) (suppliers (flushed s)) = Some row"
        using find_Some_image [of ?n s_name "suppliers (flushed s)"] by blast
      with t g have "row1 = row" "s1 = s"
        by (simp_all add: get_or_create_supplier_def)
      with t f a True show ?thesis
        by (simp add: get_or_create_supplier_def)
    next
      case False
      note c = supplier_created [OF t False g]
      from a False have "?n \<notin> s_name ` set (suppliers (flushed s) @ suppliers (pending s))"
        by auto
      with c have "find (\<lambda>r. s_name r = ?n) (suppliers (flushed s1)) = Some row1"
        "filter (\<lambda>r. s_name r = ?n) (suppliers (flushed s1)) = [row1]"
        using find_append_new [of ?n s_name "suppliers (flushed s) @ suppliers (pending s)" row1]
          filter_append_new [of ?n s_name "suppliers (flushed s) @ suppliers (pending s)" row1]
        by simp_all
      with t a show ?thesis
        by (simp add: get_or_create_supplier_def)
    qed
  qed
  from A B C D show ?thesis by (intro conjI)
qed

theorem supplier_resolution_witness:
  "(\<exists>msg. get_or_create_supplier demo_env (vendor_acme\<lparr>DisplayName := Some []\<rparr>)
            (open_session empty_tables) = (Inl (ValueError msg), open_session empty_tables))
   \<and> (\<exists>row s1. get_or_create_supplier demo_env vendor_acme (open_session empty_tables)
                  = (Inr row, s1)
          \<and> s_name row = ''Acme''
          \<and> suppliers (flushed s1) = [row]
          \<and> get_or_create_supplier demo_env vendor_acme_again s1 = (Inr row, s1))
   \<and> map s_name (suppliers (store (process_imports demo_config twin_env None empty_tables)))
       = [''Acme'']
   \<and> map lpo_number (lpos (store (process_imports demo_config twin_env None empty_tables)))
       = [''PO1'', ''PO2'']
   \<and> map l_supplier_id (lpos (store (process_imports demo_config twin_env None empty_tables)))
       = [1, 1]"
proof -
  let ?s0 = "open_session empty_tables"
  let ?bad = "vendor_acme\<lparr>DisplayName := Some []\<rparr>"
  have nt: "\<not> truthy (DisplayName ?bad)"
    by (simp add: truthy_def)
  have h: "truthy (DisplayName vendor_acme)
      \<and> fmt (DisplayName vendor_acme) \<notin> s_name ` set (suppliers (flushed ?s0))
      \<and> (\<forall>rows. db_error demo_env (flushed ?s0) rows = None)"
    by (simp add: vendor_acme_def truthy_def open_session_def demo_env_def)
  have nm: "fmt (DisplayName vendor_acme) = ''Acme''"
    "DisplayName vendor_acme_again = DisplayName vendor_acme"
    "fmt (DisplayName vendor_acme) \<notin> s_name ` set (suppliers (pending ?s0))"
    "fmt (DisplayName vendor_acme) \<notin> s_name ` set (suppliers (flushed ?s0))"
    by (simp_all add: vendor_acme_def vendor_acme_again_def fmt_def open_session_def)
  have run: "map s_name (suppliers (store (process_imports demo_config twin_env None empty_tables)))
       = [''Acme'']"
    "map lpo_number (lpos (store (process_imports demo_config twin_env None empty_tables)))
       = [''PO1'', ''PO2'']"
    "map l_supplier_id (lpos (store (process_imports demo_config twin_env None empty_tables)))
       = [1, 1]"
    by code_simp+
  from supplier_resolution [of ?bad demo_env ?s0] nt
  have e1: "\<exists>msg. get_or_create_supplier demo_env ?bad ?s0 = (Inl (ValueError msg), ?s0)"
    by blast
  from supplier_resolution [of vendor_acme demo_env ?s0] h
  obtain row s1 where g: "get_or_create_supplier demo_env vendor_acme ?s0 = (Inr row, s1)"
    and n: "s_name row = fmt (DisplayName vendor_acme)"
    by blast
  from supplier_resolution [of vendor_acme demo_env ?s0 row s1 vendor_acme_again s1] g nm
  have again: "get_or_create_supplier demo_env vendor_acme_again s1 = (Inr row, s1)"
    and one: "filter (\<lambda>r. s_name r = fmt (DisplayName vendor_acme)) (suppliers (flushed s1)) = [row]"
    by blast+
  have "suppliers (flushed s1) = [row]"
    using supplier_created [OF _ _ g] h by (simp add: open_session_def)
  with e1 g n nm again run show ?thesis by auto
qed

text \<open>
  Claim C7. A Material row that resolution creates has as unit "service" for the remote
  type "Service", "each" for "Inventory" and "nos" for anything else, whatever else the
  remote item carries; it is created whenever no row has the name and the store accepts
  the flush. Once a Material row with the name is visible, resolution returns such a
  row, unit included, and changes nothing, whatever the remote type now is.
\<close>

theorem material_resolution:
  "(get_or_create_material e i s = (Inr row, s')
        \<and> fmt (item_Name i) \<notin> m_name ` set (materials (flushed s))
    \<longrightarrow> m_name row = fmt (item_Name i)
        \<and> m_unit row = (if item_Type i = Some ''Service'' then ''service''
                        else if item_Type i = Some ''Inventory'' then ''each'' else ''nos'')
        \<and> row \<in> set (materials (flushed s')))
   \<and> (truthy (item_Name i) \<and> fmt (item_Name i) \<notin> m_name ` set (materials (flushed s))
        \<and> (\<forall>rows. db_error e (flushed s) rows = None)
    \<longrightarrow> (\<exists>row s'. get_or_create_material e i s = (Inr row, s')))
   \<and> (truthy (item_Name i) \<and> fmt (item_Name i) \<in> m_name ` set (materials (flushed s))
    \<longrightarrow> (\<exists>row \<in> set (materials (flushed s)). m_name row = fmt (item_Name i)
           \<and> (\<forall>ty. get_or_create_material e (i\<lparr>item_Type := ty\<rparr>) s = (Inr row, s))))
   \<and> (get_or_create_material e i s = (Inr row, s')
        \<and> fmt (item_Name i) \<notin> m_name ` set (materials (pending s))
        \<and> materials (flushed s2) = materials (flushed s')
    \<longrightarrow> (\<forall>ty. get_or_create_material e (i\<lparr>item_Type := ty\<rparr>) s2 = (Inr row, s2)))"
proof -
  let ?n = "fmt (item_Name i)"
  have A: "get_or_create_material e i s = (Inr row, s')
        \<and> ?n \<notin> m_name ` set (materials (flushed s))
    \<longrightarrow> m_name row = ?n
        \<and> m_unit row = (if item_Type i = Some ''Service'' then ''service''
                        else if item_Type i = Some ''Inventory'' then ''each'' else ''nos'')
        \<and> row \<in> set (materials (flushed s'))"
  proof
    assume a: "get_or_create_material e i s = (Inr row, s')
        \<and> ?n \<notin> m_name ` set (materials (flushed s))"
    then have g: "get_or_create_material e i s = (Inr row, s')" by simp
    from material_created [OF resolver_returns_truthy(2) [OF g] _ g] a
    show "m_name row = ?n
        \<and> m_unit row = (if item_Type i = Some ''Service'' then ''service''
                        else if item_Type i = Some ''Inventory'' then ''each'' else ''nos'')
        \<and> row \<in> set (materials (flushed s'))"
      by simp
  qed
  have B: "truthy (item_Name i) \<and> ?n \<notin> m_name ` set (materials (flushed s))
        \<and> (\<forall>rows. db_error e (flushed s) rows = None)
    \<longrightarrow> (\<exists>row s'. get_or_create_material e i s = (Inr row, s'))"
  proof
    assume a: "truthy (item_Name i) \<and> ?n \<notin> m_name ` set (materials (flushed s))
        \<and> (\<forall>rows. db_error e (flushed s) rows = None)"
    then have "find (\<lambda>r. m_name r = ?n) (materials (flushed s)) = None"
      by (simp add: find_None_image)
    with a show "\<exists>row s'. get_or_create_material e i s = (Inr row, s')"
      by (simp add: get_or_create_material_def Let_def flush_def add_material_def)
  qed
  have C: "truthy (item_Name i) \<and> ?n \<in> m_name ` set (materials (flushed s))
    \<longrightarrow> (\<exists>row \<in> set (materials (flushed s)). m_name row = ?n
           \<and> (\<forall>ty. get_or_create_material e (i\<lparr>item_Type := ty\<rparr>) s = (Inr row, s)))"
  proof
    assume a: "truthy (item_Name i) \<and> ?n \<in> m_name ` set (materials (flushed s))"
    then obtain row where "find (\<lambda>r. m_name r = ?n) (materials (flushed s)) = Some row"
      "row \<in> set (materials (flushed s))" "m_name row = ?n"
      using find_Some_image [of ?n m_name "materials (flushed s)"] by blast
    with a show "\<exists>row \<in> set (materials (flushed s)). m_name row = ?n
           \<and> (\<forall>ty. get_or_create_material e (i\<lparr>item_Type := ty\<rparr>) s = (Inr row, s))"
      by (auto simp: get_or_create_material_def)
  qed
  have D: "get_or_create_material e i s = (Inr row, s')
        \<and> ?n \<notin> m_name ` set (materials (pending s))
        \<and> materials (flushed s2) = materials (flushed s')
    \<longrightarrow> (\<forall>ty. get_or_create_material e (i\<lparr>item_Type := ty\<rparr>) s2 = (Inr row, s2))"
  proof
    assume a: "get_or_create_material e i s = (Inr row, s')
        \<and> ?n \<notin> m_name ` set (materials (pending s))
        \<and> materials (flushed s2) = materials (flushed s')"
    then have g: "get_or_create_material e i s = (Inr row, s')" by simp
    from resolver_returns_truthy(2) [OF g] have t: "truthy (item_Name i)" .
    have "find (\<lambda>r. m_name r = ?n) (materials (flushed s')) = Some row"
    proof (cases "?n \<in> m_name ` set (materials (flushed s))")
      case True
      then obtain r0 where f: "find (\<lambda>r. m_name r = ?n) (materials (flushed s)) = Some r0"
        using find_Some_image [of ?n m_name "materials (flushed s)"] by blast
      with t g have "row = r0" "s' = s"
        by (simp_all add: get_or_create_material_def)
      with f show ?thesis by simp
    next
      case False
      note c = material_created [OF t False g]
      from a False have "?n \<notin> m_name ` set (materials (flushed s) @ materials (pending s))"
        by auto
      with c show ?thesis
        using find_append_new [of ?n m_name "materials (flushed s) @ materials (pending s)" row]
        by simp
    qed
    with t a show "\<forall>ty. get_or_create_material e (i\<lparr>item_Type := ty\<rparr>) s2 = (Inr row, s2)"
      by (simp add: get_or_create_material_def)
  qed
  from A B C D show ?thesis by (intro conjI)
qed

theorem material_resolution_witness:
  "\<exists>row s'. get_or_create_material demo_env item_cement (open_session empty_tables)
              = (Inr row, s')
      \<and> m_name row = ''Cement'' \<and> m_unit row = ''each''
      \<and> row \<in> set (materials (flushed s'))
      \<and> get_or_create_material demo_env (item_cement\<lparr>item_Type := Some ''Service''\<rparr>) s'
          = (Inr row, s')"
proof -
  let ?s0 = "open_session empty_tables"
  have h: "truthy (item_Name item_cement)
      \<and> fmt (item_Name item_cement) \<notin> m_name ` set (materials (flushed ?s0))
      \<and> (\<forall>rows. db_error demo_env (flushed ?s0) rows = None)"
    by (simp add: item_cement_def truthy_def open_session_def demo_env_def)
  have nm: "fmt (item_Name item_cement) = ''Cement''" "item_Type item_cement = Some ''Inventory''"
    "fmt (item_Name item_cement) \<notin> m_name ` set (materials (pending ?s0))"
    by (simp_all add: item_cement_def fmt_def open_session_def)
  from material_resolution [of demo_env item_cement ?s0] h
  obtain row s' where g: "get_or_create_material demo_env item_cement ?s0 = (Inr row, s')"
    by blast
  from material_resolution [of demo_env item_cement ?s0 row s' s'] g h nm
  have "m_name row = ''Cement''" "m_unit row = ''each''" "row \<in> set (materials (flushed s'))"
    "\<forall>ty. get_or_create_material demo_env (item_cement\<lparr>item_Type := ty\<rparr>) s' = (Inr row, s')"
    by simp_all
  with g show ?thesis by blast
qed

end
